(* ===== verification/AX_Prelude.thy ===== *)
theory AX_Prelude
  imports Main "HOL-Library.Word" "HOL-Library.Code_Target_Numeral"
begin

text \<open>
  Shared vocabulary of the AltairX development: the machine-integer types of the C code, the
  result type of code that C leaves undefined in some cases (\<open>res\<close>, with its \<open>fault\<close>s), the
  little-endian byte view that \<open>memcpy\<close> gives of an integer, and the list and word lemmas the
  components use.
\<close>

unbundle bit_operations_syntax

named_theorems ax_defs \<open>definitions unfolded to evaluate one instruction\<close>

type_synonym u8 = "8 word"
type_synonym u16 = "16 word"
type_synonym u32 = "32 word"
type_synonym u64 = "64 word"

section \<open>Undefined behaviour as a value\<close>

text \<open>
  Each constructor is one way in which the C program leaves the behaviour defined by the
  language: an access outside the object a pointer points into, a shift by the width or more, a
  division by zero, a read of an uninitialised variable, a conversion of a floating-point value
  that the integer type cannot hold, a signed overflow, an invalid \<open>printf\<close> format. The last three
  end a run of the C++ program in a defined way: an \<open>assert\<close> that fails, an exception
  (\<open>std::runtime_error\<close>, or that of a container that cannot grow), a call of \<open>exit\<close> with its status.
\<close>

datatype fault =
    Mem_oob
  | Index_oob
  | Shift_range
  | Div_zero
  | Uninit
  | Float_range
  | Int_overflow
  | Bad_format
  | Assert_fail
  | Panic
  | Exit u32

type_synonym 'a res = "fault + 'a"

abbreviation Ok :: "'a \<Rightarrow> 'a res" where
  "Ok \<equiv> Inr"

abbreviation Fault :: "fault \<Rightarrow> 'a res" where
  "Fault \<equiv> Inl"

definition res_bind :: "'a res \<Rightarrow> ('a \<Rightarrow> 'b res) \<Rightarrow> 'b res" where
  "res_bind r f = (case r of Inl e \<Rightarrow> Inl e | Inr x \<Rightarrow> f x)"

definition guard_res :: "bool \<Rightarrow> fault \<Rightarrow> 'a \<Rightarrow> 'a res" where
  "guard_res b e x = (if b then Ok x else Fault e)"

lemma res_bind_simps [simp]:
  "res_bind (Ok x) f = f x"
  "res_bind (Fault e) f = Fault e"
  by (simp_all add: res_bind_def)

lemma res_bind_Ok [simp]: "res_bind r Ok = r"
  by (cases r) simp_all

lemma res_bind_assoc: "res_bind (res_bind r f) g = res_bind r (\<lambda>x. res_bind (f x) g)"
  by (cases r) simp_all

lemma res_bind_eq_Ok: "res_bind r f = Ok y \<longleftrightarrow> (\<exists>x. r = Ok x \<and> f x = Ok y)"
  by (cases r) simp_all

lemma res_bind_eq_Fault:
  "res_bind r f = Fault e \<longleftrightarrow> r = Fault e \<or> (\<exists>x. r = Ok x \<and> f x = Fault e)"
  by (cases r) simp_all

lemma res_bind_cong [fundef_cong]:
  "r = r' \<Longrightarrow> (\<And>x. r' = Ok x \<Longrightarrow> f x = f' x) \<Longrightarrow> res_bind r f = res_bind r' f'"
  by (cases r') simp_all

lemma guard_res_simps [simp]:
  "b \<Longrightarrow> guard_res b e x = Ok x"
  "\<not> b \<Longrightarrow> guard_res b e x = Fault e"
  by (simp_all add: guard_res_def)

lemma guard_res_eq_Ok [simp]: "guard_res b e x = Ok y \<longleftrightarrow> b \<and> x = y"
  by (simp add: guard_res_def)

lemma guard_res_eq_Fault [simp]: "guard_res b e x = Fault e' \<longleftrightarrow> \<not> b \<and> e = e'"
  by (simp add: guard_res_def)

text \<open>A loop body that may fail, run over a list of indices.\<close>

fun fold_res :: "('a \<Rightarrow> 's \<Rightarrow> 's res) \<Rightarrow> 'a list \<Rightarrow> 's \<Rightarrow> 's res" where
  "fold_res f [] s = Ok s"
| "fold_res f (x # xs) s = res_bind (f x s) (fold_res f xs)"

lemma fold_res_append: "fold_res f (xs @ ys) s = res_bind (fold_res f xs s) (fold_res f ys)"
  by (induction xs arbitrary: s) (simp_all add: res_bind_assoc cong: res_bind_cong)

lemma fold_res_total: "(\<And>x s. f x s = Ok (g x s)) \<Longrightarrow> fold_res f xs s = Ok (fold g xs s)"
  by (induction xs arbitrary: s) simp_all

lemma fold_res_invariant:
  assumes "fold_res f xs s = Ok s'" and "P s"
    and "\<And>x s t. x \<in> set xs \<Longrightarrow> P s \<Longrightarrow> f x s = Ok t \<Longrightarrow> P t"
  shows "P s'"
  using assms
proof (induction xs arbitrary: s)
  case Nil
  then show ?case by simp
next
  case (Cons x xs)
  then obtain t where t: "f x s = Ok t" "fold_res f xs t = Ok s'"
    by (auto simp: res_bind_eq_Ok)
  have "P t" using Cons.prems t(1) by (meson list.set_intros(1))
  then show ?case
    by (rule Cons.IH [OF t(2)]) (meson Cons.prems(3) list.set_intros(2))
qed

section \<open>The byte view of an integer\<close>

text \<open>
  \<open>memcpy\<close> from or to an object of integer or floating type moves its bytes. The target is
  little-endian (x86-64): byte \<open>i\<close> of an object holds the bits \<open>8 i .. 8 i + 7\<close>.
\<close>

definition bytes_of :: "nat \<Rightarrow> 'a::len word \<Rightarrow> u8 list" where
  "bytes_of n w = map (\<lambda>i. ucast (drop_bit (8 * i) w)) [0..<n]"

fun of_bytes :: "u8 list \<Rightarrow> 'a::len word" where
  "of_bytes [] = 0"
| "of_bytes (b # bs) = ucast b OR push_bit 8 (of_bytes bs)"

lemma length_bytes_of [simp]: "length (bytes_of n w) = n"
  by (simp add: bytes_of_def)

lemma nth_bytes_of [simp]: "i < n \<Longrightarrow> bytes_of n w ! i = ucast (drop_bit (8 * i) w)"
  by (simp add: bytes_of_def)

lemma bit_of_bytes:
  "bit (of_bytes bs :: 'a::len word) n \<longleftrightarrow>
     n < LENGTH('a) \<and> n div 8 < length bs \<and> bit (bs ! (n div 8)) (n mod 8)"
proof (induction bs arbitrary: n)
  case Nil
  then show ?case by simp
next
  case (Cons b bs)
  show ?case
  proof (cases "n < 8")
    case True
    then show ?thesis by (auto simp: bit_simps)
  next
    case False
    then obtain k where k: "n = k + 8" by (metis add.commute le_Suc_ex not_less)
    have "\<not> bit b n" using k by (auto dest: bit_imp_le_length)
    moreover have "n div 8 = Suc (k div 8)" "n mod 8 = k mod 8" using k by simp_all
    ultimately show ?thesis
      using k by (auto simp: bit_simps Cons.IH)
  qed
qed

lemma bytes_of_of_bytes:
  assumes "8 * length bs \<le> LENGTH('a::len)"
  shows "bytes_of (length bs) (of_bytes bs :: 'a word) = bs"
proof (rule nth_equalityI)
  show "length (bytes_of (length bs) (of_bytes bs :: 'a word)) = length bs" by simp
next
  fix i assume "i < length (bytes_of (length bs) (of_bytes bs :: 'a word))"
  then have i: "i < length bs" by simp
  have "ucast (drop_bit (8 * i) (of_bytes bs :: 'a word)) = bs ! i"
  proof (rule bit_word_eqI)
    fix n assume n: "n < LENGTH(8)"
    then have "8 * i + n < LENGTH('a)" using i assms by simp
    moreover have "(8 * i + n) div 8 = i" "(8 * i + n) mod 8 = n" using n by simp_all
    ultimately show "bit (ucast (drop_bit (8 * i) (of_bytes bs :: 'a word)) :: u8) n = bit (bs ! i) n"
      using n i by (simp add: bit_simps bit_of_bytes)
  qed
  with i show "bytes_of (length bs) (of_bytes bs :: 'a word) ! i = bs ! i" by simp
qed

lemma of_bytes_bytes_of:
  assumes "LENGTH('a::len) = 8 * n"
  shows "of_bytes (bytes_of n (w :: 'a word)) = w"
proof (rule bit_word_eqI)
  fix k assume k: "k < LENGTH('a)"
  then have "k div 8 < n" using assms by auto
  moreover have "8 * (k div 8) + k mod 8 = k" by simp
  ultimately show "bit (of_bytes (bytes_of n w) :: 'a word) k = bit w k"
    using k by (simp add: bit_of_bytes bit_simps)
qed

lemma of_bytes_bytes_of_u32 [simp]: "of_bytes (bytes_of 4 (w :: u32)) = w"
  by (rule of_bytes_bytes_of) simp

lemma of_bytes_bytes_of_u64 [simp]: "of_bytes (bytes_of 8 (w :: u64)) = w"
  by (rule of_bytes_bytes_of) simp

text \<open>A run of 32-bit elements as bytes, and back.\<close>

definition bytes_of_words :: "u32 list \<Rightarrow> u8 list" where
  "bytes_of_words ws = concat (map (bytes_of 4) ws)"

fun words_of_bytes :: "u8 list \<Rightarrow> u32 list" where
  "words_of_bytes (a # b # c # d # bs) = of_bytes [a, b, c, d] # words_of_bytes bs"
| "words_of_bytes _ = []"

lemma length_bytes_of_words [simp]: "length (bytes_of_words ws) = 4 * length ws"
  by (induction ws) (simp_all add: bytes_of_words_def)

lemma bytes_of_4: "bytes_of 4 w = [ucast w, ucast (drop_bit 8 w), ucast (drop_bit 16 w), ucast (drop_bit 24 w)]"
  by (simp add: bytes_of_def upt_conv_Cons)

lemma nth_bytes_of_words:
  "i < length ws \<Longrightarrow> j < 4 \<Longrightarrow> bytes_of_words ws ! (4 * i + j) = bytes_of 4 (ws ! i) ! j"
proof (induction ws arbitrary: i)
  case (Cons w ws)
  then show ?case
    by (cases i) (simp_all add: bytes_of_words_def nth_append)
qed simp

lemma words_of_bytes_of_words [simp]: "words_of_bytes (bytes_of_words ws) = ws"
proof (induction ws)
  case Nil
  then show ?case by (simp add: bytes_of_words_def)
next
  case (Cons w ws)
  have "words_of_bytes (bytes_of 4 w @ bytes_of_words ws) = of_bytes (bytes_of 4 w) # ws"
    by (simp only: bytes_of_4 append_Cons append_Nil words_of_bytes.simps Cons.IH)
  then show ?case by (simp add: bytes_of_words_def)
qed

lemma length_words_of_bytes: "length bs = 4 * n \<Longrightarrow> length (words_of_bytes bs) = n"
proof (induction bs arbitrary: n rule: words_of_bytes.induct)
  case (1 a b c d bs)
  then obtain m where "n = Suc m" by (cases n) auto
  with 1 show ?case by simp
qed auto

lemma bytes_of_words_of_bytes: "length bs = 4 * n \<Longrightarrow> bytes_of_words (words_of_bytes bs) = bs"
proof (induction bs arbitrary: n rule: words_of_bytes.induct)
  case (1 a b c d bs)
  then obtain m where m: "n = Suc m" by (cases n) auto
  have "bytes_of (length [a, b, c, d]) (of_bytes [a, b, c, d] :: u32) = [a, b, c, d]"
    by (rule bytes_of_of_bytes) simp
  then have "bytes_of 4 (of_bytes [a, b, c, d] :: u32) = [a, b, c, d]"
    by (simp add: numeral_eq_Suc)
  with 1 m show ?case by (simp add: bytes_of_words_def del: of_bytes.simps)
qed (auto simp: bytes_of_words_def, presburger+)

section \<open>List update in a range\<close>

definition splice :: "nat \<Rightarrow> 'a list \<Rightarrow> 'a list \<Rightarrow> 'a list" where
  "splice i ys xs = take i xs @ ys @ drop (i + length ys) xs"

lemma length_splice [simp]: "i + length ys \<le> length xs \<Longrightarrow> length (splice i ys xs) = length xs"
  by (simp add: splice_def)

lemma nth_splice:
  assumes "i + length ys \<le> length xs" and "k < length xs"
  shows "splice i ys xs ! k = (if i \<le> k \<and> k < i + length ys then ys ! (k - i) else xs ! k)"
  using assms by (auto simp: splice_def nth_append min_def)

lemma take_drop_splice [simp]:
  "i + length ys \<le> length xs \<Longrightarrow> take (length ys) (drop i (splice i ys xs)) = ys"
  by (simp add: splice_def min_def)

end
