(* ===== verification/AX_Float.thy ===== *)
theory AX_Float
  imports AX_Prelude
begin

text \<open>
  The C types \<open>float\<close> and \<open>double\<close> as the VM uses them: IEEE 754 binary32 and binary64 bit
  patterns (\<open>u32\<close>, \<open>u64\<close>), operations computed exactly and rounded once to nearest, ties to
  even (the x86-64 SSE arithmetic the build targets: \<open>FLT_EVAL_METHOD\<close> 0, no contraction).
  A number is unpacked into \<open>fval\<close>, an exact value \<open>(-1)^s * m * 2^e\<close>; arithmetic on \<open>fval\<close> is
  integer arithmetic, and \<open>fround\<close> packs the exact result. What C and IEEE 754 leave open (which
  NaN an operation returns, the values of the libm functions) is the parameter record \<open>fenv\<close>.
  Everything computes.
\<close>

section \<open>Exact values\<close>

datatype fval = FNaN | FInf bool | FFin bool nat int

definition emin :: "nat \<Rightarrow> nat \<Rightarrow> int" where
  "emin eb mb = 2 - 2 ^ (eb - 1) - int mb"

definition funpack :: "nat \<Rightarrow> nat \<Rightarrow> nat \<Rightarrow> fval" where
  "funpack eb mb n =
     (let s = odd (n div 2 ^ (eb + mb));
          x = (n div 2 ^ mb) mod 2 ^ eb;
          m = n mod 2 ^ mb
      in if x = 2 ^ eb - 1 then (if m = 0 then FInf s else FNaN)
         else if x = 0 then FFin s m (emin eb mb)
         else FFin s (2 ^ mb + m) (int x - 1 + emin eb mb))"

fun bitlen :: "nat \<Rightarrow> nat" where
  "bitlen m = (if m = 0 then 0 else Suc (bitlen (m div 2)))"

declare bitlen.simps [simp del]

text \<open>\<open>rne m k\<close> is \<open>m / 2^k\<close> rounded to the nearest integer, ties to even.\<close>

definition rne :: "nat \<Rightarrow> nat \<Rightarrow> nat" where
  "rne m k =
     (if k = 0 then m
      else let q = m div 2 ^ k; r = m mod 2 ^ k; h = 2 ^ (k - 1)
           in if h < r \<or> (r = h \<and> odd q) then Suc q else q)"

text \<open>
  The magnitude bits of \<open>m * 2^e\<close> rounded into the format: \<open>t\<close> is the exponent of the last place
  kept, so subnormal results, carries into the next binade and overflow to infinity all come out
  of the same sum.
\<close>

definition fmag :: "nat \<Rightarrow> nat \<Rightarrow> nat \<Rightarrow> int \<Rightarrow> nat" where
  "fmag eb mb m e =
     (if m = 0 then 0
      else let t = max (emin eb mb) (e + int (bitlen m) - int (mb + 1));
               m' = (if t \<le> e then m * 2 ^ nat (e - t) else rne m (nat (t - e)));
               b = nat (t - emin eb mb) * 2 ^ mb + m'
           in min b ((2 ^ eb - 1) * 2 ^ mb))"

definition fsign :: "nat \<Rightarrow> nat \<Rightarrow> bool \<Rightarrow> nat" where
  "fsign eb mb s = (if s then 2 ^ (eb + mb) else 0)"

definition fpack :: "nat \<Rightarrow> nat \<Rightarrow> nat \<Rightarrow> fval \<Rightarrow> nat" where
  "fpack eb mb nan v =
     (case v of
        FNaN \<Rightarrow> nan
      | FInf s \<Rightarrow> fsign eb mb s + (2 ^ eb - 1) * 2 ^ mb
      | FFin s m e \<Rightarrow> fsign eb mb s + fmag eb mb m e)"

section \<open>Exact operations\<close>

definition sig_int :: "bool \<Rightarrow> nat \<Rightarrow> int" where
  "sig_int s m = (if s then - int m else int m)"

text \<open>The significand of \<open>(-1)^s * m * 2^e\<close> in units of \<open>2^d\<close>, for \<open>d \<le> e\<close>.\<close>

definition aligned :: "bool \<Rightarrow> nat \<Rightarrow> int \<Rightarrow> int \<Rightarrow> int" where
  "aligned s m e d = sig_int s m * 2 ^ nat (e - d)"

fun fv_neg :: "fval \<Rightarrow> fval" where
  "fv_neg FNaN = FNaN"
| "fv_neg (FInf s) = FInf (\<not> s)"
| "fv_neg (FFin s m e) = FFin (\<not> s) m e"

fun fv_add :: "fval \<Rightarrow> fval \<Rightarrow> fval" where
  "fv_add FNaN _ = FNaN"
| "fv_add _ FNaN = FNaN"
| "fv_add (FInf s) (FInf t) = (if s = t then FInf s else FNaN)"
| "fv_add (FInf s) (FFin _ _ _) = FInf s"
| "fv_add (FFin _ _ _) (FInf t) = FInf t"
| "fv_add (FFin s m e) (FFin s' m' e') =
     (let d = min e e'; z = aligned s m e d + aligned s' m' e' d
      in if z = 0 then FFin (s \<and> s') 0 d else FFin (z < 0) (nat \<bar>z\<bar>) d)"

definition fv_sub :: "fval \<Rightarrow> fval \<Rightarrow> fval" where
  "fv_sub a b = fv_add a (fv_neg b)"

fun fv_mul :: "fval \<Rightarrow> fval \<Rightarrow> fval" where
  "fv_mul FNaN _ = FNaN"
| "fv_mul _ FNaN = FNaN"
| "fv_mul (FInf s) (FInf t) = FInf (s \<noteq> t)"
| "fv_mul (FInf s) (FFin t m _) = (if m = 0 then FNaN else FInf (s \<noteq> t))"
| "fv_mul (FFin s m _) (FInf t) = (if m = 0 then FNaN else FInf (s \<noteq> t))"
| "fv_mul (FFin s m e) (FFin s' m' e') = FFin (s \<noteq> s') (m * m') (e + e')"

text \<open>
  A quotient or a root is not a finite binary number: the model keeps \<open>p\<close> more bits than the
  format holds and one sticky bit below them, which is exactly what rounding to nearest reads.
\<close>

fun fv_div :: "nat \<Rightarrow> fval \<Rightarrow> fval \<Rightarrow> fval" where
  "fv_div p FNaN _ = FNaN"
| "fv_div p _ FNaN = FNaN"
| "fv_div p (FInf s) (FInf t) = FNaN"
| "fv_div p (FInf s) (FFin t m _) = FInf (s \<noteq> t)"
| "fv_div p (FFin s _ e) (FInf t) = FFin (s \<noteq> t) 0 e"
| "fv_div p (FFin s m e) (FFin s' m' e') =
     (if m' = 0 then (if m = 0 then FNaN else FInf (s \<noteq> s'))
      else let k = p + bitlen m'; q = (m * 2 ^ k) div m'; r = (m * 2 ^ k) mod m'
           in FFin (s \<noteq> s') (2 * q + (if r = 0 then 0 else 1)) (e - e' - int k - 1))"

fun isqrt :: "nat \<Rightarrow> nat" where
  "isqrt n =
     (if n = 0 then 0
      else let r = 2 * isqrt (n div 4) in if (r + 1) * (r + 1) \<le> n then r + 1 else r)"

declare isqrt.simps [simp del]

fun fv_sqrt :: "nat \<Rightarrow> fval \<Rightarrow> fval" where
  "fv_sqrt p FNaN = FNaN"
| "fv_sqrt p (FInf s) = (if s then FNaN else FInf False)"
| "fv_sqrt p (FFin s m e) =
     (if m = 0 then FFin s 0 e
      else if s then FNaN
      else let m1 = (if even e then m else 2 * m);
               e1 = (if even e then e else e - 1);
               n = m1 * 2 ^ (2 * p); q = isqrt n
           in FFin False (2 * q + (if q * q = n then 0 else 1)) (e1 div 2 - int p - 1))"

text \<open>The comparisons \<open><\<close> and \<open>==\<close> of C: false when an operand is a NaN.\<close>

fun fv_lt :: "fval \<Rightarrow> fval \<Rightarrow> bool" where
  "fv_lt FNaN _ = False"
| "fv_lt _ FNaN = False"
| "fv_lt (FInf s) (FInf t) = (s \<and> \<not> t)"
| "fv_lt (FInf s) (FFin _ _ _) = s"
| "fv_lt (FFin _ _ _) (FInf t) = (\<not> t)"
| "fv_lt (FFin s m e) (FFin s' m' e') =
     (aligned s m e (min e e') < aligned s' m' e' (min e e'))"

fun fv_eq :: "fval \<Rightarrow> fval \<Rightarrow> bool" where
  "fv_eq FNaN _ = False"
| "fv_eq _ FNaN = False"
| "fv_eq (FInf s) (FInf t) = (s = t)"
| "fv_eq (FInf s) (FFin _ _ _) = False"
| "fv_eq (FFin _ _ _) (FInf t) = False"
| "fv_eq (FFin s m e) (FFin s' m' e') =
     (aligned s m e (min e e') = aligned s' m' e' (min e e'))"

section \<open>The C types\<close>

text \<open>
  What C leaves to the implementation: the NaN an operation returns (as a function of its
  operands), the NaN a conversion between the two types returns, and the functions of libm whose
  results the standard does not fix.
\<close>

record fenv =
  nan32 :: "u32 \<Rightarrow> u32 \<Rightarrow> u32"
  nan64 :: "u64 \<Rightarrow> u64 \<Rightarrow> u64"
  nan_widen :: "u32 \<Rightarrow> u64"
  nan_narrow :: "u64 \<Rightarrow> u32"
  libm_sin :: "u64 \<Rightarrow> u64"
  libm_atan :: "u64 \<Rightarrow> u64"
  libm_atan2 :: "u64 \<Rightarrow> u64 \<Rightarrow> u64"
  libm_expf :: "u32 \<Rightarrow> u32"

abbreviation unpack32 :: "u32 \<Rightarrow> fval" where
  "unpack32 w \<equiv> funpack 8 23 (unat w)"

abbreviation unpack64 :: "u64 \<Rightarrow> fval" where
  "unpack64 w \<equiv> funpack 11 52 (unat w)"

definition pack32 :: "u32 \<Rightarrow> fval \<Rightarrow> u32" where
  "pack32 nan v = of_nat (fpack 8 23 (unat nan) v)"

definition pack64 :: "u64 \<Rightarrow> fval \<Rightarrow> u64" where
  "pack64 nan v = of_nat (fpack 11 52 (unat nan) v)"

definition f32_add :: "fenv \<Rightarrow> u32 \<Rightarrow> u32 \<Rightarrow> u32" where
  "f32_add E a b = pack32 (nan32 E a b) (fv_add (unpack32 a) (unpack32 b))"

definition f32_sub :: "fenv \<Rightarrow> u32 \<Rightarrow> u32 \<Rightarrow> u32" where
  "f32_sub E a b = pack32 (nan32 E a b) (fv_sub (unpack32 a) (unpack32 b))"

definition f32_mul :: "fenv \<Rightarrow> u32 \<Rightarrow> u32 \<Rightarrow> u32" where
  "f32_mul E a b = pack32 (nan32 E a b) (fv_mul (unpack32 a) (unpack32 b))"

definition f32_div :: "fenv \<Rightarrow> u32 \<Rightarrow> u32 \<Rightarrow> u32" where
  "f32_div E a b = pack32 (nan32 E a b) (fv_div 26 (unpack32 a) (unpack32 b))"

definition f32_sqrt :: "fenv \<Rightarrow> u32 \<Rightarrow> u32" where
  "f32_sqrt E a = pack32 (nan32 E a a) (fv_sqrt 26 (unpack32 a))"

definition f32_neg :: "u32 \<Rightarrow> u32" where
  "f32_neg a = a XOR 0x80000000"

definition f32_lt :: "u32 \<Rightarrow> u32 \<Rightarrow> bool" where
  "f32_lt a b = fv_lt (unpack32 a) (unpack32 b)"

definition f32_eq :: "u32 \<Rightarrow> u32 \<Rightarrow> bool" where
  "f32_eq a b = fv_eq (unpack32 a) (unpack32 b)"

definition f64_add :: "fenv \<Rightarrow> u64 \<Rightarrow> u64 \<Rightarrow> u64" where
  "f64_add E a b = pack64 (nan64 E a b) (fv_add (unpack64 a) (unpack64 b))"

definition f64_sub :: "fenv \<Rightarrow> u64 \<Rightarrow> u64 \<Rightarrow> u64" where
  "f64_sub E a b = pack64 (nan64 E a b) (fv_sub (unpack64 a) (unpack64 b))"

definition f64_mul :: "fenv \<Rightarrow> u64 \<Rightarrow> u64 \<Rightarrow> u64" where
  "f64_mul E a b = pack64 (nan64 E a b) (fv_mul (unpack64 a) (unpack64 b))"

definition f64_div :: "fenv \<Rightarrow> u64 \<Rightarrow> u64 \<Rightarrow> u64" where
  "f64_div E a b = pack64 (nan64 E a b) (fv_div 55 (unpack64 a) (unpack64 b))"

definition f64_sqrt :: "fenv \<Rightarrow> u64 \<Rightarrow> u64" where
  "f64_sqrt E a = pack64 (nan64 E a a) (fv_sqrt 55 (unpack64 a))"

definition f64_neg :: "u64 \<Rightarrow> u64" where
  "f64_neg a = a XOR 0x8000000000000000"

definition f64_lt :: "u64 \<Rightarrow> u64 \<Rightarrow> bool" where
  "f64_lt a b = fv_lt (unpack64 a) (unpack64 b)"

definition f64_eq :: "u64 \<Rightarrow> u64 \<Rightarrow> bool" where
  "f64_eq a b = fv_eq (unpack64 a) (unpack64 b)"

text \<open>
  \<open>fmin\<close> and \<open>fmax\<close> ignore a NaN operand; of two zeros of different sign the standard lets the
  implementation return either, and the model returns the first.
\<close>

definition f64_fmin :: "u64 \<Rightarrow> u64 \<Rightarrow> u64" where
  "f64_fmin a b =
     (if unpack64 a = FNaN then b else if unpack64 b = FNaN then a else if f64_lt b a then b else a)"

definition f64_fmax :: "u64 \<Rightarrow> u64 \<Rightarrow> u64" where
  "f64_fmax a b =
     (if unpack64 a = FNaN then b else if unpack64 b = FNaN then a else if f64_lt a b then b else a)"

definition f32_to_f64 :: "fenv \<Rightarrow> u32 \<Rightarrow> u64" where
  "f32_to_f64 E a = pack64 (nan_widen E a) (unpack32 a)"

definition f64_to_f32 :: "fenv \<Rightarrow> u64 \<Rightarrow> u32" where
  "f64_to_f32 E a = pack32 (nan_narrow E a) (unpack64 a)"

definition i32_to_f32 :: "u32 \<Rightarrow> u32" where
  "i32_to_f32 w = pack32 0 (FFin (sint w < 0) (nat \<bar>sint w\<bar>) 0)"

text \<open>Conversion to \<open>int32_t\<close> truncates; out of its range it is undefined.\<close>

definition f32_to_i32 :: "u32 \<Rightarrow> u32 res" where
  "f32_to_i32 w =
     (case unpack32 w of
        FFin s m e \<Rightarrow>
          (let i = sig_int s (if 0 \<le> e then m * 2 ^ nat e else m div 2 ^ nat (- e))
           in guard_res (- (2 ^ 31) \<le> i \<and> i < 2 ^ 31) Float_range (word_of_int i))
      | _ \<Rightarrow> Fault Float_range)"

section \<open>Rounding\<close>

lemma bitlen_0 [simp]: "bitlen 0 = 0"
  by (simp add: bitlen.simps)

lemma bitlen_pos: "0 < m \<Longrightarrow> bitlen m = Suc (bitlen (m div 2))"
  by (simp add: bitlen.simps [of m])

lemma bitlen_eq_0 [simp]: "bitlen m = 0 \<longleftrightarrow> m = 0"
  by (simp add: bitlen.simps [of m])

lemma bitlen_le: "2 ^ bitlen m \<le> 2 * m" if "0 < m"
  using that
proof (induction m rule: bitlen.induct)
  case (1 m)
  show ?case
  proof (cases "m div 2 = 0")
    case True
    with 1 show ?thesis by (simp add: bitlen_pos [of m])
  next
    case False
    with 1 have "2 ^ bitlen (m div 2) \<le> 2 * (m div 2)" by simp
    with 1 show ?thesis by (simp add: bitlen_pos [of m])
  qed
qed

lemma less_bitlen: "m < 2 ^ bitlen m"
proof (induction m rule: bitlen.induct)
  case (1 m)
  show ?case
  proof (cases "m = 0")
    case False
    with 1 have "m div 2 < 2 ^ bitlen (m div 2)" by simp
    with False show ?thesis by (simp add: bitlen_pos [of m])
  qed simp
qed

lemma bitlen_unique: "bitlen m = Suc n" if "2 ^ n \<le> m" "m < 2 ^ Suc n"
proof -
  have m: "0 < m" using that(1) by (metis bot_nat_0.not_eq_extremum le_zero_eq power_eq_0_iff zero_neq_numeral)
  have "2 ^ n < (2::nat) ^ bitlen m" using that(1) less_bitlen [of m] by (rule le_less_trans)
  moreover have "2 ^ bitlen m < (2::nat) ^ Suc (Suc n)"
    using bitlen_le [OF m] that(2) by simp
  ultimately have "n < bitlen m" "bitlen m < Suc (Suc n)"
    by (simp_all only: power_strict_increasing_iff one_less_numeral_iff semiring_norm)
  then show ?thesis by simp
qed

lemma bitlen_scale: "0 < m \<Longrightarrow> bitlen (m * 2 ^ k) = bitlen m + k"
proof (induction k)
  case (Suc k)
  have "bitlen (m * 2 ^ Suc k) = Suc (bitlen (m * 2 ^ Suc k div 2))"
    using Suc.prems by (simp add: bitlen_pos)
  also have "m * 2 ^ Suc k div 2 = m * 2 ^ k" by simp
  finally show ?case using Suc by simp
qed simp

lemma bitlen_le_iff: "bitlen m \<le> n \<longleftrightarrow> m < 2 ^ n"
proof
  assume "bitlen m \<le> n"
  then have "(2::nat) ^ bitlen m \<le> 2 ^ n" by simp
  then show "m < 2 ^ n" using less_bitlen [of m] by (rule less_le_trans [rotated])
next
  assume m: "m < 2 ^ n"
  show "bitlen m \<le> n"
  proof (cases "m = 0")
    case False
    then have "2 ^ bitlen m < (2::nat) ^ Suc n" using bitlen_le [of m] m by simp
    then have "bitlen m < Suc n" by (simp only: power_strict_increasing_iff one_less_numeral_iff semiring_norm)
    then show ?thesis by simp
  qed simp
qed

lemma rne_scale: "rne (m * 2 ^ k) (j + k) = rne m j"
proof (cases "j = 0")
  case True
  then show ?thesis by (simp add: rne_def)
next
  case False
  then obtain i where j: "j = Suc i" by (cases j) auto
  have q: "m * 2 ^ k div 2 ^ (j + k) = m div 2 ^ j"
    by (simp add: power_add)
  have r: "m * 2 ^ k mod 2 ^ (j + k) = (m mod 2 ^ j) * 2 ^ k"
    by (simp add: power_add mult_mod_left)
  have h: "(2::nat) ^ (j + k - 1) = 2 ^ (j - 1) * 2 ^ k" using j by (simp add: power_add)
  have le: "a * 2 ^ k < b * 2 ^ k \<longleftrightarrow> a < b" "a * 2 ^ k = b * 2 ^ k \<longleftrightarrow> a = b" for a b :: nat
    by simp_all
  have "j + k \<noteq> 0" using False by simp
  with False show ?thesis
    by (simp only: rne_def Let_def q r h le if_False)
qed

lemma rne_ge: "m div 2 ^ k \<le> rne m k"
  by (simp add: rne_def Let_def)

lemma rne_le: "rne m k \<le> m div 2 ^ k + 1"
  by (simp add: rne_def Let_def)

lemma rne_exact: "rne (m * 2 ^ k) k = m"
  using rne_scale [of m k 0] by (simp add: rne_def)

lemma fmag_0 [simp]: "fmag eb mb 0 e = 0"
  by (simp add: fmag_def)

lemma fmag_unfold:
  assumes "m \<noteq> 0" and "t = max (emin eb mb) (e + int (bitlen m) - int (mb + 1))"
  shows "fmag eb mb m e =
    min (nat (t - emin eb mb) * 2 ^ mb +
         (if t \<le> e then m * 2 ^ nat (e - t) else rne m (nat (t - e)))) ((2 ^ eb - 1) * 2 ^ mb)"
  using assms(1) unfolding fmag_def Let_def assms(2) by (simp only: if_False)

lemma fmag_le: "fmag eb mb m e \<le> (2 ^ eb - 1) * 2 ^ mb"
  by (simp add: fmag_def Let_def)

lemma fmag_less: "fmag eb mb m e < 2 ^ (eb + mb)"
proof -
  have "(2 ^ eb - 1) * 2 ^ mb < (2::nat) ^ eb * 2 ^ mb" by simp
  with fmag_le [of eb mb m e] have "fmag eb mb m e < 2 ^ eb * 2 ^ mb" by (rule le_less_trans)
  then show ?thesis by (simp add: power_add)
qed

lemma fmag_scale: "fmag eb mb (m * 2 ^ k) (e - int k) = fmag eb mb m e"
proof (cases "m = 0")
  case False
  define t where "t = max (emin eb mb) (e + int (bitlen m) - int (mb + 1))"
  have t': "max (emin eb mb) (e - int k + int (bitlen (m * 2 ^ k)) - int (mb + 1)) = t"
    using False by (simp add: t_def bitlen_scale)
  have main: "(if t \<le> e - int k then m * 2 ^ k * 2 ^ nat (e - int k - t)
         else rne (m * 2 ^ k) (nat (t - (e - int k)))) =
        (if t \<le> e then m * 2 ^ nat (e - t) else rne m (nat (t - e)))"
  proof (cases "t \<le> e - int k")
    case True
    then have "nat (e - t) = k + nat (e - int k - t)" by simp
    then have "(2::nat) ^ nat (e - t) = 2 ^ k * 2 ^ nat (e - int k - t)" by (simp add: power_add)
    with True show ?thesis by simp
  next
    case F: False
    show ?thesis
    proof (cases "t \<le> e")
      case True
      have k: "k = nat (e - t) + nat (t - (e - int k))" using True F by simp
      have "m * 2 ^ k = m * 2 ^ nat (e - t) * 2 ^ nat (t - (e - int k))"
        by (subst k) (simp add: power_add)
      then show ?thesis using True F by (simp only: if_True if_False rne_exact)
    next
      case False
      then have "nat (t - (e - int k)) = nat (t - e) + k" by simp
      then show ?thesis using False F by (simp add: rne_scale)
    qed
  qed
  have "fmag eb mb (m * 2 ^ k) (e - int k) =
      min (nat (t - emin eb mb) * 2 ^ mb +
         (if t \<le> e - int k then m * 2 ^ k * 2 ^ nat (e - int k - t)
          else rne (m * 2 ^ k) (nat (t - (e - int k))))) ((2 ^ eb - 1) * 2 ^ mb)"
    by (rule fmag_unfold) (use False t' in simp_all)
  also have "\<dots> = fmag eb mb m e"
    unfolding main by (rule fmag_unfold [symmetric]) (use False t_def in simp_all)
  finally show ?thesis .
qed simp

lemma fmag_pos:
  assumes "0 < m" "emin eb mb \<le> e" "0 < eb"
  shows "0 < fmag eb mb m e"
proof -
  define t where "t = max (emin eb mb) (e + int (bitlen m) - int (mb + 1))"
  have "(1::nat) < 2 ^ eb" using assms(3) by (intro one_less_power) simp_all
  then have cap: "0 < (2 ^ eb - 1) * (2::nat) ^ mb" by simp
  have "0 < (if t \<le> e then m * 2 ^ nat (e - t) else rne m (nat (t - e)))"
  proof (cases "t \<le> e")
    case True
    with assms(1) show ?thesis by simp
  next
    case False
    then have "t = e + int (bitlen m) - int (mb + 1)" using assms(2) by (simp add: t_def max_def split: if_splits)
    with False have k: "bitlen m = Suc (nat (t - e) + mb)" by simp
    have "2 ^ nat (t - e) \<le> m"
    proof -
      have "(2::nat) ^ Suc (nat (t - e)) \<le> 2 ^ bitlen m" unfolding k by simp
      also have "\<dots> \<le> 2 * m" by (rule bitlen_le [OF assms(1)])
      finally show ?thesis by simp
    qed
    then have "0 < m div 2 ^ nat (t - e)" by (simp add: div_greater_zero_iff)
    also have "\<dots> \<le> rne m (nat (t - e))" by (rule rne_ge)
    finally show ?thesis using False by simp
  qed
  then show ?thesis
    using assms(1) cap by (subst fmag_unfold [OF _ t_def]) (auto simp del: One_nat_def)
qed

lemma funpack_pack_sign:
  assumes "b < 2 ^ (eb + mb)"
  shows "funpack eb mb (fsign eb mb s + b) =
    (let x = b div 2 ^ mb; m = b mod 2 ^ mb
      in if x = 2 ^ eb - 1 then (if m = 0 then FInf s else FNaN)
         else if x = 0 then FFin s m (emin eb mb)
         else FFin s (2 ^ mb + m) (int x - 1 + emin eb mb))"
proof -
  have "(fsign eb mb s + b) div 2 ^ (eb + mb) = (if s then 1 else 0)"
    using assms div_add_self1 [of "2 ^ (eb + mb)" b] by (simp add: fsign_def del: div_add_self1)
  then have 1: "odd ((fsign eb mb s + b) div 2 ^ (eb + mb)) = s" by simp
  have x: "b div 2 ^ mb < 2 ^ eb" using assms by (simp add: power_add less_mult_imp_div_less)
  have 2: "(fsign eb mb s + b) div 2 ^ mb mod 2 ^ eb = b div 2 ^ mb"
    using x by (simp add: fsign_def power_add)
  have 3: "(fsign eb mb s + b) mod 2 ^ mb = b mod 2 ^ mb"
    by (simp add: fsign_def power_add)
  show ?thesis unfolding funpack_def Let_def 1 2 3 by simp
qed

lemma fmag_unpack:
  assumes x: "x < 2 ^ eb - 1" and m: "m < 2 ^ mb" and eb: "0 < eb"
  shows "fmag eb mb (if x = 0 then m else 2 ^ mb + m)
            (if x = 0 then emin eb mb else int x - 1 + emin eb mb) = x * 2 ^ mb + m"
proof -
  have cap: "x * 2 ^ mb + m \<le> (2 ^ eb - 1) * 2 ^ mb"
  proof -
    have "x * 2 ^ mb + m \<le> Suc x * 2 ^ mb" using m by simp
    also have "\<dots> \<le> (2 ^ eb - 1) * 2 ^ mb" using x by (intro mult_right_mono) auto
    finally show ?thesis .
  qed
  show ?thesis
  proof (cases "x = 0")
    case True
    have "bitlen m \<le> mb" using m by (simp add: bitlen_le_iff)
    then have "max (emin eb mb) (emin eb mb + int (bitlen m) - int (mb + 1)) = emin eb mb" by simp
    then show ?thesis using True cap by (simp add: fmag_def Let_def)
  next
    case False
    have "bitlen (2 ^ mb + m) = Suc mb" by (rule bitlen_unique) (use m in auto)
    then have t: "int x - 1 + emin eb mb = max (emin eb mb) (int x - 1 + emin eb mb + int (bitlen (2 ^ mb + m)) - int (mb + 1))"
      using False by simp
    have "nat (int x - 1) * 2 ^ mb + (2 ^ mb + m) = x * 2 ^ mb + m"
      using False by (cases x) auto
    moreover have "2 ^ mb + m \<noteq> 0" by simp
    note fmag_unfold [OF this t]
    ultimately have "fmag eb mb (2 ^ mb + m) (int x - 1 + emin eb mb) =
        min (x * 2 ^ mb + m) ((2 ^ eb - 1) * 2 ^ mb)" by simp
    also have "\<dots> = x * 2 ^ mb + m" using cap by (rule min_absorb1)
    finally show ?thesis using False by simp
  qed
qed

text \<open>Packing what was unpacked gives the bits back: every number of the format is exact.\<close>

lemma fpack_funpack:
  assumes n: "n < 2 ^ (eb + mb + 1)" and eb: "0 < eb" and nan: "funpack eb mb n \<noteq> FNaN"
  shows "fpack eb mb q (funpack eb mb n) = n"
proof -
  define s where "s = odd (n div 2 ^ (eb + mb))"
  define x where "x = n div 2 ^ mb mod 2 ^ eb"
  define m where "m = n mod 2 ^ mb"
  have "n div 2 ^ (eb + mb) < 2" using n by (simp add: less_mult_imp_div_less)
  then have "n div 2 ^ (eb + mb) = (if s then 1 else 0)"
    unfolding s_def by (auto simp: less_2_cases_iff)
  then have n1: "n = fsign eb mb s + n mod 2 ^ (eb + mb)"
    by (metis div_mult_mod_eq fsign_def mult_1 mult_0)
  have n2: "n mod 2 ^ (eb + mb) = x * 2 ^ mb + m"
    unfolding x_def m_def
    by (metis add.commute mod_mult2_eq mult.commute power_add)
  have x: "x < 2 ^ eb" by (simp add: x_def)
  have u: "funpack eb mb n = (if x = 2 ^ eb - 1 then (if m = 0 then FInf s else FNaN)
         else if x = 0 then FFin s m (emin eb mb)
         else FFin s (2 ^ mb + m) (int x - 1 + emin eb mb))"
    by (simp add: funpack_def Let_def s_def x_def m_def)
  have m: "m < 2 ^ mb" by (simp add: m_def)
  show ?thesis
  proof (cases "x = 2 ^ eb - 1")
    case True
    then have "m = 0" "funpack eb mb n = FInf s" using nan u by (auto split: if_splits)
    with True n1 n2 show ?thesis by (simp add: fpack_def)
  next
    case False
    with x have "x < 2 ^ eb - 1" by simp
    note f = fmag_unpack [OF this m eb]
    have "fpack eb mb q (funpack eb mb n) = fsign eb mb s + (x * 2 ^ mb + m)"
      unfolding u using False f by (cases "x = 0") (simp_all add: fpack_def)
    also have "\<dots> = n" using n1 n2 by simp
    finally show ?thesis .
  qed
qed


text \<open>A packed finite result compared with zero: its sign and whether it is zero survive rounding.\<close>

lemma fv_compare_0:
  "fv_lt (FFin s m e) (FFin False 0 d) \<longleftrightarrow> s \<and> 0 < m"
  "fv_eq (FFin s m e) (FFin False 0 d) \<longleftrightarrow> m = 0"
  by (auto simp: aligned_def sig_int_def mult_less_0_iff zero_less_mult_iff)

lemma funpack_compare_0:
  assumes b: "b \<le> (2 ^ eb - 1) * 2 ^ mb" and eb: "0 < eb"
  shows "fv_lt (funpack eb mb (fsign eb mb s + b)) (FFin False 0 d) \<longleftrightarrow> s \<and> 0 < b"
    and "fv_eq (funpack eb mb (fsign eb mb s + b)) (FFin False 0 d) \<longleftrightarrow> b = 0"
proof -
  have "(2 ^ eb - 1) * 2 ^ mb < (2::nat) ^ eb * 2 ^ mb" by simp
  with b have "b < 2 ^ eb * 2 ^ mb" by (rule le_less_trans)
  then have less: "b < 2 ^ (eb + mb)" by (simp add: power_add)
  have split: "b = b div 2 ^ mb * 2 ^ mb + b mod 2 ^ mb" by (rule div_mult_mod_eq [symmetric])
  have nan: "b mod 2 ^ mb = 0" if "b div 2 ^ mb = 2 ^ eb - 1"
    using b split that by (metis add_le_same_cancel1 le_zero_eq)
  have "(1::nat) < 2 ^ eb" using eb by (intro one_less_power) simp_all
  then have top: "0 < (2::nat) ^ eb - 1" by simp
  have zero: "b div 2 ^ mb = 0 \<Longrightarrow> b mod 2 ^ mb = b" "b div 2 ^ mb \<noteq> 0 \<Longrightarrow> 0 < b"
    using split by (simp, metis div_0 gr0I)
  note u = funpack_pack_sign [OF less, of s, unfolded Let_def]
  have "funpack eb mb (fsign eb mb s + b) = FInf s \<and> 0 < b \<or>
      (\<exists>m e. funpack eb mb (fsign eb mb s + b) = FFin s m e \<and> (m = 0 \<longleftrightarrow> b = 0))"
    using nan top zero unfolding u by auto
  then show "fv_lt (funpack eb mb (fsign eb mb s + b)) (FFin False 0 d) \<longleftrightarrow> s \<and> 0 < b"
    and "fv_eq (funpack eb mb (fsign eb mb s + b)) (FFin False 0 d) \<longleftrightarrow> b = 0"
    using fv_compare_0 by (elim disjE exE conjE, auto simp only: fv_lt.simps fv_eq.simps)+
qed

lemma funpack_emin: "funpack eb mb n = FFin s m e \<Longrightarrow> emin eb mb \<le> e"
  by (auto simp: funpack_def Let_def split: if_splits)

lemma fv_sub_FFin:
  "fv_sub (FFin s m e) (FFin s' m' e') =
     (let d = min e e'; z = aligned s m e d - aligned s' m' e' d
      in FFin (if z = 0 then s \<and> \<not> s' else z < 0) (nat \<bar>z\<bar>) d)"
proof -
  have "aligned (\<not> s') m' e' d = - aligned s' m' e' d" for d
    by (simp add: aligned_def sig_int_def)
  then show ?thesis by (simp add: fv_sub_def Let_def)
qed

lemma fpack_less: 
  assumes "nan < 2 ^ (eb + mb + 1)" and "0 < eb"
  shows "fpack eb mb nan v < 2 ^ (eb + mb + 1)"
proof -
  have c: "(2 ^ eb - 1) * 2 ^ mb < (2::nat) ^ (eb + mb)" by (simp add: power_add)
  have m: "fmag eb mb m e < 2 ^ (eb + mb)" for m e by (rule fmag_less)
  have m2: "fmag eb mb m e < 2 * 2 ^ (eb + mb)" for m e using m [of m e] by linarith
  show ?thesis
    using assms(1) c m m2 by (cases v) (auto simp: fpack_def fsign_def intro: less_trans add_strict_mono)
qed

lemma unat_pack32 [simp]: "unat (pack32 nan v) = fpack 8 23 (unat nan) v"
proof -
  have "fpack 8 23 (unat nan) v < 2 ^ (8 + 23 + 1)"
    by (rule fpack_less) (use unsigned_less [of nan] in simp_all)
  then show ?thesis by (simp add: pack32_def unsigned_of_nat take_bit_nat_eq_self)
qed

lemma unat_pack64 [simp]: "unat (pack64 nan v) = fpack 11 52 (unat nan) v"
proof -
  have "fpack 11 52 (unat nan) v < 2 ^ (11 + 52 + 1)"
    by (rule fpack_less) (use unsigned_less [of nan] in simp_all)
  then show ?thesis by (simp add: pack64_def unsigned_of_nat take_bit_nat_eq_self)
qed

lemma unpack32_0: "funpack 8 23 0 = FFin False 0 (emin 8 23)"
  by (simp add: funpack_def)

lemma unpack64_0: "funpack 11 52 0 = FFin False 0 (emin 11 52)"
  by (simp add: funpack_def)

definition f32_finite :: "u32 \<Rightarrow> bool" where
  "f32_finite w = (case unpack32 w of FFin _ _ _ \<Rightarrow> True | _ \<Rightarrow> False)"

definition f64_finite :: "u64 \<Rightarrow> bool" where
  "f64_finite w = (case unpack64 w of FFin _ _ _ \<Rightarrow> True | _ \<Rightarrow> False)"

text \<open>
  Comparing by subtraction: for finite operands the sign and the zeroness of the rounded
  difference are those of the exact one, because the format has subnormal numbers.
\<close>

lemma fsub_compare_0:
  fixes q :: nat
  assumes "funpack eb mb a = FFin s m e" and "funpack eb mb b = FFin s' m' e'" and eb: "0 < eb"
  defines "r \<equiv> fpack eb mb q (fv_sub (funpack eb mb a) (funpack eb mb b))"
  shows "fv_lt (funpack eb mb r) (FFin False 0 d) \<longleftrightarrow> fv_lt (funpack eb mb a) (funpack eb mb b)"
    and "fv_eq (funpack eb mb r) (FFin False 0 d) \<longleftrightarrow> fv_eq (funpack eb mb a) (funpack eb mb b)"
proof -
  define k where "k = min e e'"
  define z where "z = aligned s m e k - aligned s' m' e' k"
  define t where "t = (if z = 0 then s \<and> \<not> s' else z < 0)"
  have k: "emin eb mb \<le> k" using assms(1,2) by (auto simp: k_def dest: funpack_emin)
  have r: "r = fsign eb mb t + fmag eb mb (nat \<bar>z\<bar>) k"
    unfolding r_def assms(1,2) fv_sub_FFin Let_def fpack_def k_def [symmetric] z_def [symmetric]
      t_def [symmetric] by simp
  have pos: "0 < fmag eb mb (nat \<bar>z\<bar>) k \<longleftrightarrow> z \<noteq> 0"
    using fmag_pos [OF _ k eb, of "nat \<bar>z\<bar>"] by (cases "z = 0") auto
  note c = funpack_compare_0 [OF fmag_le eb, of mb t "nat \<bar>z\<bar>" k d, folded r]
  show "fv_lt (funpack eb mb r) (FFin False 0 d) \<longleftrightarrow> fv_lt (funpack eb mb a) (funpack eb mb b)"
    unfolding c(1) pos using assms(1,2) by (auto simp: t_def z_def k_def)
  show "fv_eq (funpack eb mb r) (FFin False 0 d) \<longleftrightarrow> fv_eq (funpack eb mb a) (funpack eb mb b)"
    unfolding c(2) using pos assms(1,2) by (auto simp: z_def k_def)
qed

lemma f32_sub_compare_0:
  assumes "f32_finite a" and "f32_finite b"
  shows "f32_lt (f32_sub E a b) 0 \<longleftrightarrow> f32_lt a b"
    and "f32_eq (f32_sub E a b) 0 \<longleftrightarrow> f32_eq a b"
proof -
  from assms obtain s m e s' m' e'
    where "unpack32 a = FFin s m e" and "unpack32 b = FFin s' m' e'"
    by (auto simp: f32_finite_def split: fval.splits)
  note c = fsub_compare_0 [OF this]
  show "f32_lt (f32_sub E a b) 0 \<longleftrightarrow> f32_lt a b" and "f32_eq (f32_sub E a b) 0 \<longleftrightarrow> f32_eq a b"
    using c by (simp_all add: f32_lt_def f32_eq_def f32_sub_def unpack32_0)
qed

lemma f64_sub_compare_0:
  assumes "f64_finite a" and "f64_finite b"
  shows "f64_lt (f64_sub E a b) 0 \<longleftrightarrow> f64_lt a b"
    and "f64_eq (f64_sub E a b) 0 \<longleftrightarrow> f64_eq a b"
proof -
  from assms obtain s m e s' m' e'
    where "unpack64 a = FFin s m e" and "unpack64 b = FFin s' m' e'"
    by (auto simp: f64_finite_def split: fval.splits)
  note c = fsub_compare_0 [OF this]
  show "f64_lt (f64_sub E a b) 0 \<longleftrightarrow> f64_lt a b" and "f64_eq (f64_sub E a b) 0 \<longleftrightarrow> f64_eq a b"
    using c by (simp_all add: f64_lt_def f64_eq_def f64_sub_def unpack64_0)
qed


text \<open>A number with few enough digits and a normal exponent is packed exactly.\<close>

lemma funpack_fmag_exact:
  assumes m: "0 < m" and t: "t = e + int (bitlen m) - int (mb + 1)"
    and lo: "emin eb mb \<le> t" and te: "t \<le> e" and hi: "nat (t - emin eb mb) + 2 < 2 ^ eb"
  shows "funpack eb mb (fsign eb mb s + fmag eb mb m e) = FFin s (m * 2 ^ nat (e - t)) t"
proof -
  define k where "k = nat (t - emin eb mb)"
  define f where "f = m * 2 ^ nat (e - t)"
  have "bitlen f = Suc mb" unfolding f_def using m t te by (simp add: bitlen_scale)
  then have f: "2 ^ mb \<le> f" "f < 2 ^ Suc mb"
    using bitlen_le [of f] less_bitlen [of f] m by (simp_all add: f_def)
  define r where "r = f - 2 ^ mb"
  have r: "f = 2 ^ mb + r" "r < 2 ^ mb" using f by (simp_all add: r_def)
  have "t = max (emin eb mb) (e + int (bitlen m) - int (mb + 1))" using t lo by simp
  from fmag_unfold [OF _ this] m te
  have "fmag eb mb m e = min (k * 2 ^ mb + f) ((2 ^ eb - 1) * 2 ^ mb)"
    by (simp add: k_def f_def)
  moreover have "k * 2 ^ mb + f = Suc k * 2 ^ mb + r" using r by simp
  moreover have "Suc k * 2 ^ mb + r \<le> (2 ^ eb - 1) * 2 ^ mb"
  proof -
    have "Suc k * 2 ^ mb + r \<le> (k + 2) * 2 ^ mb" using r by simp
    also have "\<dots> \<le> (2 ^ eb - 1) * 2 ^ mb" using hi by (intro mult_right_mono) (auto simp: k_def)
    finally show ?thesis .
  qed
  ultimately have mag: "fmag eb mb m e = Suc k * 2 ^ mb + r" by simp
  have "Suc k \<noteq> 2 ^ eb - 1" using hi by (simp add: k_def)
  moreover have "fmag eb mb m e div 2 ^ mb = Suc k" "fmag eb mb m e mod 2 ^ mb = r"
    unfolding mag using r(2) by (simp_all del: mult_Suc)
  moreover have "int (Suc k) - 1 + emin eb mb = t" using lo by (simp add: k_def)
  ultimately show ?thesis
    by (simp add: funpack_pack_sign [OF fmag_less] Let_def f_def [symmetric] r(1))
qed

lemma funpack_bounds:
  assumes "funpack eb mb n = FFin s m e"
  shows "m < 2 ^ Suc mb" and "e < emin eb mb + 2 ^ eb"
proof -
  have "n div 2 ^ mb mod 2 ^ eb < 2 ^ eb" and f: "n mod 2 ^ mb < 2 ^ mb" by simp_all
  have f2: "n mod 2 ^ mb < 2 * 2 ^ mb" using f by linarith
  show "m < 2 ^ Suc mb" using assms f f2
    by (auto simp: funpack_def Let_def split: if_splits)
  define x where "x = n div 2 ^ mb mod 2 ^ eb"
  have "int x - 1 < 2 ^ eb" using \<open>n div 2 ^ mb mod 2 ^ eb < 2 ^ eb\<close> unfolding x_def
    by (metis less_trans diff_gt_0_iff_gt diff_diff_eq2 less_add_one of_nat_less_iff of_nat_numeral of_nat_power)
  then show "e < emin eb mb + 2 ^ eb" using assms
    unfolding funpack_def Let_def x_def [symmetric] by (auto split: if_splits)
qed

lemma unpack64_widen:
  assumes u: "unpack32 a = FFin s m e" and m: "0 < m"
  shows "\<exists>k. unpack64 (f32_to_f64 E a) = FFin s (m * 2 ^ k) (e - int k)"
proof -
  have e1: "emin 8 23 = -149" "emin 11 52 = -1074" by (simp_all add: emin_def)
  define t where "t = e + int (bitlen m) - int (52 + 1)"
  have l: "bitlen m \<le> 24" using funpack_bounds(1) [OF u] by (simp add: bitlen_le_iff)
  have l0: "0 < bitlen m" using m bitlen_eq_0 [of m] by (simp del: bitlen_eq_0)
  have e: "-149 \<le> e" "e < 107" using funpack_emin [OF u] funpack_bounds(2) [OF u] by (simp_all add: e1)
  have lo: "emin 11 52 \<le> t" and te: "t \<le> e" using e l l0 by (simp_all add: t_def e1)
  have hi: "nat (t - emin 11 52) + 2 < 2 ^ 11" using e l lo by (simp add: t_def e1)
  have "unpack64 (f32_to_f64 E a) = FFin s (m * 2 ^ nat (e - t)) t"
    using funpack_fmag_exact [OF m t_def lo te hi] by (simp add: f32_to_f64_def u fpack_def)
  moreover have "t = e - int (nat (e - t))" using te by simp
  ultimately show ?thesis by metis
qed

text \<open>Widening to \<open>double\<close> loses nothing: narrowing again gives the float back.\<close>

lemma narrow_widen:
  assumes nan: "unpack32 a \<noteq> FNaN"
  shows "f64_to_f32 E (f32_to_f64 E a) = a"
proof -
  have "unat a < 2 ^ (8 + 23 + 1)" using unsigned_less [of a] by simp
  then have ret: "fpack 8 23 q (unpack32 a) = unat a" for q
    by (rule fpack_funpack) (use nan in simp_all)
  have "fpack 8 23 q (unpack64 (f32_to_f64 E a)) = unat a" for q
  proof (cases "unpack32 a")
    case FNaN
    with nan show ?thesis by simp
  next
    case (FInf s)
    have "funpack 11 52 (fsign 11 52 s + (2 ^ 11 - 1) * 2 ^ 52) = FInf s"
      by (subst funpack_pack_sign) simp_all
    then show ?thesis using ret [of q] FInf by (simp add: f32_to_f64_def fpack_def)
  next
    case (FFin s m e)
    show ?thesis
    proof (cases "m = 0")
      case True
      have "funpack 11 52 (fsign 11 52 s + 0) = FFin s 0 (emin 11 52)"
        by (subst funpack_pack_sign) simp_all
      then show ?thesis using ret [of q] FFin True by (simp add: f32_to_f64_def fpack_def)
    next
      case False
      then obtain k where "unpack64 (f32_to_f64 E a) = FFin s (m * 2 ^ k) (e - int k)"
        using unpack64_widen [OF FFin] by auto
      then show ?thesis using ret [of q] FFin by (simp add: fpack_def fmag_scale)
    qed
  qed
  then show ?thesis unfolding f64_to_f32_def pack32_def by simp
qed

lemma fv_add_commute: "fv_add a b = fv_add b a"
  by (cases a; cases b) (auto simp: Let_def add.commute min.commute)

lemma fv_mul_commute: "fv_mul a b = fv_mul b a"
  by (cases a; cases b) (auto simp: mult.commute add.commute)

section \<open>The NaN contract\<close>

text \<open>
  IEEE 754 asks that an operation with a NaN operand, or an invalid one, return some NaN. That is
  all the VM relies on; the x86-64 SSE rule (the first NaN operand made quiet, else the default
  NaN) keeps it for any libm.
\<close>

locale fp_env =
  fixes E :: fenv
  assumes nan32_is_nan: "unpack32 (nan32 E a b) = FNaN"
    and nan64_is_nan: "unpack64 (nan64 E c d) = FNaN"
begin

lemma f32_sub_nan:
  assumes "unpack32 a = FNaN \<or> unpack32 b = FNaN"
  shows "unpack32 (f32_sub E a b) = FNaN"
proof -
  have "fv_sub (unpack32 a) (unpack32 b) = FNaN"
    using assms by (cases "unpack32 a") (auto simp: fv_sub_def)
  then show ?thesis by (simp add: f32_sub_def fpack_def nan32_is_nan)
qed

lemma f32_sub_nan_compare:
  assumes "unpack32 a = FNaN \<or> unpack32 b = FNaN"
  shows "\<not> f32_eq (f32_sub E a b) c" and "\<not> f32_lt (f32_sub E a b) c"
  using f32_sub_nan [OF assms] by (simp_all add: f32_eq_def f32_lt_def del: unat_pack32)

lemma f64_sub_nan:
  assumes "unpack64 a = FNaN \<or> unpack64 b = FNaN"
  shows "unpack64 (f64_sub E a b) = FNaN"
proof -
  have "fv_sub (unpack64 a) (unpack64 b) = FNaN"
    using assms by (cases "unpack64 a") (auto simp: fv_sub_def)
  then show ?thesis by (simp add: f64_sub_def fpack_def nan64_is_nan)
qed

end

definition sse_nan32 :: "u32 \<Rightarrow> u32 \<Rightarrow> u32" where
  "sse_nan32 a b =
     (if unpack32 a = FNaN then a OR 0x00400000
      else if unpack32 b = FNaN then b OR 0x00400000 else 0xFFC00000)"

definition sse_nan64 :: "u64 \<Rightarrow> u64 \<Rightarrow> u64" where
  "sse_nan64 a b =
     (if unpack64 a = FNaN then a OR 0x0008000000000000
      else if unpack64 b = FNaN then b OR 0x0008000000000000 else 0xFFF8000000000000)"

definition sse_env :: "(u64 \<Rightarrow> u64) \<Rightarrow> (u64 \<Rightarrow> u64) \<Rightarrow> (u64 \<Rightarrow> u64 \<Rightarrow> u64) \<Rightarrow> (u32 \<Rightarrow> u32) \<Rightarrow> fenv" where
  "sse_env fsin fatan fatan2 fexp =
     \<lparr>nan32 = sse_nan32, nan64 = sse_nan64,
      nan_widen = (\<lambda>a. (ucast (a AND 0x80000000) * 0x100000000) OR 0x7FF8000000000000
                        OR (ucast (a AND 0x003FFFFF) * 0x20000000)),
      nan_narrow = (\<lambda>a. ucast (drop_bit 32 a AND 0x80000000) OR 0x7FC00000
                        OR ucast (drop_bit 29 a AND 0x003FFFFF)),
      libm_sin = fsin, libm_atan = fatan, libm_atan2 = fatan2, libm_expf = fexp\<rparr>"

lemma unpack32_nan_iff:
  "unpack32 w = FNaN \<longleftrightarrow> take_bit 8 (drop_bit 23 w) = 0xFF \<and> take_bit 23 w \<noteq> 0"
proof -
  have x: "unat w div 2 ^ 23 mod 2 ^ 8 = unat (take_bit 8 (drop_bit 23 w))"
    by (simp add: unsigned_take_bit_eq unat_div_distrib unat_mod_distrib take_bit_eq_mod drop_bit_eq_div)
  have m: "unat w mod 2 ^ 23 = unat (take_bit 23 w)"
    by (simp add: unat_mod_distrib take_bit_eq_mod)
  have top: "unat (take_bit 8 (drop_bit 23 w)) = 2 ^ 8 - 1 \<longleftrightarrow> take_bit 8 (drop_bit 23 w) = 0xFF"
    by (simp only: word_unat_eq_iff) simp
  show ?thesis
    unfolding funpack_def Let_def x m top by (simp add: unsigned_eq_0_iff)
qed

lemma unpack64_nan_iff:
  "unpack64 w = FNaN \<longleftrightarrow> take_bit 11 (drop_bit 52 w) = 0x7FF \<and> take_bit 52 w \<noteq> 0"
proof -
  have x: "unat w div 2 ^ 52 mod 2 ^ 11 = unat (take_bit 11 (drop_bit 52 w))"
    by (simp add: unsigned_take_bit_eq unat_div_distrib unat_mod_distrib take_bit_eq_mod drop_bit_eq_div)
  have m: "unat w mod 2 ^ 52 = unat (take_bit 52 w)"
    by (simp add: unat_mod_distrib take_bit_eq_mod)
  have top: "unat (take_bit 11 (drop_bit 52 w)) = 2 ^ 11 - 1 \<longleftrightarrow> take_bit 11 (drop_bit 52 w) = 0x7FF"
    by (simp only: word_unat_eq_iff) simp
  show ?thesis
    unfolding funpack_def Let_def x m top by (simp add: unsigned_eq_0_iff)
qed

lemma or_nonzero: "(b :: 'a::len word) \<noteq> 0 \<Longrightarrow> a OR b \<noteq> 0"
  by (simp add: or_eq_0_iff)

lemma quiet32: "unpack32 a = FNaN \<Longrightarrow> unpack32 (a OR 0x00400000) = FNaN"
  unfolding unpack32_nan_iff by (simp add: take_bit_or drop_bit_or or_nonzero)

lemma quiet64: "unpack64 a = FNaN \<Longrightarrow> unpack64 (a OR 0x0008000000000000) = FNaN"
  unfolding unpack64_nan_iff by (simp add: take_bit_or drop_bit_or or_nonzero)

lemma sse_nan32: "unpack32 (sse_nan32 a b) = FNaN"
  by (simp add: sse_nan32_def quiet32) (simp add: unpack32_nan_iff funpack_def)

lemma sse_nan64: "unpack64 (sse_nan64 a b) = FNaN"
  by (simp add: sse_nan64_def quiet64) (simp add: funpack_def)

interpretation sse: fp_env "sse_env fsin fatan fatan2 fexp" for fsin fatan fatan2 fexp
  by unfold_locales (simp_all add: sse_env_def sse_nan32 sse_nan64)

end
