(* ===== verification/AX_Machine.thy ===== *)
theory AX_Machine
  imports AX_Float
begin

text \<open>
  The state of the VM (\<open>VM/altairx/src/vm.h\<close>): the memory map, the core with its registers,
  counters, scoreboard and cache tags, and what is well-formed. The blocks of memory that the
  pointers of \<open>MMAP\<close> reach are kept in the core as \<open>mem\<close>, one block per region; the array
  \<open>spm\<close> of the struct is the block of the region \<open>SPM\<close>. The union of \<open>vreg\<close>, \<open>dreg\<close>, \<open>vireg\<close>
  and \<open>hreg\<close> is the list \<open>vreg\<close> of its 32-bit cells, and the other views are functions of it.
  \<open>out\<close> is what the VM has printed so far, oldest first.
\<close>

section \<open>Memory regions\<close>

datatype region = SPM | IO | ROM | SPMT | SPM2 | SRAM | VRAM | WRAM

text \<open>Where each region begins (\<open>MEMORY_MAP_*_BEGIN\<close>): a single bit, except for \<open>SPM\<close>.\<close>

fun region_begin :: "region \<Rightarrow> u32" where
  "region_begin SPM = 0x00000000"
| "region_begin IO = 0x02000000"
| "region_begin ROM = 0x04000000"
| "region_begin SPMT = 0x08000000"
| "region_begin SPM2 = 0x10000000"
| "region_begin SRAM = 0x20000000"
| "region_begin VRAM = 0x40000000"
| "region_begin WRAM = 0x80000000"

lemma inj_region_begin: "region_begin r = region_begin r' \<Longrightarrow> r = r'"
  by (cases r; cases r') simp_all

text \<open>Regions are ordered by where they begin.\<close>

instantiation region :: linorder
begin

definition less_eq_region :: "region \<Rightarrow> region \<Rightarrow> bool" where
  "r \<le> r' \<longleftrightarrow> region_begin r \<le> region_begin r'"

definition less_region :: "region \<Rightarrow> region \<Rightarrow> bool" where
  "r < r' \<longleftrightarrow> region_begin r < region_begin r'"

instance
  by standard (auto simp: less_eq_region_def less_region_def intro: inj_region_begin)

end

lemma UNIV_region: "(UNIV :: region set) = {SPM, IO, ROM, SPMT, SPM2, SRAM, VRAM, WRAM}"
proof -
  have "r \<in> {SPM, IO, ROM, SPMT, SPM2, SRAM, VRAM, WRAM}" for r by (cases r) simp_all
  then show ?thesis by blast
qed

lemma finite_region [simp]: "finite (A :: region set)"
  by (rule finite_subset [OF subset_UNIV]) (simp add: UNIV_region)

text \<open>A block of memory: how many bytes were allocated, and their contents.\<close>

record block =
  bsize :: nat
  bdata :: "nat \<Rightarrow> u8"

record MMAP =
  nrom :: u32
  nspmt :: u32
  nspm2 :: u32
  nspmram :: u32
  nvram :: u32
  nwram :: u32

section \<open>The core\<close>

text \<open>
  Output is a list of calls of \<open>printf\<close>: the format, and the integer and \<open>double\<close> arguments
  (widened to 64 bits; the code passes a \<open>uint64_t\<close> for \<open>%d\<close> in many places). The second version
  of the VM also writes lines with \<open>puts\<close> and text to \<open>std::cout\<close>.
\<close>

datatype parg = PInt u64 | PDouble u64

datatype out_event = Out_printf string "parg list" | Out_puts "u8 list" | Out_cout string

record Core =
  mmap :: MMAP
  mem :: "region \<Rightarrow> block"
  out :: "out_event list"
  instruction :: u64
  cycle :: u64
  bandwidth :: u64
  icachemiss :: u64
  dcachemiss :: u64
  icachemiss_cycle :: u64
  dcachemiss_cycle :: u64
  pc :: u32
  br :: u32
  lr :: u32
  ir :: u32
  imm :: u32
  error :: u32
  iorw :: u32
  opcode1 :: u32
  opcode2 :: u32
  io :: u32
  flags :: u16
  delay :: u8
  delayop :: u8
  syscall :: u8
  busy_reg :: "u8 list"
  busy_vreg :: "u8 list"
  busy_flag :: u8
  icache :: "u32 list"
  dcache :: "u32 list"
  ireg :: "u64 list"
  vreg :: "u32 list"

text \<open>
  A format asks for one argument per conversion, of the conversion's kind; to leave one out, or
  to give an integer for \<open>%f\<close> or \<open>%a\<close>, is undefined. \<open>fmt_ok\<close> is the condition under which
  \<open>printf\<close> is defined.
\<close>

definition fmt_modifier :: "char \<Rightarrow> bool" where
  "fmt_modifier c \<longleftrightarrow> c \<in> set ''0123456789.-+ #lhz''"

fun conv_takes :: "char \<Rightarrow> parg \<Rightarrow> bool" where
  "conv_takes c (PInt w) \<longleftrightarrow> c \<in> set ''dioxXuc''"
| "conv_takes c (PDouble w) \<longleftrightarrow> c \<in> set ''feEgGaA''"

lemma dropWhile_Cons_less: "dropWhile P xs = y # ys \<Longrightarrow> length ys < Suc (length xs)"
  by (metis Suc_le_lessD le_SucI length_Cons length_dropWhile_le)

function fmt_ok :: "string \<Rightarrow> parg list \<Rightarrow> bool" where
  "fmt_ok [] args = True"
| "fmt_ok (c # cs) args =
     (if c \<noteq> CHR ''%'' then fmt_ok cs args
      else case dropWhile fmt_modifier cs of
             [] \<Rightarrow> False
           | k # ks \<Rightarrow>
               if k = CHR ''%'' then fmt_ok ks args
               else case args of [] \<Rightarrow> False | a # as \<Rightarrow> conv_takes k a \<and> fmt_ok ks as)"
  by pat_completeness auto
termination
  by (relation "measure (\<lambda>(fmt, args). length fmt)") (auto dest: dropWhile_Cons_less)

definition emit :: "string \<Rightarrow> parg list \<Rightarrow> Core \<Rightarrow> Core" where
  "emit fmt args c = c\<lparr>out := out c @ [Out_printf fmt args]\<rparr>"

definition c_printf :: "string \<Rightarrow> parg list \<Rightarrow> Core \<Rightarrow> Core res" where
  "c_printf fmt args c = guard_res (fmt_ok fmt args) Bad_format (emit fmt args c)"

abbreviation nl :: string where
  "nl \<equiv> [CHR 0x0A]"

text \<open>A format without \<open>%\<close> needs no argument, and one that asks for an argument has none to take.\<close>

lemma fmt_ok_plain: "CHR ''%'' \<notin> set fmt \<Longrightarrow> fmt_ok fmt args"
  by (induction fmt arbitrary: args) auto

definition AX_core_IREG_COUNT :: nat where "AX_core_IREG_COUNT = 64"
definition AX_core_VREG_COUNT :: nat where "AX_core_VREG_COUNT = 64"
definition AX_core_SPM_SIZE :: nat where "AX_core_SPM_SIZE = 0x8000"
definition AR_core_ICACHE_SIZE :: nat where "AR_core_ICACHE_SIZE = 0x10000 div 1024"
definition AR_core_DCACHE_SIZE :: nat where "AR_core_DCACHE_SIZE = 0x8000 div 128"

lemmas core_sizes =
  AX_core_IREG_COUNT_def AX_core_VREG_COUNT_def AX_core_SPM_SIZE_def
  AR_core_ICACHE_SIZE_def AR_core_DCACHE_SIZE_def

definition Z_MASK :: u16 where "Z_MASK = 0x01"
definition S_MASK :: u16 where "S_MASK = 0x02"
definition U_MASK :: u16 where "U_MASK = 0x04"
definition ZSUClearMask :: u16 where "ZSUClearMask = NOT (Z_MASK OR S_MASK OR U_MASK)"

lemmas flag_masks = Z_MASK_def S_MASK_def U_MASK_def

definition AX_END_OF_CODE :: u32 where "AX_END_OF_CODE = 1"

text \<open>The arrays of the struct have their declared lengths.\<close>

definition wf_core :: "Core \<Rightarrow> bool" where
  "wf_core c \<longleftrightarrow>
     length (ireg c) = AX_core_IREG_COUNT \<and>
     length (vreg c) = AX_core_VREG_COUNT * 4 \<and>
     length (busy_reg c) = AX_core_IREG_COUNT \<and>
     length (busy_vreg c) = AX_core_VREG_COUNT \<and>
     length (icache c) = AR_core_ICACHE_SIZE \<and>
     length (dcache c) = AR_core_DCACHE_SIZE * 2 \<and>
     bsize (mem c SPM) = AX_core_SPM_SIZE"

lemma emit_kept [simp]:
  "mmap (emit fmt args c) = mmap c"
  "mem (emit fmt args c) = mem c"
  "instruction (emit fmt args c) = instruction c"
  "cycle (emit fmt args c) = cycle c"
  "bandwidth (emit fmt args c) = bandwidth c"
  "pc (emit fmt args c) = pc c"
  "br (emit fmt args c) = br c"
  "lr (emit fmt args c) = lr c"
  "ir (emit fmt args c) = ir c"
  "imm (emit fmt args c) = imm c"
  "error (emit fmt args c) = error c"
  "iorw (emit fmt args c) = iorw c"
  "opcode1 (emit fmt args c) = opcode1 c"
  "opcode2 (emit fmt args c) = opcode2 c"
  "flags (emit fmt args c) = flags c"
  "delay (emit fmt args c) = delay c"
  "delayop (emit fmt args c) = delayop c"
  "syscall (emit fmt args c) = syscall c"
  "busy_reg (emit fmt args c) = busy_reg c"
  "busy_vreg (emit fmt args c) = busy_vreg c"
  "busy_flag (emit fmt args c) = busy_flag c"
  "icache (emit fmt args c) = icache c"
  "dcache (emit fmt args c) = dcache c"
  "ireg (emit fmt args c) = ireg c"
  "vreg (emit fmt args c) = vreg c"
  by (simp_all add: emit_def)

lemma wf_emit [simp]: "wf_core (emit fmt args c) = wf_core c"
  by (simp add: wf_core_def)

section \<open>Register access\<close>

definition set_ireg :: "nat \<Rightarrow> u64 \<Rightarrow> Core \<Rightarrow> Core" where
  "set_ireg i v c = c\<lparr>ireg := (ireg c)[i := v]\<rparr>"

definition set_vreg :: "nat \<Rightarrow> u32 \<Rightarrow> Core \<Rightarrow> Core" where
  "set_vreg i v c = c\<lparr>vreg := (vreg c)[i := v]\<rparr>"

text \<open>Element \<open>i\<close> of the \<open>double\<close> view: cell \<open>2 i\<close> is its low half.\<close>

definition dreg :: "Core \<Rightarrow> nat \<Rightarrow> u64" where
  "dreg c i = ucast (vreg c ! (2 * i)) OR push_bit 32 (ucast (vreg c ! (2 * i + 1)))"

definition set_dreg :: "nat \<Rightarrow> u64 \<Rightarrow> Core \<Rightarrow> Core" where
  "set_dreg i v c = c\<lparr>vreg := (vreg c)[2 * i := ucast v, 2 * i + 1 := ucast (drop_bit 32 v)]\<rparr>"

definition set_flags :: "u16 \<Rightarrow> Core \<Rightarrow> Core" where
  "set_flags f c = c\<lparr>flags := f\<rparr>"

lemma dreg_set_dreg:
  assumes "2 * i + 1 < length (vreg c)" and "2 * j + 1 < length (vreg c)"
  shows "dreg (set_dreg i v c) j = (if i = j then v else dreg c j)"
proof -
  have "ucast (UCAST_lo :: u32) OR push_bit 32 (ucast (UCAST_hi :: u32)) = v"
    if "UCAST_lo = ucast v" "UCAST_hi = ucast (drop_bit 32 v)" for UCAST_lo UCAST_hi
    unfolding that by (rule bit_word_eqI) (auto simp: bit_simps)
  moreover have "2 * i \<noteq> Suc (2 * j)" "2 * j \<noteq> Suc (2 * i)" by presburger+
  ultimately show ?thesis
    using assms by (auto simp: dreg_def set_dreg_def nth_list_update)
qed

lemma wf_set_ireg [simp, intro]: "wf_core c \<Longrightarrow> wf_core (set_ireg i v c)"
  by (simp add: wf_core_def set_ireg_def)

lemma wf_set_vreg [simp, intro]: "wf_core c \<Longrightarrow> wf_core (set_vreg i v c)"
  by (simp add: wf_core_def set_vreg_def)

lemma wf_set_dreg [simp, intro]: "wf_core c \<Longrightarrow> wf_core (set_dreg i v c)"
  by (simp add: wf_core_def set_dreg_def)

lemma wf_set_flags [simp, intro]: "wf_core c \<Longrightarrow> wf_core (set_flags f c)"
  by (simp add: wf_core_def set_flags_def)

section \<open>What every step keeps\<close>

text \<open>
  The shape of the core, the memory map, the sizes of the blocks; the error code stays or becomes
  \<open>AX_END_OF_CODE\<close>.
\<close>

definition core_keeps :: "Core \<Rightarrow> Core \<Rightarrow> bool" where
  "core_keeps c c' \<longleftrightarrow>
     (wf_core c \<longrightarrow> wf_core c') \<and> mmap c' = mmap c \<and>
     (\<forall>r. bsize (mem c' r) = bsize (mem c r)) \<and>
     (error c' = error c \<or> error c' = AX_END_OF_CODE)"

lemma core_keeps_refl [simp, intro]: "core_keeps c c"
  by (simp add: core_keeps_def)

lemma core_keeps_trans: "core_keeps a b \<Longrightarrow> core_keeps b c \<Longrightarrow> core_keeps a c"
  by (auto simp: core_keeps_def)

lemma core_keeps_update [simp]:
  "core_keeps c (c'\<lparr>pc := x_pc\<rparr>) = core_keeps c c'"
  "core_keeps c (c'\<lparr>lr := x_lr\<rparr>) = core_keeps c c'"
  "core_keeps c (c'\<lparr>br := x_br\<rparr>) = core_keeps c c'"
  "core_keeps c (c'\<lparr>ir := x_ir\<rparr>) = core_keeps c c'"
  "core_keeps c (c'\<lparr>imm := x_imm\<rparr>) = core_keeps c c'"
  "core_keeps c (c'\<lparr>opcode1 := x_opcode1\<rparr>) = core_keeps c c'"
  "core_keeps c (c'\<lparr>opcode2 := x_opcode2\<rparr>) = core_keeps c c'"
  "core_keeps c (c'\<lparr>flags := x_flags\<rparr>) = core_keeps c c'"
  "core_keeps c (c'\<lparr>delay := x_delay\<rparr>) = core_keeps c c'"
  "core_keeps c (c'\<lparr>delayop := x_delayop\<rparr>) = core_keeps c c'"
  "core_keeps c (c'\<lparr>syscall := x_syscall\<rparr>) = core_keeps c c'"
  "core_keeps c (c'\<lparr>cycle := x_cycle\<rparr>) = core_keeps c c'"
  "core_keeps c (c'\<lparr>instruction := x_instruction\<rparr>) = core_keeps c c'"
  "core_keeps c (c'\<lparr>io := x_io\<rparr>) = core_keeps c c'"
  "core_keeps c (c'\<lparr>iorw := x_iorw\<rparr>) = core_keeps c c'"
  "core_keeps c (c'\<lparr>bandwidth := x_bandwidth\<rparr>) = core_keeps c c'"
  "core_keeps c (c'\<lparr>icachemiss := x_icachemiss\<rparr>) = core_keeps c c'"
  "core_keeps c (c'\<lparr>dcachemiss := x_dcachemiss\<rparr>) = core_keeps c c'"
  "core_keeps c (c'\<lparr>icachemiss_cycle := x_icachemiss_cycle\<rparr>) = core_keeps c c'"
  "core_keeps c (c'\<lparr>dcachemiss_cycle := x_dcachemiss_cycle\<rparr>) = core_keeps c c'"
  "core_keeps c (c'\<lparr>busy_flag := x_busy_flag\<rparr>) = core_keeps c c'"
  "core_keeps c (c'\<lparr>out := x_out\<rparr>) = core_keeps c c'"
  by (simp_all add: core_keeps_def wf_core_def)

lemma core_keeps_update_left [simp]:
  "core_keeps (c\<lparr>pc := x_pc\<rparr>) c' = core_keeps c c'"
  "core_keeps (c\<lparr>lr := x_lr\<rparr>) c' = core_keeps c c'"
  "core_keeps (c\<lparr>br := x_br\<rparr>) c' = core_keeps c c'"
  "core_keeps (c\<lparr>ir := x_ir\<rparr>) c' = core_keeps c c'"
  "core_keeps (c\<lparr>imm := x_imm\<rparr>) c' = core_keeps c c'"
  "core_keeps (c\<lparr>opcode1 := x_opcode1\<rparr>) c' = core_keeps c c'"
  "core_keeps (c\<lparr>opcode2 := x_opcode2\<rparr>) c' = core_keeps c c'"
  "core_keeps (c\<lparr>flags := x_flags\<rparr>) c' = core_keeps c c'"
  "core_keeps (c\<lparr>delay := x_delay\<rparr>) c' = core_keeps c c'"
  "core_keeps (c\<lparr>delayop := x_delayop\<rparr>) c' = core_keeps c c'"
  "core_keeps (c\<lparr>syscall := x_syscall\<rparr>) c' = core_keeps c c'"
  "core_keeps (c\<lparr>cycle := x_cycle\<rparr>) c' = core_keeps c c'"
  "core_keeps (c\<lparr>instruction := x_instruction\<rparr>) c' = core_keeps c c'"
  "core_keeps (c\<lparr>io := x_io\<rparr>) c' = core_keeps c c'"
  "core_keeps (c\<lparr>iorw := x_iorw\<rparr>) c' = core_keeps c c'"
  "core_keeps (c\<lparr>bandwidth := x_bandwidth\<rparr>) c' = core_keeps c c'"
  "core_keeps (c\<lparr>icachemiss := x_icachemiss\<rparr>) c' = core_keeps c c'"
  "core_keeps (c\<lparr>dcachemiss := x_dcachemiss\<rparr>) c' = core_keeps c c'"
  "core_keeps (c\<lparr>icachemiss_cycle := x_icachemiss_cycle\<rparr>) c' = core_keeps c c'"
  "core_keeps (c\<lparr>dcachemiss_cycle := x_dcachemiss_cycle\<rparr>) c' = core_keeps c c'"
  "core_keeps (c\<lparr>busy_flag := x_busy_flag\<rparr>) c' = core_keeps c c'"
  "core_keeps (c\<lparr>out := x_out\<rparr>) c' = core_keeps c c'"
  by (simp_all add: core_keeps_def wf_core_def)

lemma core_keeps_error: "core_keeps c c' \<Longrightarrow> core_keeps c (c'\<lparr>error := AX_END_OF_CODE\<rparr>)"
  by (simp add: core_keeps_def wf_core_def)

lemma core_keeps_set_ireg [simp]: "core_keeps c c' \<Longrightarrow> core_keeps c (set_ireg i v c')"
  by (auto simp: core_keeps_def) (simp_all add: set_ireg_def)

lemma core_keeps_set_vreg [simp]: "core_keeps c c' \<Longrightarrow> core_keeps c (set_vreg i v c')"
  by (auto simp: core_keeps_def) (simp_all add: set_vreg_def)

lemma core_keeps_set_dreg [simp]: "core_keeps c c' \<Longrightarrow> core_keeps c (set_dreg i w c')"
  by (auto simp: core_keeps_def) (simp_all add: set_dreg_def)

lemma core_keeps_set_flags [simp]: "core_keeps c (set_flags f c') = core_keeps c c'"
  by (simp add: set_flags_def)

lemma core_keeps_emit [simp]: "core_keeps c (emit fmt args c') = core_keeps c c'"
  by (simp add: core_keeps_def)

lemma core_keeps_fold:
  "(\<And>i d. core_keeps c d \<Longrightarrow> core_keeps c (f i d)) \<Longrightarrow> core_keeps c d \<Longrightarrow> core_keeps c (fold f is d)"
  by (induction "is" arbitrary: d) simp_all

lemma core_keeps_fold_res:
  assumes "fold_res f is d = Ok d'" and "core_keeps c d"
    and "\<And>i d e. f i d = Ok e \<Longrightarrow> core_keeps c d \<Longrightarrow> core_keeps c e"
  shows "core_keeps c d'"
  using assms(1,2) by (rule fold_res_invariant) (use assms(3) in blast)

section \<open>Fields of an instruction word\<close>

text \<open>
  Register numbers are six bits of the word, so they index the register files in range. They are
  the \<open>uint64_t\<close> locals \<open>rega\<close>, \<open>regb\<close>, \<open>regc\<close> of the C code, kept here as \<open>nat\<close>.
\<close>

definition op_rega :: "u32 \<Rightarrow> nat" where
  "op_rega opcode = unat (drop_bit 26 opcode AND 0x3F)"

definition op_regb :: "u32 \<Rightarrow> nat" where
  "op_regb opcode = unat (drop_bit 20 opcode AND 0x3F)"

definition op_regc :: "u32 \<Rightarrow> nat" where
  "op_regc opcode = unat (drop_bit 14 opcode AND 0x3F)"

definition op_unit :: "u32 \<Rightarrow> nat" where
  "op_unit opcode = unat (drop_bit 1 opcode AND 0x7F)"

definition op_size :: "u32 \<Rightarrow> nat" where
  "op_size opcode = unat (drop_bit 8 opcode AND 0x3)"

lemma unat_and_mask_less:
  fixes w :: u32
  shows "unat (w AND 0x3F) < 64" and "unat (w AND 0x7F) < 128" and "unat (w AND 0x3) < 4"
proof -
  have "w AND 0x3F = take_bit 6 w" "w AND 0x7F = take_bit 7 w" "w AND 0x3 = take_bit 2 w"
    by (simp_all add: take_bit_eq_mask mask_eq_exp_minus_1)
  moreover have "unat (take_bit n w) < 2 ^ n" for n
    by (simp add: unsigned_take_bit_eq)
  from this [of 6] this [of 7] this [of 2]
  have "unat (take_bit 6 w) < 64" "unat (take_bit 7 w) < 128" "unat (take_bit 2 w) < 4" by simp_all
  ultimately show "unat (w AND 0x3F) < 64" "unat (w AND 0x7F) < 128" "unat (w AND 0x3) < 4"
    by simp_all
qed

lemma op_field_less [simp]:
  "op_rega w < 64" "op_regb w < 64" "op_regc w < 64" "op_unit w < 128" "op_size w < 4"
  by (simp_all only: op_rega_def op_regb_def op_regc_def op_unit_def op_size_def unat_and_mask_less)

section \<open>A concrete core\<close>

text \<open>
  All registers zero and 32 KiB in every region. The examples that show a property at work start
  from it.
\<close>

definition demo_core :: Core where
  "demo_core =
     \<lparr>mmap = \<lparr>nrom = 0x8000, nspmt = 0x8000, nspm2 = 0x8000, nspmram = 0x8000, nvram = 0x8000,
              nwram = 0x8000\<rparr>,
      mem = (\<lambda>r. \<lparr>bsize = 0x8000, bdata = (\<lambda>i. 0)\<rparr>), out = [],
      instruction = 0, cycle = 0, bandwidth = 0, icachemiss = 0, dcachemiss = 0,
      icachemiss_cycle = 0, dcachemiss_cycle = 0, pc = 0x40, br = 0, lr = 0, ir = 0, imm = 0,
      error = 0, iorw = 0, opcode1 = 0, opcode2 = 0, io = 0, flags = 0, delay = 0, delayop = 0,
      syscall = 0, busy_reg = replicate 64 0, busy_vreg = replicate 64 0, busy_flag = 0,
      icache = replicate 64 0, dcache = replicate 512 0,
      ireg = replicate 64 0, vreg = replicate 256 0\<rparr>"

lemma wf_demo_core [simp]: "wf_core demo_core"
  by (simp add: wf_core_def demo_core_def core_sizes)

lemma demo_core_simps [simp]:
  "bsize (mem demo_core r) = 0x8000" "ireg demo_core = replicate 64 0"
  "vreg demo_core = replicate 256 0" "flags demo_core = 0" "delay demo_core = 0"
  "error demo_core = 0" "pc demo_core = 0x40"
  by (simp_all add: demo_core_def)

end
