(* ===== verification/AX_Memory.thy ===== *)
theory AX_Memory
  imports AX_Machine
begin

text \<open>
  Guest memory: the decoding of an address into a region and an offset (\<open>AX_Memory_Map\<close> of
  \<open>vm.c\<close>, and the same cascade in \<open>executeStore\<close> and \<open>executeLoad\<close> of \<open>decode_execute.c\<close>), and the
  registers as the other end of a transfer. An access that
  \<open>memcpy\<close> would carry past the end of the allocated block is the fault \<open>Mem_oob\<close>.
\<close>

section \<open>Blocks\<close>

definition rd_block :: "block \<Rightarrow> nat \<Rightarrow> nat \<Rightarrow> u8 list res" where
  "rd_block b a n = guard_res (a + n \<le> bsize b) Mem_oob (map (bdata b) [a..<a + n])"

definition wr_block :: "block \<Rightarrow> nat \<Rightarrow> u8 list \<Rightarrow> block res" where
  "wr_block b a bs =
     guard_res (a + length bs \<le> bsize b) Mem_oob
       (b\<lparr>bdata := (\<lambda>i. if a \<le> i \<and> i < a + length bs then bs ! (i - a) else bdata b i)\<rparr>)"

text \<open>
  What a client of byte-addressed storage relies on: a read returns as many bytes as asked, a
  write is read back, other bytes stay, and a write is in bounds exactly when the read is.
\<close>

locale byte_store =
  fixes rd :: "'m \<Rightarrow> nat \<Rightarrow> nat \<Rightarrow> u8 list res"
    and wr :: "'m \<Rightarrow> nat \<Rightarrow> u8 list \<Rightarrow> 'm res"
  assumes rd_length: "rd m a n = Ok bs \<Longrightarrow> length bs = n"
    and rd_wr: "wr m a bs = Ok m' \<Longrightarrow> rd m' a (length bs) = Ok bs"
    and rd_wr_other: "wr m a bs = Ok m' \<Longrightarrow> a + length bs \<le> b \<or> b + n \<le> a \<Longrightarrow> rd m' b n = rd m b n"
    and wr_iff_rd: "(\<exists>m'. wr m a bs = Ok m') \<longleftrightarrow> (\<exists>bs'. rd m a (length bs) = Ok bs')"
begin

lemma rd_wr_wr_same:
  assumes "wr m a bs = Ok m1" and "wr m1 a bs' = Ok m2"
  shows "rd m2 a (length bs') = Ok bs'"
  using assms(2) by (rule rd_wr)

lemma rd_wr_wr_disjoint:
  assumes "wr m a bs = Ok m1" and "wr m1 b bs' = Ok m2"
    and "a + length bs \<le> b \<or> b + length bs' \<le> a"
  shows "rd m2 a (length bs) = Ok bs" and "rd m2 b (length bs') = Ok bs'"
proof -
  have "rd m2 a (length bs) = rd m1 a (length bs)"
    by (rule rd_wr_other [OF assms(2)]) (use assms(3) in auto)
  then show "rd m2 a (length bs) = Ok bs" using rd_wr [OF assms(1)] by simp
  show "rd m2 b (length bs') = Ok bs'" using assms(2) by (rule rd_wr)
qed

lemma wr_exists: "rd m a (length bs) = Ok bs' \<Longrightarrow> \<exists>m'. wr m a bs = Ok m'"
  using wr_iff_rd by blast

lemma wr_same_bounds: "wr m a bs = Ok m' \<Longrightarrow> length bs' = length bs \<Longrightarrow> \<exists>m''. wr m' a bs' = Ok m''"
  using rd_wr wr_iff_rd by metis

end

lemma rd_block_eq_Ok: "rd_block b a n = Ok bs \<longleftrightarrow> a + n \<le> bsize b \<and> bs = map (bdata b) [a..<a + n]"
  by (auto simp: rd_block_def)

lemma wr_block_eq_Ok:
  "wr_block b a bs = Ok b' \<longleftrightarrow> a + length bs \<le> bsize b \<and>
     b' = b\<lparr>bdata := (\<lambda>i. if a \<le> i \<and> i < a + length bs then bs ! (i - a) else bdata b i)\<rparr>"
  by (auto simp: wr_block_def)

lemma wr_block_bsize: "wr_block b a bs = Ok b' \<Longrightarrow> bsize b' = bsize b"
  by (auto simp: wr_block_eq_Ok)

lemma rd_block_wr_block:
  "wr_block b a bs = Ok b' \<Longrightarrow> rd_block b' a (length bs) = Ok bs"
  by (auto simp: wr_block_eq_Ok rd_block_eq_Ok intro!: nth_equalityI)

lemma rd_block_wr_block_other:
  assumes "wr_block b a bs = Ok b'" and "a + length bs \<le> a' \<or> a' + n \<le> a"
  shows "rd_block b' a' n = rd_block b a' n"
proof -
  have "map (bdata b') [a'..<a' + n] = map (bdata b) [a'..<a' + n]"
    using assms by (auto simp: wr_block_eq_Ok)
  then show ?thesis unfolding rd_block_def wr_block_bsize [OF assms(1)] by (simp only:)
qed

section \<open>The bytes of a region of the core\<close>

definition mem_read :: "region \<Rightarrow> Core \<Rightarrow> nat \<Rightarrow> nat \<Rightarrow> u8 list res" where
  "mem_read r c a n = rd_block (mem c r) a n"

definition mem_write :: "region \<Rightarrow> Core \<Rightarrow> nat \<Rightarrow> u8 list \<Rightarrow> Core res" where
  "mem_write r c a bs =
     res_bind (wr_block (mem c r) a bs) (\<lambda>b. Ok (c\<lparr>mem := (mem c)(r := b)\<rparr>))"

lemma mem_write_eq_Ok:
  "mem_write r c a bs = Ok c' \<longleftrightarrow>
     (\<exists>b. wr_block (mem c r) a bs = Ok b \<and> c' = c\<lparr>mem := (mem c)(r := b)\<rparr>)"
  by (auto simp: mem_write_def res_bind_eq_Ok)

interpretation region_mem: byte_store "mem_read r" "mem_write r" for r
proof unfold_locales
  fix m m' :: Core and a b n :: nat and bs :: "u8 list"
  show "mem_read r m a n = Ok bs \<Longrightarrow> length bs = n"
    by (simp add: mem_read_def rd_block_eq_Ok)
  show "mem_write r m a bs = Ok m' \<Longrightarrow> mem_read r m' a (length bs) = Ok bs"
    by (auto simp: mem_read_def mem_write_eq_Ok rd_block_wr_block)
  show "mem_write r m a bs = Ok m' \<Longrightarrow> a + length bs \<le> b \<or> b + n \<le> a \<Longrightarrow>
      mem_read r m' b n = mem_read r m b n"
    by (auto simp: mem_read_def mem_write_eq_Ok rd_block_wr_block_other)
  show "(\<exists>m'. mem_write r m a bs = Ok m') \<longleftrightarrow> (\<exists>bs'. mem_read r m a (length bs) = Ok bs')"
    by (auto simp: mem_read_def mem_write_eq_Ok wr_block_def rd_block_eq_Ok)
qed

lemma mem_write_other_region:
  "mem_write r c a bs = Ok c' \<Longrightarrow> r' \<noteq> r \<Longrightarrow> mem_read r' c' b n = mem_read r' c b n"
  by (auto simp: mem_read_def mem_write_eq_Ok)

lemma mem_write_bounds: "(\<exists>c'. mem_write r c a bs = Ok c') \<longleftrightarrow> a + length bs \<le> bsize (mem c r)"
  by (auto simp: mem_write_eq_Ok wr_block_def)

lemma mem_read_bounds: "(\<exists>bs. mem_read r c a n = Ok bs) \<longleftrightarrow> a + n \<le> bsize (mem c r)"
  by (auto simp: mem_read_def rd_block_eq_Ok)

lemma wf_mem_write: "mem_write r c a bs = Ok c' \<Longrightarrow> wf_core c \<Longrightarrow> wf_core c'"
  by (auto simp: mem_write_eq_Ok wf_core_def dest: wr_block_bsize)

lemma core_keeps_mem_write:
  assumes "mem_write r c' a bs = Ok d" and "core_keeps c c'"
  shows "core_keeps c d"
proof -
  from assms(1) obtain b where d: "d = c'\<lparr>mem := (mem c')(r := b)\<rparr>" and b: "bsize b = bsize (mem c' r)"
    by (auto simp: mem_write_eq_Ok dest: wr_block_bsize)
  have "wf_core c' \<Longrightarrow> wf_core d" using assms(1) by (rule wf_mem_write)
  then show ?thesis using assms(2) b by (simp add: core_keeps_def d)
qed

section \<open>Address decoding\<close>

definition addr_bit :: "u64 \<Rightarrow> region \<Rightarrow> bool" where
  "addr_bit offset r \<longleftrightarrow> offset AND ucast (region_begin r) \<noteq> 0"

text \<open>The \<open>if\<close> cascade, in the order of the code.\<close>

definition region_of :: "u64 \<Rightarrow> region" where
  "region_of offset =
     (if addr_bit offset WRAM then WRAM
      else if addr_bit offset VRAM then VRAM
      else if addr_bit offset SRAM then SRAM
      else if addr_bit offset SPM2 then SPM2
      else if addr_bit offset SPMT then SPMT
      else if addr_bit offset ROM then ROM
      else if addr_bit offset IO then IO
      else SPM)"

text \<open>\<open>max\<close>: the size of the region minus one, in \<open>uint32_t\<close> arithmetic, widened.\<close>

fun region_max :: "MMAP \<Rightarrow> region \<Rightarrow> u64" where
  "region_max m WRAM = ucast (nwram m - 1)"
| "region_max m VRAM = ucast (nvram m - 1)"
| "region_max m SRAM = ucast (nspmram m - 1)"
| "region_max m SPM2 = ucast (nspm2 m - 1)"
| "region_max m SPMT = ucast (nspmt m - 1)"
| "region_max m ROM = ucast (nrom m - 1)"
| "region_max m IO = 0x7FFFF"
| "region_max m SPM = 0x7FFF"

definition region_off :: "MMAP \<Rightarrow> u64 \<Rightarrow> nat" where
  "region_off m offset = unat (offset AND region_max m (region_of offset))"

text \<open>\<open>AX_Memory_Map\<close> returns a pointer, here the region and the offset in its block.\<close>

definition AX_Memory_Map :: "Core \<Rightarrow> u64 \<Rightarrow> Core \<times> region \<times> nat" where
  "AX_Memory_Map core offset =
     (let r = region_of offset;
          core' = (if r = IO then core\<lparr>iorw := ucast (offset AND 0x7FFFF)\<rparr> else core)
      in (core', r, region_off (mmap core) offset))"

text \<open>
  The cascade picks the region that begins highest among those whose bit the address has, and
  the scratchpad when it has none.
\<close>

lemma region_of_Max: "region_of offset = Max {r. r = SPM \<or> addr_bit offset r}"
proof (rule Max_eqI [symmetric])
  show "region_of offset \<in> {r. r = SPM \<or> addr_bit offset r}"
    by (auto simp: region_of_def)
next
  fix r assume "r \<in> {r. r = SPM \<or> addr_bit offset r}"
  then show "r \<le> region_of offset"
    by (cases r) (auto simp: region_of_def less_eq_region_def)
qed simp

section \<open>Registers as the other end of a transfer\<close>

text \<open>\<open>void *reg\<close> points at an integer register or at a cell of the vector file.\<close>

datatype reg_ptr = IREG nat | VREG nat

fun reg_bytes :: "Core \<Rightarrow> reg_ptr \<Rightarrow> nat \<Rightarrow> u8 list" where
  "reg_bytes c (IREG i) n = take n (bytes_of 8 (ireg c ! i))"
| "reg_bytes c (VREG i) n = take n (bytes_of_words (drop i (vreg c)))"

fun reg_poke :: "reg_ptr \<Rightarrow> u8 list \<Rightarrow> Core \<Rightarrow> Core" where
  "reg_poke (IREG i) bs c = set_ireg i (of_bytes (bs @ drop (length bs) (bytes_of 8 (ireg c ! i)))) c"
| "reg_poke (VREG i) bs c = c\<lparr>vreg := splice i (words_of_bytes bs) (vreg c)\<rparr>"

text \<open>A transfer of \<open>n\<close> bytes stays inside the register file it names.\<close>

fun reg_fits :: "Core \<Rightarrow> reg_ptr \<Rightarrow> nat \<Rightarrow> bool" where
  "reg_fits c (IREG i) n \<longleftrightarrow> i < length (ireg c) \<and> n \<le> 8"
| "reg_fits c (VREG i) n \<longleftrightarrow> 4 dvd n \<and> i + n div 4 \<le> length (vreg c)"

lemma length_reg_bytes: "reg_fits c p n \<Longrightarrow> length (reg_bytes c p n) = n"
  by (cases p) (auto simp: min_def)

lemma reg_bytes_cong: "ireg c' = ireg c \<Longrightarrow> vreg c' = vreg c \<Longrightarrow> reg_bytes c' p n = reg_bytes c p n"
  by (cases p) simp_all

lemma reg_fits_cong: "ireg c' = ireg c \<Longrightarrow> vreg c' = vreg c \<Longrightarrow> reg_fits c' p n = reg_fits c p n"
  by (cases p) simp_all

lemma reg_poke_frame [simp]:
  "mem (reg_poke p bs c) = mem c" "mmap (reg_poke p bs c) = mmap c" "out (reg_poke p bs c) = out c"
  by (cases p; simp add: set_ireg_def)+

lemma take_bytes_of_words: "take (4 * n) (bytes_of_words ws) = bytes_of_words (take n ws)"
proof (induction n arbitrary: ws)
  case (Suc n)
  show ?case
  proof (cases ws)
    case (Cons w ws')
    have "take (4 * Suc n) (bytes_of 4 w @ bytes_of_words ws') =
        bytes_of 4 w @ take (4 * n) (bytes_of_words ws')" by simp
    with Suc.IH [of ws'] Cons show ?thesis by (simp add: bytes_of_words_def)
  qed (simp add: bytes_of_words_def)
qed (simp add: bytes_of_words_def)

text \<open>The bytes written to a register are the bytes read from it.\<close>

lemma reg_bytes_poke:
  assumes fits: "reg_fits c p (length bs)"
  shows "reg_bytes (reg_poke p bs c) p (length bs) = bs"
proof (cases p)
  case (IREG i)
  let ?b = "bs @ drop (length bs) (bytes_of 8 (ireg c ! i))"
  have "length ?b = 8" using fits IREG by simp
  then have "bytes_of 8 (of_bytes ?b :: u64) = ?b"
    using bytes_of_of_bytes [of ?b, where 'a = 64] by simp
  then show ?thesis using IREG fits by (simp add: set_ireg_def)
next
  case (VREG i)
  then obtain n where n: "length bs = 4 * n" using fits by auto
  then have w: "length (words_of_bytes bs) = n" by (rule length_words_of_bytes)
  have "i + n \<le> length (vreg c)" using fits VREG n by simp
  then have "take n (drop i (splice i (words_of_bytes bs) (vreg c))) = words_of_bytes bs"
    using take_drop_splice [of i "words_of_bytes bs" "vreg c"] w by simp
  then show ?thesis
    using VREG n bytes_of_words_of_bytes [OF n] by (simp add: take_bytes_of_words)
qed

lemma wf_reg_poke: "wf_core c \<Longrightarrow> reg_fits c p (length bs) \<Longrightarrow> wf_core (reg_poke p bs c)"
proof (cases p)
  case (VREG i)
  assume wf: "wf_core c" and fits: "reg_fits c p (length bs)"
  then obtain n where n: "length bs = 4 * n" using VREG by auto
  then have "length (words_of_bytes bs) = n" by (rule length_words_of_bytes)
  with n wf fits VREG show ?thesis by (simp add: wf_core_def)
qed simp

lemma core_keeps_reg_poke:
  assumes "core_keeps c c'" and "wf_core c" and "reg_fits c' p (length bs)"
  shows "core_keeps c (reg_poke p bs c')"
proof -
  have "error (reg_poke p bs c') = error c'" by (cases p) (simp_all add: set_ireg_def)
  then show ?thesis using assms by (auto simp: core_keeps_def wf_reg_poke)
qed

end
