(* ===== verification/AX_Lsu.thy ===== *)
theory AX_Lsu
  imports AX_Memory
begin

text \<open>
  The load/store unit: the I/O registers of \<open>io.c\<close>, \<open>executeStore\<close> and \<open>executeLoad\<close> of
  \<open>decode_execute.c\<close>, and the load/store cases of \<open>AX_execute_unit0A\<close> (first slot) and of
  \<open>AX_execute_unit1A\<close>, with the instruction numbers of \<open>vm.h\<close>.
\<close>

section \<open>I/O registers\<close>

text \<open>
  A read prints the device number; the only register that answers is the CPU information word at
  offset 0 of device 0, which is stored into the I/O block before the transfer. Every other arm
  of the two \<open>switch\<close>es is empty.
\<close>

definition AX_IO_Read :: "Core \<Rightarrow> u64 \<Rightarrow> Core res" where
  "AX_IO_Read core offset =
     (let mmap_io = ucast (drop_bit 16 (offset AND 0xF0000)) :: u32;
          io_reg = ucast (offset AND 0x00FFFF) :: u32;
          ioadr = ucast (offset AND 0xFFFFF) :: u32;
          core1 = emit (''%x'' @ nl) [PInt (ucast mmap_io)] core
      in if mmap_io = 0 \<and> io_reg = 0
         then mem_write IO core1 (unat ioadr) (bytes_of 8 (0x80000100 :: u64))
         else Ok core1)"

text \<open>A write prints the low half of the 64 bits at \<open>data\<close> and changes no device.\<close>

definition AX_IO_Write :: "Core \<Rightarrow> u64 \<Rightarrow> reg_ptr \<Rightarrow> Core" where
  "AX_IO_Write core offset data =
     emit (''%x'' @ nl) [PInt (of_bytes (reg_bytes core data 8))] core"

section \<open>Transfers\<close>

definition executeStore :: "Core \<Rightarrow> reg_ptr \<Rightarrow> u64 \<Rightarrow> nat \<Rightarrow> Core res" where
  "executeStore core reg offset sz =
     (let r = region_of offset;
          core1 = (if r = IO then AX_IO_Write core offset reg else core)
      in mem_write r core1 (region_off (mmap core) offset) (reg_bytes core reg sz))"

definition executeLoad :: "Core \<Rightarrow> reg_ptr \<Rightarrow> u64 \<Rightarrow> nat \<Rightarrow> Core res" where
  "executeLoad core reg offset sz =
     (let r = region_of offset
      in res_bind (if r = IO then AX_IO_Read core offset else Ok core) (\<lambda>core1.
         res_bind (mem_read r core1 (region_off (mmap core) offset) sz) (\<lambda>bs.
         Ok (reg_poke reg bs core1))))"

section \<open>Instruction words\<close>

definition extendSign :: "u32 \<Rightarrow> nat \<Rightarrow> u64" where
  "extendSign value bits =
     (if push_bit (bits - 1) 1 < value
      then push_bit bits 0xFFFFFFFFFFFFFF OR ucast value
      else ucast value)"

datatype lsu_op =
    AX_EXE_LSU_LDL | AX_EXE_LSU_STL | AX_EXE_LSU_LDVL | AX_EXE_LSU_STVL
  | AX_EXE_LSU_LDL1 | AX_EXE_LSU_STL1 | AX_EXE_LSU_LDVL1 | AX_EXE_LSU_STVL1
  | AX_EXE_LSU_LD | AX_EXE_LSU_ST | AX_EXE_LSU_LDV | AX_EXE_LSU_STV
  | AX_EXE_LSU_LDI | AX_EXE_LSU_STI | AX_EXE_LSU_LDVI | AX_EXE_LSU_STVI

text \<open>The sixteen values of the enumeration from \<open>0x20\<close> on.\<close>

definition lsu_ops :: "lsu_op list" where
  "lsu_ops =
    [AX_EXE_LSU_LDL, AX_EXE_LSU_STL, AX_EXE_LSU_LDVL, AX_EXE_LSU_STVL,
     AX_EXE_LSU_LDL1, AX_EXE_LSU_STL1, AX_EXE_LSU_LDVL1, AX_EXE_LSU_STVL1,
     AX_EXE_LSU_LD, AX_EXE_LSU_ST, AX_EXE_LSU_LDV, AX_EXE_LSU_STV,
     AX_EXE_LSU_LDI, AX_EXE_LSU_STI, AX_EXE_LSU_LDVI, AX_EXE_LSU_STVI]"

definition imm16 :: "u32 \<Rightarrow> u64" where
  "imm16 opcode = ucast (drop_bit 10 opcode AND 0xFFFF)"

definition imm10 :: "u32 \<Rightarrow> u32" where
  "imm10 opcode = drop_bit 10 opcode AND 0x3FF"

text \<open>
  The load/store cases of the first slot. Scalar transfers move \<open>2^sz\<close> bytes of \<open>ireg[rega]\<close>;
  vector transfers move \<open>16 (sz + 1)\<close> bytes at cell \<open>rega\<close> of the vector file.
\<close>

fun unit0A_lsu :: "lsu_op \<Rightarrow> nat \<Rightarrow> nat \<Rightarrow> nat \<Rightarrow> nat \<Rightarrow> u32 \<Rightarrow> Core \<Rightarrow> Core res" where
  "unit0A_lsu AX_EXE_LSU_LDL rega regb regc sz opcode core =
     executeLoad core (IREG rega) (ireg core ! 0 + imm16 opcode) (2 ^ sz)"
| "unit0A_lsu AX_EXE_LSU_STL rega regb regc sz opcode core =
     executeStore core (IREG rega) (ireg core ! 0 + imm16 opcode) (2 ^ sz)"
| "unit0A_lsu AX_EXE_LSU_LDVL rega regb regc sz opcode core =
     executeLoad core (VREG rega) (ireg core ! 0 + imm16 opcode) (16 * (1 + sz))"
| "unit0A_lsu AX_EXE_LSU_STVL rega regb regc sz opcode core =
     executeStore core (VREG rega) (ireg core ! 0 + imm16 opcode) (16 * (1 + sz))"
| "unit0A_lsu AX_EXE_LSU_LDL1 rega regb regc sz opcode core =
     executeLoad core (IREG rega) (ireg core ! 1 + imm16 opcode) (2 ^ sz)"
| "unit0A_lsu AX_EXE_LSU_STL1 rega regb regc sz opcode core =
     executeStore core (IREG rega) (ireg core ! 1 + imm16 opcode) (2 ^ sz)"
| "unit0A_lsu AX_EXE_LSU_LDVL1 rega regb regc sz opcode core =
     executeLoad core (VREG rega) (ireg core ! 1 + imm16 opcode) (16 * (1 + sz))"
| "unit0A_lsu AX_EXE_LSU_STVL1 rega regb regc sz opcode core =
     executeStore core (VREG rega) (ireg core ! 1 + imm16 opcode) (16 * (1 + sz))"
| "unit0A_lsu AX_EXE_LSU_LD rega regb regc sz opcode core =
     executeLoad core (IREG rega) (ireg core ! regb + ireg core ! regc) (2 ^ sz)"
| "unit0A_lsu AX_EXE_LSU_ST rega regb regc sz opcode core =
     executeStore core (IREG rega) (ireg core ! regb + ireg core ! regc) (2 ^ sz)"
| "unit0A_lsu AX_EXE_LSU_LDV rega regb regc sz opcode core =
     executeLoad core (VREG rega) (ireg core ! regb + ireg core ! regc) (16 * (1 + sz))"
| "unit0A_lsu AX_EXE_LSU_STV rega regb regc sz opcode core =
     executeStore core (VREG rega) (ireg core ! regb + ireg core ! regc) (16 * (1 + sz))"
| "unit0A_lsu AX_EXE_LSU_LDI rega regb regc sz opcode core =
     executeLoad core (IREG rega) (ireg core ! regb + extendSign (imm10 opcode) 10) (2 ^ sz)"
| "unit0A_lsu AX_EXE_LSU_STI rega regb regc sz opcode core =
     executeStore core (IREG rega) (ireg core ! regb + extendSign (imm10 opcode) 10) (2 ^ sz)"
| "unit0A_lsu AX_EXE_LSU_LDVI rega regb regc sz opcode core =
     executeLoad core (VREG rega) (ireg core ! regb + extendSign (imm10 opcode) 10) (16 * (1 + sz))"
| "unit0A_lsu AX_EXE_LSU_STVI rega regb regc sz opcode core =
     executeStore core (VREG rega) (ireg core ! regb + extendSign (imm10 opcode) 10) (16 * (1 + sz))"

text \<open>The same sixteen cases, written again in \<open>AX_execute_unit1A\<close>.\<close>

fun unit1A_lsu :: "lsu_op \<Rightarrow> nat \<Rightarrow> nat \<Rightarrow> nat \<Rightarrow> nat \<Rightarrow> u32 \<Rightarrow> Core \<Rightarrow> Core res" where
  "unit1A_lsu AX_EXE_LSU_LDL rega regb regc sz opcode core =
     executeLoad core (IREG rega) (ireg core ! 0 + imm16 opcode) (2 ^ sz)"
| "unit1A_lsu AX_EXE_LSU_STL rega regb regc sz opcode core =
     executeStore core (IREG rega) (ireg core ! 0 + imm16 opcode) (2 ^ sz)"
| "unit1A_lsu AX_EXE_LSU_LDVL rega regb regc sz opcode core =
     executeLoad core (VREG rega) (ireg core ! 0 + imm16 opcode) (16 * (1 + sz))"
| "unit1A_lsu AX_EXE_LSU_STVL rega regb regc sz opcode core =
     executeStore core (VREG rega) (ireg core ! 0 + imm16 opcode) (16 * (1 + sz))"
| "unit1A_lsu AX_EXE_LSU_LDL1 rega regb regc sz opcode core =
     executeLoad core (IREG rega) (ireg core ! 1 + imm16 opcode) (2 ^ sz)"
| "unit1A_lsu AX_EXE_LSU_STL1 rega regb regc sz opcode core =
     executeStore core (IREG rega) (ireg core ! 1 + imm16 opcode) (2 ^ sz)"
| "unit1A_lsu AX_EXE_LSU_LDVL1 rega regb regc sz opcode core =
     executeLoad core (VREG rega) (ireg core ! 1 + imm16 opcode) (16 * (1 + sz))"
| "unit1A_lsu AX_EXE_LSU_STVL1 rega regb regc sz opcode core =
     executeStore core (VREG rega) (ireg core ! 1 + imm16 opcode) (16 * (1 + sz))"
| "unit1A_lsu AX_EXE_LSU_LD rega regb regc sz opcode core =
     executeLoad core (IREG rega) (ireg core ! regb + ireg core ! regc) (2 ^ sz)"
| "unit1A_lsu AX_EXE_LSU_ST rega regb regc sz opcode core =
     executeStore core (IREG rega) (ireg core ! regb + ireg core ! regc) (2 ^ sz)"
| "unit1A_lsu AX_EXE_LSU_LDV rega regb regc sz opcode core =
     executeLoad core (VREG rega) (ireg core ! regb + ireg core ! regc) (16 * (1 + sz))"
| "unit1A_lsu AX_EXE_LSU_STV rega regb regc sz opcode core =
     executeStore core (VREG rega) (ireg core ! regb + ireg core ! regc) (16 * (1 + sz))"
| "unit1A_lsu AX_EXE_LSU_LDI rega regb regc sz opcode core =
     executeLoad core (IREG rega) (ireg core ! regb + extendSign (imm10 opcode) 10) (2 ^ sz)"
| "unit1A_lsu AX_EXE_LSU_STI rega regb regc sz opcode core =
     executeStore core (IREG rega) (ireg core ! regb + extendSign (imm10 opcode) 10) (2 ^ sz)"
| "unit1A_lsu AX_EXE_LSU_LDVI rega regb regc sz opcode core =
     executeLoad core (VREG rega) (ireg core ! regb + extendSign (imm10 opcode) 10) (16 * (1 + sz))"
| "unit1A_lsu AX_EXE_LSU_STVI rega regb regc sz opcode core =
     executeStore core (VREG rega) (ireg core ! regb + extendSign (imm10 opcode) 10) (16 * (1 + sz))"

section \<open>What the cases have in common\<close>

text \<open>Direction, register end, address and length of the sixteen instructions.\<close>

fun lsu_is_load :: "lsu_op \<Rightarrow> bool" where
  "lsu_is_load AX_EXE_LSU_LDL = True" | "lsu_is_load AX_EXE_LSU_LDVL = True"
| "lsu_is_load AX_EXE_LSU_LDL1 = True" | "lsu_is_load AX_EXE_LSU_LDVL1 = True"
| "lsu_is_load AX_EXE_LSU_LD = True" | "lsu_is_load AX_EXE_LSU_LDV = True"
| "lsu_is_load AX_EXE_LSU_LDI = True" | "lsu_is_load AX_EXE_LSU_LDVI = True"
| "lsu_is_load _ = False"

fun lsu_is_vector :: "lsu_op \<Rightarrow> bool" where
  "lsu_is_vector AX_EXE_LSU_LDVL = True" | "lsu_is_vector AX_EXE_LSU_STVL = True"
| "lsu_is_vector AX_EXE_LSU_LDVL1 = True" | "lsu_is_vector AX_EXE_LSU_STVL1 = True"
| "lsu_is_vector AX_EXE_LSU_LDV = True" | "lsu_is_vector AX_EXE_LSU_STV = True"
| "lsu_is_vector AX_EXE_LSU_LDVI = True" | "lsu_is_vector AX_EXE_LSU_STVI = True"
| "lsu_is_vector _ = False"

definition lsu_reg :: "lsu_op \<Rightarrow> nat \<Rightarrow> reg_ptr" where
  "lsu_reg op rega = (if lsu_is_vector op then VREG rega else IREG rega)"

definition lsu_bytes :: "lsu_op \<Rightarrow> nat \<Rightarrow> nat" where
  "lsu_bytes op sz = (if lsu_is_vector op then 16 * (1 + sz) else 2 ^ sz)"

definition lsu_addr :: "lsu_op \<Rightarrow> nat \<Rightarrow> nat \<Rightarrow> u32 \<Rightarrow> Core \<Rightarrow> u64" where
  "lsu_addr op regb regc opcode core =
     (if op \<in> {AX_EXE_LSU_LDL, AX_EXE_LSU_STL, AX_EXE_LSU_LDVL, AX_EXE_LSU_STVL}
      then ireg core ! 0 + imm16 opcode
      else if op \<in> {AX_EXE_LSU_LDL1, AX_EXE_LSU_STL1, AX_EXE_LSU_LDVL1, AX_EXE_LSU_STVL1}
      then ireg core ! 1 + imm16 opcode
      else if op \<in> {AX_EXE_LSU_LD, AX_EXE_LSU_ST, AX_EXE_LSU_LDV, AX_EXE_LSU_STV}
      then ireg core ! regb + ireg core ! regc
      else ireg core ! regb + extendSign (imm10 opcode) 10)"

definition lsu_spec :: "lsu_op \<Rightarrow> nat \<Rightarrow> nat \<Rightarrow> nat \<Rightarrow> nat \<Rightarrow> u32 \<Rightarrow> Core \<Rightarrow> Core res" where
  "lsu_spec op rega regb regc sz opcode core =
     (if lsu_is_load op
      then executeLoad core (lsu_reg op rega) (lsu_addr op regb regc opcode core) (lsu_bytes op sz)
      else executeStore core (lsu_reg op rega) (lsu_addr op regb regc opcode core) (lsu_bytes op sz))"

lemma unit0A_lsu_spec: "unit0A_lsu op = lsu_spec op"
  by (cases op) (simp_all add: fun_eq_iff lsu_spec_def lsu_reg_def lsu_bytes_def lsu_addr_def)

lemma unit1A_lsu_spec: "unit1A_lsu op = lsu_spec op"
  by (cases op) (simp_all add: fun_eq_iff lsu_spec_def lsu_reg_def lsu_bytes_def lsu_addr_def)

text \<open>Every transfer of an instruction fits the register it names.\<close>

lemma lsu_fits:
  assumes "wf_core c" and "rega < 64" and "sz < 4"
  shows "reg_fits c (lsu_reg op rega) (lsu_bytes op sz)"
proof -
  have "(2::nat) ^ sz \<le> 2 ^ 3" using assms(3) by (intro power_increasing) simp_all
  also have "(2::nat) ^ 3 = 8" by simp
  finally have "(2::nat) ^ sz \<le> 8" .
  moreover have "length (ireg c) = 64" "length (vreg c) = 256"
    using assms(1) by (simp_all add: wf_core_def core_sizes)
  ultimately have "reg_fits c (IREG rega) (2 ^ sz)" "reg_fits c (VREG rega) (16 * (1 + sz))"
    using assms(2,3) by simp_all
  then show ?thesis by (simp add: lsu_reg_def lsu_bytes_def)
qed

section \<open>Loads and stores\<close>

lemma AX_IO_Write_frame [simp]:
  "mem (AX_IO_Write c a p) = mem c" "mmap (AX_IO_Write c a p) = mmap c"
  "ireg (AX_IO_Write c a p) = ireg c" "vreg (AX_IO_Write c a p) = vreg c"
  "wf_core (AX_IO_Write c a p) = wf_core c"
  by (simp_all add: AX_IO_Write_def)

lemma AX_IO_Read_wf: "AX_IO_Read c a = Ok c' \<Longrightarrow> wf_core c \<Longrightarrow> wf_core c'"
  by (auto simp: AX_IO_Read_def Let_def wf_core_def split: if_splits dest!: wf_mem_write)

lemma AX_IO_Read_keeps: "AX_IO_Read c a = Ok c' \<Longrightarrow> core_keeps c c'"
  by (auto simp: AX_IO_Read_def Let_def split: if_splits dest!: core_keeps_mem_write [where c = c])

lemma AX_IO_Read_regs:
  "AX_IO_Read c a = Ok c' \<Longrightarrow> ireg c' = ireg c \<and> vreg c' = vreg c \<and> mmap c' = mmap c"
  by (auto simp: AX_IO_Read_def Let_def mem_write_eq_Ok split: if_splits)

lemma executeStore_eq_Ok:
  "executeStore c p a n = Ok c' \<longleftrightarrow>
     mem_write (region_of a) (if region_of a = IO then AX_IO_Write c a p else c)
       (region_off (mmap c) a) (reg_bytes c p n) = Ok c'"
  by (simp add: executeStore_def Let_def)

lemma executeLoad_plain:
  "region_of a \<noteq> IO \<Longrightarrow>
   executeLoad c p a n =
     res_bind (mem_read (region_of a) c (region_off (mmap c) a) n) (\<lambda>bs. Ok (reg_poke p bs c))"
  by (simp add: executeLoad_def)

lemma executeStore_regs:
  "executeStore c p a n = Ok c' \<Longrightarrow> ireg c' = ireg c \<and> vreg c' = vreg c \<and> mmap c' = mmap c"
  by (auto simp: executeStore_eq_Ok mem_write_eq_Ok split: if_splits)

lemma wf_executeStore: "executeStore c p a n = Ok c' \<Longrightarrow> wf_core c \<Longrightarrow> wf_core c'"
  by (auto simp: executeStore_eq_Ok split: if_splits dest: wf_mem_write)

lemma executeStore_keeps: "executeStore c p a n = Ok c' \<Longrightarrow> core_keeps c c'"
  by (auto simp: executeStore_eq_Ok AX_IO_Write_def split: if_splits
      dest!: core_keeps_mem_write [where c = c])

lemma executeLoad_keeps:
  assumes "executeLoad c p a n = Ok c'" and "wf_core c" and "reg_fits c p n"
  shows "core_keeps c c'"
proof -
  obtain c1 bs where c1: "(if region_of a = IO then AX_IO_Read c a else Ok c) = Ok c1"
    and bs: "mem_read (region_of a) c1 (region_off (mmap c) a) n = Ok bs"
    and c': "c' = reg_poke p bs c1"
    using assms(1) by (auto simp: executeLoad_def Let_def res_bind_eq_Ok)
  have "core_keeps c c1 \<and> ireg c1 = ireg c \<and> vreg c1 = vreg c"
    using c1 assms(2) by (cases "region_of a = IO") (auto dest: AX_IO_Read_keeps AX_IO_Read_regs)
  then have "core_keeps c c1" "reg_fits c1 p n"
    using assms(3) by (simp_all add: reg_fits_cong [of c1 c])
  moreover have "length bs = n" using bs by (rule region_mem.rd_length)
  ultimately show ?thesis unfolding c' using assms(2) by (intro core_keeps_reg_poke) simp_all
qed

lemma lsu_keeps:
  assumes "lsu_spec op rega regb regc sz opc c = Ok c'" and "wf_core c" and "rega < 64" and "sz < 4"
  shows "core_keeps c c'"
  using assms by (auto simp: lsu_spec_def split: if_splits
      intro: executeLoad_keeps executeStore_keeps lsu_fits)

section \<open>The I/O region\<close>

lemma and_zero_mono: "a AND m = 0 \<Longrightarrow> m AND k = k \<Longrightarrow> a AND k = 0" for a m k :: u64
  by (metis and.assoc zero_and_eq)

lemma io_device_zero:
  fixes a :: u64
  shows "(ucast (drop_bit 16 (a AND 0xF0000)) :: u32) = 0 \<and> (ucast (a AND 0x00FFFF) :: u32) = 0 \<longleftrightarrow> a AND 0xFFFFF = 0"
    (is "?l \<longleftrightarrow> ?r")
proof
  assume ?r
  then have "a AND 0xF0000 = 0" "a AND 0xFFFF = 0" by (rule and_zero_mono; simp)+
  then show ?l by simp
next
  assume l: ?l
  have m: "(0xF0000 :: u64) = push_bit 16 (mask 4)" "(0xFFFF :: u64) = mask 16" "(0xFFFFF :: u64) = mask 20"
    by (simp_all add: mask_eq_exp_minus_1)
  show ?r
  proof (rule bit_word_eqI)
    fix n assume n: "n < LENGTH(64)"
    show "bit (a AND 0xFFFFF) n = bit 0 n"
    proof (cases "n < 16")
      case True
      have "\<not> bit (ucast (a AND 0x00FFFF) :: u32) n" using l by simp
      then show ?thesis using True unfolding m by (simp add: bit_simps)
    next
      case False
      have "\<not> bit (ucast (drop_bit 16 (a AND 0xF0000)) :: u32) (n - 16)" using l by simp
      then show ?thesis using False n unfolding m by (auto simp: bit_simps)
    qed
  qed
qed

lemma AX_IO_Read_cases:
  "\<exists>d. AX_IO_Read c a =
    (let c1 = emit (''%x'' @ nl) [d] c
     in if a AND 0xFFFFF = 0 then mem_write IO c1 0 (bytes_of 8 (0x80000100 :: u64)) else Ok c1)"
  using io_device_zero [of a] by (auto simp: AX_IO_Read_def Let_def)

lemma AX_IO_Read_Ok:
  assumes "8 \<le> bsize (mem c IO)"
  shows "\<exists>c1. AX_IO_Read c a = Ok c1 \<and> bsize (mem c1 IO) = bsize (mem c IO)"
proof -
  obtain d where d: "AX_IO_Read c a =
    (let c1 = emit (''%x'' @ nl) [d] c
     in if a AND 0xFFFFF = 0 then mem_write IO c1 0 (bytes_of 8 (0x80000100 :: u64)) else Ok c1)"
    using AX_IO_Read_cases by blast
  obtain c1 where "mem_write IO (emit (''%x'' @ nl) [d] c) 0 (bytes_of 8 (0x80000100 :: u64)) = Ok c1"
    using mem_write_bounds [of IO "emit (''%x'' @ nl) [d] c" 0 "bytes_of 8 (0x80000100 :: u64)"] assms by auto
  moreover from this have "bsize (mem c1 IO) = bsize (mem c IO)"
    by (auto simp: mem_write_eq_Ok dest: wr_block_bsize)
  ultimately show ?thesis using d by (auto simp: Let_def)
qed

lemma executeLoad_device:
  assumes "region_of a = IO" and "a AND 0xFFFFF \<noteq> 0"
  obtains d where "executeLoad c q a n =
    res_bind (mem_read IO c (region_off (mmap c) a) n) (\<lambda>bs. Ok (reg_poke q bs (emit (''%x'' @ nl) [d] c)))"
  using assms AX_IO_Read_cases [of c a] by (auto simp: executeLoad_def Let_def mem_read_def emit_def intro: that)

lemma executeLoad_info:
  assumes "region_of a = IO" and "a AND 0xFFFFF = 0"
  obtains d where "executeLoad c q a n =
    res_bind (mem_write IO (emit (''%x'' @ nl) [d] c) 0 (bytes_of 8 (0x80000100 :: u64))) (\<lambda>c1.
      res_bind (mem_read IO c1 0 n) (\<lambda>bs. Ok (reg_poke q bs c1)))"
proof -
  have "a AND 0x7FFFF = 0" by (rule and_zero_mono [OF assms(2)]; simp)
  then have "region_off (mmap c) a = 0" by (simp add: region_off_def assms(1))
  then show ?thesis
    using assms AX_IO_Read_cases [of c a] by (auto simp: executeLoad_def Let_def intro: that)
qed

lemma mem_emit [simp]: "mem_read r (emit f xs c) i n = mem_read r c i n"
  by (simp add: mem_read_def emit_def)

lemma mem_write_regs: "mem_write r c i bs = Ok c' \<Longrightarrow> ireg c' = ireg c \<and> vreg c' = vreg c"
  by (auto simp: mem_write_eq_Ok)

text \<open>A read over a write at the same place gives the bytes written and, behind them, the old ones.\<close>

lemma mem_read_over:
  assumes w: "mem_write r c i bs = Ok c'" and old: "mem_read r c i n = Ok xs"
  shows "mem_read r c' i n = Ok (take n bs @ drop (length bs) xs)"
proof -
  have "i + n \<le> bsize (mem c r)" "xs = map (bdata (mem c r)) [i..<i + n]"
    using old by (simp_all add: mem_read_def rd_block_eq_Ok)
  moreover obtain b where "wr_block (mem c r) i bs = Ok b" "mem c' r = b"
    using w by (auto simp: mem_write_eq_Ok)
  ultimately show ?thesis
    by (auto simp: mem_read_def rd_block_eq_Ok wr_block_eq_Ok nth_append intro!: nth_equalityI)
qed

lemma reg_bytes_loaded:
  assumes "reg_fits c q n" and "length bs = n"
  shows "reg_bytes (reg_poke q bs c) q n = bs"
  using reg_bytes_poke [of c q bs] assms by simp

section \<open>Bounds\<close>

lemma executeStore_Ok_iff:
  assumes "reg_fits c p n" and "region_of a \<noteq> IO"
  shows "(\<exists>c'. executeStore c p a n = Ok c') \<longleftrightarrow>
    region_off (mmap c) a + n \<le> bsize (mem c (region_of a))"
  using assms by (simp add: executeStore_eq_Ok mem_write_bounds length_reg_bytes)

lemma executeLoad_Ok_iff:
  assumes "region_of a \<noteq> IO"
  shows "(\<exists>c'. executeLoad c p a n = Ok c') \<longleftrightarrow>
    region_off (mmap c) a + n \<le> bsize (mem c (region_of a))"
  using assms by (simp add: executeLoad_plain res_bind_eq_Ok mem_read_bounds)

lemma mem_read_fault: "mem_read r c a n = Fault f \<Longrightarrow> f = Mem_oob"
  by (auto simp: mem_read_def rd_block_def)

lemma mem_write_fault: "mem_write r c a bs = Fault f \<Longrightarrow> f = Mem_oob"
  by (auto simp: mem_write_def wr_block_def res_bind_eq_Fault)

lemma executeStore_fault: "executeStore c p a n = Fault f \<Longrightarrow> region_of a \<noteq> IO \<Longrightarrow> f = Mem_oob"
  by (auto simp: executeStore_def Let_def dest: mem_write_fault)

lemma executeLoad_fault: "executeLoad c p a n = Fault f \<Longrightarrow> region_of a \<noteq> IO \<Longrightarrow> f = Mem_oob"
  by (auto simp: executeLoad_plain res_bind_eq_Fault dest: mem_read_fault)

text \<open>The offset in a block of a power-of-two size, with the mask the code computes.\<close>

lemma region_off_mod:
  assumes "region_max m (region_of a) = 2 ^ k - 1" and "k < 64"
  shows "region_off m a = unat a mod 2 ^ k"
proof -
  have "a AND (2 ^ k - 1) = take_bit k a"
    by (simp add: take_bit_eq_mask mask_eq_exp_minus_1)
  then have "region_off m a = take_bit k (unat a)"
    using assms by (simp add: region_off_def unsigned_take_bit_eq [symmetric] del: unsigned_take_bit_eq)
  then show ?thesis by (simp add: take_bit_eq_mod)
qed

lemma unat_two_power: "k < 64 \<Longrightarrow> unat ((2 :: u64) ^ k) = 2 ^ k"
proof -
  assume "k < 64"
  then have "(2 :: nat) ^ k < 2 ^ LENGTH(64)" by (intro power_strict_increasing) simp_all
  then show ?thesis using unat_of_nat [of "2 ^ k", where 'a = 64] by (simp only: of_nat_power of_nat_numeral mod_less)
qed

lemma aligned_fits:
  fixes o' n s :: nat
  assumes "n dvd s" and "o' < s" and "n dvd o'"
  shows "o' + n \<le> s"
proof -
  obtain x y where "s = n * x" "o' = n * y" using assms(1,3) by (auto simp: dvd_def)
  then have "y < x" using assms(2) by simp
  then have "n * (y + 1) \<le> n * x" by (intro mult_le_mono) simp_all
  then show ?thesis using \<open>s = n * x\<close> \<open>o' = n * y\<close> by simp
qed

section \<open>Properties\<close>

text \<open>
  C11. A store followed by a load of the same length at the same address, into any register that
  holds that many bytes, succeeds and gives the register the bytes that were stored, in the I/O region
  too but for one register: a load of the CPU information word (I/O offset 0) gives the constant
  \<open>0x80000100\<close> in its first eight bytes, whatever was stored. The I/O block has room for that word.
\<close>
theorem store_load_roundtrip:
  assumes "executeStore c p a n = Ok c'" and "reg_fits c p n" and "reg_fits c q n"
    and "region_of a = IO \<Longrightarrow> 8 \<le> bsize (mem c IO)"
  shows "\<exists>c''. executeLoad c' q a n = Ok c'' \<and>
    (if region_of a = IO \<and> a AND 0xFFFFF = 0
     then reg_bytes c'' q n = take n (bytes_of 8 (0x80000100 :: u64)) @ drop 8 (reg_bytes c p n)
     else reg_bytes c'' q n = reg_bytes c p n \<and> mem c'' = mem c')"
proof -
  let ?o = "region_off (mmap c) a" and ?bs = "reg_bytes c p n"
  have st: "mem_write (region_of a) (if region_of a = IO then AX_IO_Write c a p else c) ?o ?bs = Ok c'"
    using assms(1) by (simp add: executeStore_eq_Ok)
  have len: "length ?bs = n" using assms(2) by (rule length_reg_bytes)
  note regs = executeStore_regs [OF assms(1)]
  have rd: "mem_read (region_of a) c' ?o n = Ok ?bs" using region_mem.rd_wr [OF st] by (simp add: len)
  have fits: "reg_fits c' q n" using assms(3) regs reg_fits_cong [of c' c] by simp
  consider "region_of a \<noteq> IO" | "region_of a = IO" "a AND 0xFFFFF \<noteq> 0" | "region_of a = IO" "a AND 0xFFFFF = 0"
    by blast
  then show ?thesis
  proof cases
    case 1
    then show ?thesis
      using rd regs reg_bytes_loaded [OF fits len] by (simp add: executeLoad_plain)
  next
    case 2
    obtain d where "executeLoad c' q a n = res_bind (mem_read IO c' (region_off (mmap c') a) n)
        (\<lambda>bs. Ok (reg_poke q bs (emit (''%x'' @ nl) [d] c')))"
      using 2 by (rule executeLoad_device)
    then have d: "executeLoad c' q a n = Ok (reg_poke q ?bs (emit (''%x'' @ nl) [d] c'))"
      using rd regs 2 by simp
    have "reg_fits (emit (''%x'' @ nl) [d] c') q n" using fits reg_fits_cong [of "emit (''%x'' @ nl) [d] c'" c' q n] by (simp add: emit_def)
    from d 2 reg_bytes_loaded [OF this len] show ?thesis by simp
  next
    case 3
    obtain d where d: "executeLoad c' q a n =
      res_bind (mem_write IO (emit (''%x'' @ nl) [d] c') 0 (bytes_of 8 (0x80000100 :: u64))) (\<lambda>c1.
        res_bind (mem_read IO c1 0 n) (\<lambda>bs. Ok (reg_poke q bs c1)))"
      using 3 by (rule executeLoad_info)
    let ?c = "emit (''%x'' @ nl) [d] c'"
    have "a AND 0x7FFFF = 0" by (rule and_zero_mono [OF 3(2)]; simp)
    then have rd0: "mem_read IO ?c 0 n = Ok ?bs" using rd 3(1) by (simp add: region_off_def)
    have "bsize (mem c' IO) = bsize (mem c IO)"
      using st 3(1) by (auto simp: mem_write_eq_Ok dest: wr_block_bsize)
    then obtain c1 where c1: "mem_write IO ?c 0 (bytes_of 8 (0x80000100 :: u64)) = Ok c1"
      using mem_write_bounds [of IO ?c 0 "bytes_of 8 (0x80000100 :: u64)"] assms(4) 3(1) by auto
    let ?v = "take n (bytes_of 8 (0x80000100 :: u64)) @ drop 8 ?bs"
    have rd1: "mem_read IO c1 0 n = Ok ?v" using mem_read_over [OF c1 rd0] by simp
    have "reg_fits c1 q n" using fits mem_write_regs [OF c1] reg_fits_cong [of c1 c' q n] by simp
    from reg_bytes_loaded [OF this region_mem.rd_length [OF rd1]] show ?thesis
      using d c1 rd1 3 by simp
  qed
qed
lemma region_off_demo: "region_of a \<noteq> IO \<Longrightarrow> region_off (mmap demo_core) a = unat (a AND 0x7FFF)"
  by (cases "region_of a") (simp_all add: region_off_def demo_core_def)

lemma demo_store_Ok:
  assumes "mmap c = mmap demo_core" and "mem c = mem demo_core" and "reg_fits c p n"
    and "region_of a \<noteq> IO" and "unat (a AND 0x7FFF) + n \<le> 0x8000"
  obtains c' where "executeStore c p a n = Ok c'"
  using executeStore_Ok_iff [OF assms(3,4)] assms(1,2,4,5) by (auto simp: region_off_demo)

lemma demo_set_ireg [simp]:
  "mmap (set_ireg i v c) = mmap c" "mem (set_ireg i v c) = mem c" "vreg (set_ireg i v c) = vreg c"
  "length (ireg (set_ireg i v c)) = length (ireg c)"
  by (simp_all add: set_ireg_def)

theorem store_load_roundtrip_witness:
  "(\<exists>c' c''. executeStore (set_ireg 3 0x1122334455667788 demo_core) (IREG 3) 0x80000010 4 = Ok c' \<and>
     executeLoad c' (VREG 8) 0x80000010 4 = Ok c'' \<and> reg_bytes c'' (VREG 8) 4 = [0x88, 0x77, 0x66, 0x55]) \<and>
   (\<exists>c' c''. executeStore demo_core (IREG 3) 0x02000000 8 = Ok c' \<and>
     executeLoad c' (IREG 5) 0x02000000 8 = Ok c'' \<and> reg_bytes c'' (IREG 5) 8 = bytes_of 8 (0x80000100 :: u64))"
proof
  let ?c = "set_ireg 3 0x1122334455667788 demo_core"
  have r: "region_of 0x80000010 = WRAM" by (simp add: region_of_def addr_bit_def)
  obtain c' where c': "executeStore ?c (IREG 3) 0x80000010 4 = Ok c'"
    by (rule demo_store_Ok [of ?c "IREG 3" 4 "0x80000010"]) (simp_all add: r)
  have b: "reg_bytes ?c (IREG 3) 4 = [0x88, 0x77, 0x66, 0x55]"
    by (simp add: set_ireg_def bytes_of_def upt_rec)
  from store_load_roundtrip [OF c', of "VREG 8"]
  show "\<exists>c' c''. executeStore ?c (IREG 3) 0x80000010 4 = Ok c' \<and>
      executeLoad c' (VREG 8) 0x80000010 4 = Ok c'' \<and> reg_bytes c'' (VREG 8) 4 = [0x88, 0x77, 0x66, 0x55]"
    using c' r b by auto
next
  have r: "region_of 0x02000000 = IO" by (simp add: region_of_def addr_bit_def)
  have "mem (AX_IO_Write demo_core 0x02000000 (IREG 3)) IO = mem demo_core IO" by simp
  then obtain c' where c': "executeStore demo_core (IREG 3) 0x02000000 8 = Ok c'"
    using mem_write_bounds [of IO "AX_IO_Write demo_core 0x02000000 (IREG 3)" 0 "reg_bytes demo_core (IREG 3) 8"]
    by (auto simp: executeStore_eq_Ok r region_off_def demo_core_def)
  have io: "8 \<le> bsize (mem demo_core IO)" by (simp add: demo_core_def)
  have fits: "reg_fits demo_core (IREG 3) 8" by simp
  from store_load_roundtrip [OF c', of "IREG 5"]
  show "\<exists>c' c''. executeStore demo_core (IREG 3) 0x02000000 8 = Ok c' \<and>
      executeLoad c' (IREG 5) 0x02000000 8 = Ok c'' \<and> reg_bytes c'' (IREG 5) 8 = bytes_of 8 (0x80000100 :: u64)"
    using c' r io length_reg_bytes [OF fits] fits by (auto simp del: reg_bytes.simps)
qed

text \<open>
  C29. A store changes nothing else: a load from another region, or from bytes of the same region
  that the stored range does not touch, has the result it had before the store, faults included.
\<close>
theorem store_load_other:
  assumes "executeStore c p a n = Ok c'" and "region_of a \<noteq> IO" and "region_of b \<noteq> IO"
    and "reg_fits c p n"
    and "region_of a \<noteq> region_of b \<or> region_off (mmap c) a + n \<le> region_off (mmap c) b
      \<or> region_off (mmap c) b + m \<le> region_off (mmap c) a"
  shows "executeLoad c' q b m = map_sum id (\<lambda>d. d\<lparr>mem := mem c'\<rparr>) (executeLoad c q b m)"
proof -
  let ?o = "region_off (mmap c)"
  have st: "mem_write (region_of a) c (?o a) (reg_bytes c p n) = Ok c'"
    using assms(1,2) by (simp add: executeStore_eq_Ok)
  have "mem_read (region_of b) c' (?o b) m = mem_read (region_of b) c (?o b) m"
  proof (cases "region_of a = region_of b")
    case True
    then show ?thesis
      using region_mem.rd_wr_other [OF st, of "?o b" m] assms(5) by (simp add: length_reg_bytes [OF assms(4)])
  next
    case False
    then show ?thesis using mem_write_other_region [OF st] by metis
  qed
  moreover have "c' = c\<lparr>mem := mem c'\<rparr>" using st by (auto simp: mem_write_eq_Ok)
  moreover have "reg_poke q bs (c\<lparr>mem := m'\<rparr>) = (reg_poke q bs c)\<lparr>mem := m'\<rparr>" for bs m'
    by (cases q) (simp_all add: set_ireg_def)
  ultimately show ?thesis
    using assms(3) executeStore_regs [OF assms(1)]
    by (cases "mem_read (region_of b) c (?o b) m") (simp_all add: executeLoad_plain, metis)
qed

theorem store_load_other_witness:
  "\<exists>c'. executeStore demo_core (IREG 3) 0x80000010 8 = Ok c' \<and>
     executeLoad c' (IREG 5) 0x80000018 8 =
       map_sum id (\<lambda>d. d\<lparr>mem := mem c'\<rparr>) (executeLoad demo_core (IREG 5) 0x80000018 8)"
proof -
  have r: "region_of 0x80000010 = WRAM" "region_of 0x80000018 = WRAM"
    by (simp_all add: region_of_def addr_bit_def)
  obtain c' where c': "executeStore demo_core (IREG 3) 0x80000010 8 = Ok c'"
    by (rule demo_store_Ok [of demo_core "IREG 3" 8 "0x80000010"]) (simp_all add: r)
  have "region_off (mmap demo_core) 0x80000010 + 8 \<le> region_off (mmap demo_core) 0x80000018"
    by (simp add: region_off_demo r)
  with store_load_other [OF c', of "0x80000018" 8 "IREG 5"] show ?thesis using c' by (auto simp: r)
qed

text \<open>
  C17. In a region whose block has the \<open>2^k\<close> bytes that its mask stands for, a transfer of \<open>n\<close> bytes
  wraps the address of its first byte to the block and no other: it faults exactly when
  \<open>a mod 2^k + n\<close> passes \<open>2^k\<close>. So a transfer of one byte never faults, whatever the address, and
  one of \<open>n\<close> bytes does exactly when it starts in the last \<open>n - 1\<close> bytes of the block or of an alias
  of it. The only fault is the access out of bounds.
\<close>
theorem transfer_bounds:
  assumes "reg_fits c p n" and "region_max (mmap c) (region_of a) = 2 ^ k - 1"
    and "bsize (mem c (region_of a)) = 2 ^ k" and "k < 64"
  shows "(executeStore c p a n = Fault f \<longleftrightarrow> f = Mem_oob \<and> 2 ^ k < unat a mod 2 ^ k + n) \<and>
    (executeLoad c p a n = Fault f \<longleftrightarrow> f = Mem_oob \<and> 2 ^ k < unat a mod 2 ^ k + n)"
proof -
  let ?o = "unat a mod 2 ^ k" and ?r = "region_of a"
  have off: "region_off (mmap c) a = ?o" using assms(2,4) by (rule region_off_mod)
  have wr: "mem_write ?r d ?o (reg_bytes c p n) = Fault f \<longleftrightarrow> f = Mem_oob \<and> 2 ^ k < ?o + n"
    if "bsize (mem d ?r) = 2 ^ k" for d
    using that by (auto simp: mem_write_def wr_block_def res_bind_eq_Fault length_reg_bytes [OF assms(1)] guard_res_def split: if_splits)
  have rd: "mem_read ?r d ?o n = Fault f \<longleftrightarrow> f = Mem_oob \<and> 2 ^ k < ?o + n"
    if "bsize (mem d ?r) = 2 ^ k" for d
    using that by (auto simp: mem_read_def rd_block_def guard_res_def split: if_splits)
  have "executeStore c p a n = Fault f \<longleftrightarrow> f = Mem_oob \<and> 2 ^ k < ?o + n"
    using wr [of c] wr [of "AX_IO_Write c a p"] assms(3)
    by (cases "?r = IO") (simp_all add: executeStore_def Let_def off)
  moreover have "executeLoad c p a n = Fault f \<longleftrightarrow> f = Mem_oob \<and> 2 ^ k < ?o + n"
  proof (cases "?r = IO")
    case False
    then show ?thesis using rd [of c] assms(3) by (simp add: executeLoad_plain off res_bind_eq_Fault)
  next
    case True
    have "(2 :: u64) ^ k = 0x80000" using assms(2) True by simp
    then have "unat ((2 :: u64) ^ k) = 0x80000" by simp
    then have big: "8 \<le> (2 :: nat) ^ k" using assms(4) by (simp add: unat_two_power)
    obtain c1 where c1: "AX_IO_Read c a = Ok c1" "bsize (mem c1 IO) = bsize (mem c IO)"
      using AX_IO_Read_Ok [of c a] big True assms(3) by auto
    then show ?thesis using rd [of c1] assms(3) True by (simp add: executeLoad_def Let_def off res_bind_eq_Fault)
  qed
  ultimately show ?thesis ..
qed
theorem transfer_bounds_witness:
  "executeLoad demo_core (IREG 1) 0x7FFF 8 = Fault Mem_oob \<and>
   executeStore demo_core (IREG 1) 0x7FFF 8 = Fault Mem_oob"
proof -
  have r: "region_of 0x7FFF = SPM" by (simp add: region_of_def addr_bit_def)
  have "reg_fits demo_core (IREG 1) 8" by simp
  from transfer_bounds [OF this, of "0x7FFF" 15 Mem_oob] show ?thesis by (simp add: r demo_core_def)
qed

text \<open>
  A transfer whose length is a power of two never faults when the address is a multiple of it,
  in a region whose block has the power-of-two size that its mask stands for.
\<close>
theorem aligned_transfer_ok:
  assumes "reg_fits c p (2 ^ j)" and "region_of a \<noteq> IO"
    and "region_max (mmap c) (region_of a) = 2 ^ k - 1" and "bsize (mem c (region_of a)) = 2 ^ k"
    and "j \<le> k" and "k < 64" and "2 ^ j dvd unat a"
  shows "(\<exists>c'. executeStore c p a (2 ^ j) = Ok c') \<and> (\<exists>c'. executeLoad c p a (2 ^ j) = Ok c')"
proof -
  have off: "region_off (mmap c) a = unat a mod 2 ^ k"
    using assms(3,6) by (rule region_off_mod)
  have d: "(2::nat) ^ j dvd 2 ^ k" using assms(5) by (rule le_imp_power_dvd)
  then have "(2::nat) ^ j dvd unat a mod 2 ^ k" using assms(7) by (simp add: dvd_mod)
  then have "unat a mod 2 ^ k + 2 ^ j \<le> 2 ^ k"
    using d by (intro aligned_fits) simp_all
  then show ?thesis
    using executeStore_Ok_iff [OF assms(1,2)] executeLoad_Ok_iff [OF assms(2), of c p "2 ^ j"]
    by (simp add: assms(4) off)
qed

theorem aligned_transfer_ok_witness: "\<exists>c'. executeLoad demo_core (IREG 7) 0xC0007FF8 8 = Ok c'"
proof -
  have r: "region_of 0xC0007FF8 = WRAM" by (simp add: region_of_def addr_bit_def)
  have "(2::nat) ^ 3 dvd unat (0xC0007FF8 :: u64)" by simp
  then show ?thesis
    using aligned_transfer_ok [of demo_core "IREG 7" 3 "0xC0007FF8" 15]
    by (simp add: r demo_core_def)
qed

lemma of_bytes_append_drop:
  fixes w :: u64
  assumes "length bs = n" and "n \<le> 8"
  shows "of_bytes (bs @ drop n (bytes_of 8 w)) = of_bytes bs OR (w AND NOT (mask (8 * n)))"
proof (rule bit_word_eqI)
  fix k assume k: "k < LENGTH(64)"
  then have "k div 8 < 8" by auto
  moreover have "k div 8 < n \<longleftrightarrow> k < 8 * n" by auto
  moreover have "8 * (k div 8) + k mod 8 = k" by simp
  ultimately show "bit (of_bytes (bs @ drop n (bytes_of 8 w)) :: u64) k =
      bit (of_bytes bs OR (w AND NOT (mask (8 * n)))) k"
    using k assms by (auto simp: bit_of_bytes bit_simps nth_append)
qed

text \<open>
  A load of fewer than eight bytes replaces the low bytes of the integer register and keeps
  the others: it neither clears nor sign-extends. No other register changes.
\<close>
theorem load_merges:
  assumes "executeLoad c (IREG i) a n = Ok c'" and "region_of a \<noteq> IO" and "n \<le> 8"
    and "i < length (ireg c)"
  shows "\<exists>bs. mem_read (region_of a) c (region_off (mmap c) a) n = Ok bs \<and>
    c' = set_ireg i (of_bytes bs OR (ireg c ! i AND NOT (mask (8 * n)))) c"
proof -
  obtain bs where bs: "mem_read (region_of a) c (region_off (mmap c) a) n = Ok bs"
    and c': "c' = reg_poke (IREG i) bs c"
    using assms(1,2) by (auto simp: executeLoad_plain res_bind_eq_Ok)
  then have "length bs = n" by (auto dest: region_mem.rd_length)
  then show ?thesis using bs c' of_bytes_append_drop [of bs n "ireg c ! i"] assms(3) by simp
qed

theorem load_merges_witness:
  "\<exists>c' bs. executeLoad (set_ireg 2 0x1122334455667788 demo_core) (IREG 2) 0x80000000 1 = Ok c' \<and>
     c' = set_ireg 2 (of_bytes bs OR (0x1122334455667788 AND NOT (mask 8)))
            (set_ireg 2 0x1122334455667788 demo_core)"
proof -
  let ?c = "set_ireg 2 0x1122334455667788 demo_core"
  have r: "region_of 0x80000000 = WRAM" by (simp add: region_of_def addr_bit_def)
  obtain c' where c': "executeLoad ?c (IREG 2) 0x80000000 1 = Ok c'"
    using executeLoad_Ok_iff [of "0x80000000" ?c "IREG 2" 1] by (auto simp: r region_off_demo)
  have i: "ireg ?c ! 2 = 0x1122334455667788" by (simp add: set_ireg_def)
  from load_merges [OF c'] show ?thesis using c' by (auto simp: r i)
qed

text \<open>
  Reading the CPU information register (device 0, register 0, at any alias of the I/O window)
  prints the device number and gives the 64-bit constant \<open>0x80000100\<close>, whatever the I/O block held.
\<close>
theorem io_info_register:
  assumes "region_of a = IO" and "a AND 0xFFFFF = 0" and "bsize (mem c IO) = 0x10000"
    and "i < length (ireg c)"
  shows "\<exists>c'. executeLoad c (IREG i) a 8 = Ok c' \<and> ireg c' = (ireg c)[i := 0x80000100] \<and>
    out c' = out c @ [Out_printf (''%x'' @ nl) [PInt 0]]"
proof -
  let ?c = "emit (''%x'' @ nl) [PInt 0] c"
  have bits: "a AND 0xF0000 = 0" "a AND 0xFFFF = 0" "a AND 0x7FFFF = 0"
    by (rule and_zero_mono [OF assms(2)]; simp)+
  obtain c1 where w: "mem_write IO ?c 0 (bytes_of 8 (0x80000100 :: u64)) = Ok c1"
    using mem_write_bounds [of IO ?c 0 "bytes_of 8 (0x80000100 :: u64)"] assms(3) by auto
  have rd: "mem_read IO c1 0 8 = Ok (bytes_of 8 (0x80000100 :: u64))"
    using region_mem.rd_wr [OF w] by simp
  have c1: "ireg c1 = ireg c" "out c1 = out ?c" using w by (auto simp: mem_write_eq_Ok)
  have io: "AX_IO_Read c a = Ok c1"
    using w by (simp add: AX_IO_Read_def bits assms(2))
  have off: "region_off (mmap c) a = 0" by (simp add: region_off_def assms(1) bits)
  show ?thesis
    by (simp add: executeLoad_def assms(1) io off rd c1 set_ireg_def emit_def)
qed

theorem io_info_register_witness:
  "\<exists>c'. executeLoad (demo_core\<lparr>mem := \<lambda>r. \<lparr>bsize = 0x10000, bdata = \<lambda>i. 0\<rparr>\<rparr>) (IREG 9) 0x02000000 8 = Ok c' \<and>
     ireg c' ! 9 = 0x80000100"
proof -
  have "region_of 0x02000000 = IO" by (simp add: region_of_def addr_bit_def)
  from io_info_register [OF this, of "demo_core\<lparr>mem := \<lambda>r. \<lparr>bsize = 0x10000, bdata = \<lambda>i. 0\<rparr>\<rparr>" 9]
  show ?thesis by auto
qed

end
