(* ===== verification/AX_Alu.thy ===== *)
theory AX_Alu
  imports AX_Lsu
begin

text \<open>
  The integer unit and the comparisons of \<open>decode_execute.c\<close>: the ALU cases of
  \<open>AX_execute_unit0\<close>, of its continuation \<open>AX_execute_unit0A\<close> and of \<open>AX_execute_unit1\<close>, and the
  integer comparisons of \<open>AX_execute_unit0\<close>. A shift by 64 or more, a division by zero and a read
  of an uninitialised local are faults.
\<close>

section \<open>Tables and operands\<close>

definition sizemask :: "nat \<Rightarrow> u64" where
  "sizemask sz = [0x00000000000000FF, 0x000000000000FFFF, 0x00000000FFFFFFFF, 0xFFFFFFFFFFFFFFFF] ! sz"

definition signmask :: "nat \<Rightarrow> u64" where
  "signmask sz = [0xFFFFFFFFFFFFFF00, 0xFFFFFFFFFFFF0000, 0xFFFFFFFF00000000, 0x0000000000000000] ! sz"

definition value_immediate9 :: "u32 \<Rightarrow> u64 \<Rightarrow> u64" where
  "value_immediate9 opcode reg =
     (if opcode AND 0x400 \<noteq> 0 then ucast (drop_bit 11 opcode AND 0x1FF) else reg)"

definition imm18 :: "u32 \<Rightarrow> u64" where
  "imm18 opcode = ucast (drop_bit 8 opcode AND 0x3FFFF)"

text \<open>The operand extension that \<open>SLTS\<close> and \<open>SLTSI\<close> write out for the sizes 0, 1 and 2.\<close>

definition sign_operand :: "nat \<Rightarrow> u64 \<Rightarrow> u64" where
  "sign_operand sz tmp =
     (if sz = 0 then extendSign (ucast tmp) 8
      else if sz = 1 then extendSign (ucast tmp) 16
      else if sz = 2 then extendSign (ucast tmp) 32
      else tmp)"

text \<open>C's shifts of a \<open>uint64_t\<close>: defined for counts below 64.\<close>

definition c_shl :: "u64 \<Rightarrow> u64 \<Rightarrow> u64 res" where
  "c_shl x n = guard_res (n < 64) Shift_range (push_bit (unat n) x)"

definition c_shr :: "u64 \<Rightarrow> u64 \<Rightarrow> u64 res" where
  "c_shr x n = guard_res (n < 64) Shift_range (drop_bit (unat n) x)"

text \<open>The three flags a comparison leaves.\<close>

definition flag_bits :: "bool \<Rightarrow> bool \<Rightarrow> bool \<Rightarrow> u16" where
  "flag_bits z s u = of_bool z OR push_bit 1 (of_bool s) OR push_bit 2 (of_bool u)"

definition put_flags :: "bool \<Rightarrow> bool \<Rightarrow> bool \<Rightarrow> Core \<Rightarrow> Core" where
  "put_flags z s u core = set_flags (flags core AND ZSUClearMask OR flag_bits z s u) core"

section \<open>Instructions\<close>

datatype alu_op =
    AX_EXE_ALU_NOP | AX_EXE_ALU_SEXT | AX_EXE_ALU_BOOL | AX_EXE_ALU_SMOVE
  | AX_EXE_ALU_SLTS | AX_EXE_ALU_SLTU | AX_EXE_ALU_SLTSI | AX_EXE_ALU_SLTUI
  | AX_EXE_ALU_MOVEN | AX_EXE_ALU_MOVEU | AX_EXE_UNKNOWN1 | AX_EXE_UNKNOWN2
  | AX_EXE_ALU_MOVEINS | AX_EXE_ALU_MOVECYCLE | AX_EXE_ALU_MOVERI | AX_EXE_ALU_MOVEIR
  | AX_EXE_ALU_ADD | AX_EXE_ALU_SUB | AX_EXE_ALU_XOR | AX_EXE_ALU_OR
  | AX_EXE_ALU_AND | AX_EXE_ALU_LSL | AX_EXE_ALU_ASR | AX_EXE_ALU_LSR
  | AX_EXE_ALU_DIVS | AX_EXE_ALU_DIVU | AX_EXE_ALU_REMS | AX_EXE_ALU_REMU
  | AX_EXE_ALU_MUL | AX_EXE_UNKNOWN7 | AX_EXE_UNKNOWN8 | AX_EXE_UNKNOWN9

text \<open>The enumeration from 0 on.\<close>

definition alu_ops :: "alu_op list" where
  "alu_ops =
    [AX_EXE_ALU_NOP, AX_EXE_ALU_SEXT, AX_EXE_ALU_BOOL, AX_EXE_ALU_SMOVE,
     AX_EXE_ALU_SLTS, AX_EXE_ALU_SLTU, AX_EXE_ALU_SLTSI, AX_EXE_ALU_SLTUI,
     AX_EXE_ALU_MOVEN, AX_EXE_ALU_MOVEU, AX_EXE_UNKNOWN1, AX_EXE_UNKNOWN2,
     AX_EXE_ALU_MOVEINS, AX_EXE_ALU_MOVECYCLE, AX_EXE_ALU_MOVERI, AX_EXE_ALU_MOVEIR,
     AX_EXE_ALU_ADD, AX_EXE_ALU_SUB, AX_EXE_ALU_XOR, AX_EXE_ALU_OR,
     AX_EXE_ALU_AND, AX_EXE_ALU_LSL, AX_EXE_ALU_ASR, AX_EXE_ALU_LSR,
     AX_EXE_ALU_DIVS, AX_EXE_ALU_DIVU, AX_EXE_ALU_REMS, AX_EXE_ALU_REMU,
     AX_EXE_ALU_MUL, AX_EXE_UNKNOWN7, AX_EXE_UNKNOWN8, AX_EXE_UNKNOWN9]"

text \<open>The ALU cases of \<open>AX_execute_unit0\<close>; it has no case for the other operations.\<close>

fun unit0_alu :: "alu_op \<Rightarrow> nat \<Rightarrow> nat \<Rightarrow> nat \<Rightarrow> nat \<Rightarrow> u32 \<Rightarrow> Core \<Rightarrow> Core res" where
  "unit0_alu AX_EXE_ALU_NOP rega regb regc sz opcode core =
     Ok core"
| "unit0_alu AX_EXE_ALU_SEXT rega regb regc sz opcode core =
     (let core1 =
        (if sz = 0 \<and> ireg core ! regb AND 0x80 \<noteq> 0
         then set_ireg regb (ireg core ! regb OR signmask 0) core
         else if sz = 1 \<and> ireg core ! regb AND 0x8000 \<noteq> 0
         then set_ireg regb (ireg core ! regb OR signmask 1) core
         else if sz = 2 \<and> ireg core ! regb AND 0x80000000 \<noteq> 0
         then set_ireg regb (ireg core ! regb OR signmask 2) core
         else core)
      in Ok (set_ireg rega (ireg core1 ! regb) core1))"
| "unit0_alu AX_EXE_ALU_BOOL rega regb regc sz opcode core =
     Ok (set_ireg rega (of_bool (ireg core ! regb AND sizemask sz \<noteq> 0)) core)"
| "unit0_alu AX_EXE_ALU_SMOVE rega regb regc sz opcode core =
     Ok (set_ireg rega (ireg core ! rega OR push_bit (sz * 16) (imm16 opcode)) core)"
| "unit0_alu AX_EXE_ALU_SLTS rega regb regc sz opcode core =
     (let tmp = sign_operand sz (ireg core ! rega AND sizemask sz);
          tmp2 = sign_operand sz (ireg core ! regb AND sizemask sz)
      in Ok (set_flags (flags core AND ZSUClearMask OR push_bit 2 (of_bool (tmp < tmp2))) core))"
| "unit0_alu AX_EXE_ALU_SLTU rega regb regc sz opcode core =
     (let tmp = ireg core ! rega AND sizemask sz;
          tmp2 = ireg core ! regb AND sizemask sz
      in Ok (set_flags (flags core AND ZSUClearMask OR push_bit 2 (of_bool (tmp < tmp2))) core))"
| "unit0_alu AX_EXE_ALU_SLTSI rega regb regc sz opcode core =
     (let tmp = sign_operand sz (ireg core ! rega AND sizemask sz);
          tmp2 = extendSign (imm10 opcode) 10
      in Ok (set_flags (flags core AND ZSUClearMask OR push_bit 2 (of_bool (tmp < tmp2))) core))"
| "unit0_alu AX_EXE_ALU_SLTUI rega regb regc sz opcode core =
     (let tmp = ireg core ! rega AND sizemask sz;
          tmp2 = extendSign (imm10 opcode) 10
      in Ok (set_flags (flags core AND ZSUClearMask OR push_bit 2 (of_bool (tmp < tmp2))) core))"
| "unit0_alu AX_EXE_ALU_MOVEN rega regb regc sz opcode core =
     Ok (set_ireg rega (imm18 opcode OR 0xFFFFFFFFFFFC0000) core)"
| "unit0_alu AX_EXE_ALU_MOVEU rega regb regc sz opcode core =
     Ok (set_ireg rega (imm18 opcode) core)"
| "unit0_alu AX_EXE_ALU_ADD rega regb regc sz opcode core =
     Ok (set_ireg rega
       ((ireg core ! regb + value_immediate9 opcode (ireg core ! regc)) AND sizemask sz) core)"
| "unit0_alu AX_EXE_ALU_SUB rega regb regc sz opcode core =
     Ok (set_ireg rega
       ((ireg core ! regb - value_immediate9 opcode (ireg core ! regc)) AND sizemask sz) core)"
| "unit0_alu AX_EXE_ALU_XOR rega regb regc sz opcode core =
     Ok (set_ireg rega
       ((ireg core ! regb XOR value_immediate9 opcode (ireg core ! regc)) AND sizemask sz) core)"
| "unit0_alu AX_EXE_ALU_OR rega regb regc sz opcode core =
     Ok (set_ireg rega
       ((ireg core ! regb OR value_immediate9 opcode (ireg core ! regc)) AND sizemask sz) core)"
| "unit0_alu AX_EXE_ALU_AND rega regb regc sz opcode core =
     Ok (set_ireg rega
       ((ireg core ! regb AND value_immediate9 opcode (ireg core ! regc)) AND sizemask sz) core)"
| "unit0_alu AX_EXE_ALU_LSL rega regb regc sz opcode core =
     res_bind (c_shl (ireg core ! regb) (value_immediate9 opcode (ireg core ! regc)))
       (\<lambda>x. Ok (set_ireg rega (x AND sizemask sz) core))"
| "unit0_alu AX_EXE_ALU_ASR rega regb regc sz opcode core =
     res_bind (c_shr (ireg core ! regb) (value_immediate9 opcode (ireg core ! regc)))
       (\<lambda>x. Ok (set_ireg rega (x AND sizemask sz) core))"
| "unit0_alu AX_EXE_ALU_LSR rega regb regc sz opcode core =
     res_bind (c_shr (ireg core ! regb) (value_immediate9 opcode (ireg core ! regc)))
       (\<lambda>x. Ok (set_ireg rega (x AND sizemask sz) core))"
| "unit0_alu AX_EXE_ALU_MUL rega regb regc sz opcode core =
     Ok (set_ireg rega (ireg core ! regb * ireg core ! regc) core)"
| "unit0_alu AX_EXE_ALU_DIVS rega regb regc sz opcode core =
     guard_res (ireg core ! regc \<noteq> 0) Div_zero
       (set_ireg rega (ireg core ! regb div ireg core ! regc) core)"
| "unit0_alu AX_EXE_ALU_DIVU rega regb regc sz opcode core =
     guard_res (ireg core ! regc \<noteq> 0) Div_zero
       (set_ireg rega (ireg core ! regb div ireg core ! regc) core)"
| "unit0_alu AX_EXE_ALU_REMS rega regb regc sz opcode core =
     guard_res (ireg core ! regc \<noteq> 0) Div_zero
       (set_ireg rega (ireg core ! regb mod ireg core ! regc) core)"
| "unit0_alu AX_EXE_ALU_REMU rega regb regc sz opcode core =
     guard_res (ireg core ! regc \<noteq> 0) Div_zero
       (set_ireg rega (ireg core ! regb mod ireg core ! regc) core)"
| "unit0_alu _ rega regb regc sz opcode core = Ok core"

text \<open>The cases the \<open>switch\<close> of \<open>AX_execute_unit0\<close> has; the others go on to \<open>unit0A\<close>.\<close>

definition alu_in_unit0 :: "alu_op \<Rightarrow> bool" where
  "alu_in_unit0 op \<longleftrightarrow>
     op \<notin> {AX_EXE_ALU_MOVEINS, AX_EXE_ALU_MOVECYCLE, AX_EXE_ALU_MOVERI, AX_EXE_ALU_MOVEIR,
           AX_EXE_UNKNOWN1, AX_EXE_UNKNOWN2, AX_EXE_UNKNOWN7, AX_EXE_UNKNOWN8, AX_EXE_UNKNOWN9}"

text \<open>The ALU cases of \<open>AX_execute_unit0A\<close>: moves from and to the special registers.\<close>

fun unit0A_move :: "alu_op \<Rightarrow> nat \<Rightarrow> nat \<Rightarrow> Core \<Rightarrow> Core res" where
  "unit0A_move AX_EXE_ALU_MOVEINS rega regb core = Ok (set_ireg rega (instruction core) core)"
| "unit0A_move AX_EXE_ALU_MOVECYCLE rega regb core = Ok (set_ireg rega (cycle core) core)"
| "unit0A_move AX_EXE_ALU_MOVERI rega regb core =
     (let tmp = regb mod 4
      in if tmp = 0 then Ok (set_ireg rega (ucast (lr core)) core)
         else if tmp = 1 then Ok (set_ireg rega (ucast (br core)) core)
         else if tmp = 2 then Ok (set_ireg rega (ucast (flags core)) core)
         else Ok core)"
| "unit0A_move AX_EXE_ALU_MOVEIR rega regb core =
     (let tmp = regb mod 4
      in if tmp = 0 then Ok (core\<lparr>lr := ucast (ireg core ! rega)\<rparr>)
         else if tmp = 1 then Ok (core\<lparr>br := ucast (ireg core ! rega)\<rparr>)
         else if tmp = 2 then Ok (core\<lparr>flags := ucast (ireg core ! rega)\<rparr>)
         else Ok core)"
| "unit0A_move _ rega regb core = Ok core"

text \<open>The ALU cases of \<open>AX_execute_unit1\<close>, the second slot of a bundle.\<close>

fun unit1_alu :: "alu_op \<Rightarrow> nat \<Rightarrow> nat \<Rightarrow> nat \<Rightarrow> nat \<Rightarrow> u32 \<Rightarrow> Core \<Rightarrow> Core res" where
  "unit1_alu AX_EXE_ALU_NOP rega regb regc sz opcode core =
     Ok core"
| "unit1_alu AX_EXE_ALU_SEXT rega regb regc sz opcode core =
     (let core1 =
        (if sz = 0 \<and> ireg core ! regb AND 0x80 \<noteq> 0
         then set_ireg regb (ireg core ! regb OR signmask 0) core
         else if sz = 1 \<and> ireg core ! regb AND 0x8000 \<noteq> 0
         then set_ireg regb (ireg core ! regb OR signmask 1) core
         else if sz = 2 \<and> ireg core ! regb AND 0x80000000 \<noteq> 0
         then set_ireg regb (ireg core ! regb OR signmask 2) core
         else core)
      in Ok (set_ireg rega (ireg core1 ! regb) core1))"
| "unit1_alu AX_EXE_ALU_BOOL rega regb regc sz opcode core =
     Ok (set_ireg rega (of_bool (ireg core ! regb AND sizemask sz \<noteq> 0)) core)"
| "unit1_alu AX_EXE_ALU_SMOVE rega regb regc sz opcode core =
     Ok (set_ireg rega (ireg core ! rega OR push_bit (sz * 16) (imm16 opcode)) core)"
| "unit1_alu AX_EXE_ALU_SLTS rega regb regc sz opcode core =
     (let tmp = sign_operand sz (ireg core ! rega AND sizemask sz);
          tmp2 = sign_operand sz (ireg core ! regb AND sizemask sz)
      in Ok (set_flags (flags core AND ZSUClearMask OR push_bit 2 (of_bool (tmp < tmp2))) core))"
| "unit1_alu AX_EXE_ALU_SLTU rega regb regc sz opcode core =
     (let tmp = ireg core ! rega AND sizemask sz;
          tmp2 = ireg core ! regb AND sizemask sz
      in Ok (set_flags (flags core AND ZSUClearMask OR push_bit 2 (of_bool (tmp < tmp2))) core))"
| "unit1_alu AX_EXE_ALU_SLTSI rega regb regc sz opcode core =
     (let tmp = sign_operand sz (ireg core ! rega AND sizemask sz);
          tmp2 = extendSign (imm10 opcode) 10
      in Ok (set_flags (flags core AND ZSUClearMask OR push_bit 2 (of_bool (tmp < tmp2))) core))"
| "unit1_alu AX_EXE_ALU_SLTUI rega regb regc sz opcode core =
     (let tmp = ireg core ! rega AND sizemask sz;
          tmp2 = extendSign (imm10 opcode) 10
      in Ok (set_flags (flags core AND ZSUClearMask OR push_bit 2 (of_bool (tmp < tmp2))) core))"
| "unit1_alu AX_EXE_ALU_MOVEN rega regb regc sz opcode core =
     Ok (set_ireg rega (imm18 opcode OR 0xFFFFFFFFFFFC0000) core)"
| "unit1_alu AX_EXE_ALU_MOVEU rega regb regc sz opcode core =
     Ok (set_ireg rega (imm18 opcode) core)"
| "unit1_alu AX_EXE_ALU_ADD rega regb regc sz opcode core =
     Ok (set_ireg rega
       ((ireg core ! regb + value_immediate9 opcode (ireg core ! regc)) AND sizemask sz) core)"
| "unit1_alu AX_EXE_ALU_SUB rega regb regc sz opcode core =
     Ok (set_ireg rega
       ((ireg core ! regb - value_immediate9 opcode (ireg core ! regc)) AND sizemask sz) core)"
| "unit1_alu AX_EXE_ALU_XOR rega regb regc sz opcode core =
     Ok (set_ireg rega
       ((ireg core ! regb XOR value_immediate9 opcode (ireg core ! regc)) AND sizemask sz) core)"
| "unit1_alu AX_EXE_ALU_OR rega regb regc sz opcode core =
     Ok (set_ireg rega
       ((ireg core ! regb OR value_immediate9 opcode (ireg core ! regc)) AND sizemask sz) core)"
| "unit1_alu AX_EXE_ALU_AND rega regb regc sz opcode core =
     Ok (set_ireg rega
       ((ireg core ! regb AND value_immediate9 opcode (ireg core ! regc)) AND sizemask sz) core)"
| "unit1_alu AX_EXE_ALU_LSL rega regb regc sz opcode core =
     res_bind (c_shl (ireg core ! regb) (value_immediate9 opcode (ireg core ! regc)))
       (\<lambda>x. Ok (set_ireg rega (x AND sizemask sz) core))"
| "unit1_alu AX_EXE_ALU_ASR rega regb regc sz opcode core =
     res_bind (c_shr (ireg core ! regb) (value_immediate9 opcode (ireg core ! regc)))
       (\<lambda>x. Ok (set_ireg rega (x AND sizemask sz) core))"
| "unit1_alu AX_EXE_ALU_LSR rega regb regc sz opcode core =
     res_bind (c_shr (ireg core ! regb) (value_immediate9 opcode (ireg core ! regc)))
       (\<lambda>x. Ok (set_ireg rega (x AND sizemask sz) core))"
| "unit1_alu _ rega regb regc sz opcode core = Ok core"

section \<open>Integer comparisons\<close>

datatype cmp_op =
    AX_EXE_CMP_CMP | AX_EXE_CMP_CMPFR | AX_EXE_CMP_CMPN | AX_EXE_CMP_CMPU
  | AX_EXE_CMP_FCMP | AX_EXE_CMP_DCMP | AX_EXE_CMP_FCMPI | AX_EXE_CMP_DCMPI

text \<open>The enumeration from \<open>0x40\<close> on.\<close>

definition cmp_ops :: "cmp_op list" where
  "cmp_ops =
    [AX_EXE_CMP_CMP, AX_EXE_CMP_CMPFR, AX_EXE_CMP_CMPN, AX_EXE_CMP_CMPU,
     AX_EXE_CMP_FCMP, AX_EXE_CMP_DCMP, AX_EXE_CMP_FCMPI, AX_EXE_CMP_DCMPI]"

definition cmp_in_unit0 :: "cmp_op \<Rightarrow> bool" where
  "cmp_in_unit0 op \<longleftrightarrow> op \<in> {AX_EXE_CMP_CMP, AX_EXE_CMP_CMPFR, AX_EXE_CMP_CMPN, AX_EXE_CMP_CMPU}"

text \<open>The flags of \<open>tmp\<close> compared with \<open>tmp2\<close>: not equal, less as signed, less as unsigned.\<close>

definition compare_flags :: "u64 \<Rightarrow> u64 \<Rightarrow> Core \<Rightarrow> Core" where
  "compare_flags tmp tmp2 core = put_flags (tmp \<noteq> tmp2) (sint tmp < sint tmp2) (tmp < tmp2) core"

text \<open>
  The comparison cases of \<open>AX_execute_unit0\<close>. \<open>CMP\<close> reads \<open>rega\<close> for both operands, and \<open>CMPFR\<close>
  reads the local \<open>tmp\<close> that no statement has set.
\<close>

fun unit0_cmp :: "cmp_op \<Rightarrow> nat \<Rightarrow> nat \<Rightarrow> nat \<Rightarrow> u32 \<Rightarrow> Core \<Rightarrow> Core res" where
  "unit0_cmp AX_EXE_CMP_CMP rega regb sz opcode core =
     Ok (compare_flags (ireg core ! rega AND sizemask sz) (ireg core ! rega AND sizemask sz) core)"
| "unit0_cmp AX_EXE_CMP_CMPN rega regb sz opcode core =
     Ok (compare_flags (ireg core ! rega AND sizemask sz) (imm18 opcode OR 0xFFFFFFFFFFFC0000) core)"
| "unit0_cmp AX_EXE_CMP_CMPU rega regb sz opcode core =
     Ok (compare_flags (ireg core ! rega AND sizemask sz) (imm18 opcode) core)"
| "unit0_cmp AX_EXE_CMP_CMPFR rega regb sz opcode core = Fault Uninit"
| "unit0_cmp _ rega regb sz opcode core = Ok core"

section \<open>What is kept\<close>

lemma core_keeps_put_flags [simp]: "core_keeps c (put_flags z s u d) = core_keeps c d"
  by (simp add: put_flags_def)

lemma unit0_alu_keeps: "unit0_alu op rega regb regc sz opc c = Ok c' \<Longrightarrow> core_keeps c c'"
  by (cases op) (auto simp: Let_def res_bind_eq_Ok)

lemma unit1_alu_keeps: "unit1_alu op rega regb regc sz opc c = Ok c' \<Longrightarrow> core_keeps c c'"
  by (cases op) (auto simp: Let_def res_bind_eq_Ok)

lemma unit0A_move_keeps: "unit0A_move op rega regb c = Ok c' \<Longrightarrow> core_keeps c c'"
  by (cases op) (auto simp: Let_def split: if_splits)

lemma unit0_cmp_keeps: "unit0_cmp op rega regb sz opc c = Ok c' \<Longrightarrow> core_keeps c c'"
  by (cases op) (auto simp: compare_flags_def)

section \<open>Sizes and signs\<close>

lemma lt4: "sz < 4 \<longleftrightarrow> sz = 0 \<or> sz = 1 \<or> sz = 2 \<or> sz = (3::nat)"
  by auto

lemma sizemask_mask: "sz < 4 \<Longrightarrow> sizemask sz = mask (8 * 2 ^ sz)"
  by (auto simp: sizemask_def mask_eq_exp_minus_1 lt4)

lemma signmask_mask: "sz < 4 \<Longrightarrow> signmask sz = NOT (mask (8 * 2 ^ sz))"
  by (auto simp: signmask_def mask_eq_exp_minus_1 lt4)

lemma and_sizemask: "sz < 4 \<Longrightarrow> w AND sizemask sz = take_bit (8 * 2 ^ sz) w"
  by (simp add: sizemask_mask take_bit_eq_mask)

lemma uint_and_sizemask: "sz < 4 \<Longrightarrow> uint (w AND sizemask sz) = uint w mod 2 ^ (8 * 2 ^ sz)"
proof -
  assume "sz < 4"
  then have "uint (w AND sizemask sz) = take_bit (8 * 2 ^ sz) (uint w)"
    by (simp only: and_sizemask unsigned_take_bit_eq)
  then show ?thesis by (simp add: take_bit_eq_mod)
qed

lemma mod_u64: "sz < 4 \<Longrightarrow> x mod 18446744073709551616 mod 2 ^ (8 * 2 ^ sz) = x mod 2 ^ (8 * 2 ^ sz)"
  for x :: int
  by (rule mod_mod_cancel) (auto simp: lt4)

lemma uint_size_less: "sz < 4 \<Longrightarrow> uint (w AND sizemask sz) < 2 ^ (8 * 2 ^ sz)"
  by (simp add: uint_and_sizemask)

lemma unat_ucast_64: "unat (ucast (v :: u32) :: u64) = unat v"
proof -
  have "take_bit 64 (unat v) = unat v"
    by (rule take_bit_nat_eq_self) (use unsigned_less [of v, where 'a = nat] in simp)
  then show ?thesis by (simp only: unsigned_ucast_eq) simp
qed

lemma mask56: "(0xFFFFFFFFFFFFFF :: u64) = mask 56"
  by (simp add: mask_eq_exp_minus_1)

lemma push_ones: "8 \<le> n \<Longrightarrow> push_bit n (0xFFFFFFFFFFFFFF :: u64) = - (2 ^ n)"
proof -
  assume n: "8 \<le> n"
  have "push_bit n (mask 56 :: u64) = NOT (mask n)"
    by (rule bit_word_eqI) (use n in \<open>auto simp: bit_simps\<close>)
  then show ?thesis by (simp only: mask56 minus_exp_eq_not_mask)
qed

lemma u64_less_and_exp: "unat (x :: u64) < 2 ^ n \<Longrightarrow> - (2 ^ n) AND x = 0"
proof -
  assume x: "unat x < 2 ^ n"
  have "unat (take_bit n x) = unat x"
    using x by (simp only: unsigned_take_bit_eq take_bit_nat_eq_self)
  then have "take_bit n x = x" by (simp only: word_unat_eq_iff)
  then have "NOT (mask n) AND x = NOT (mask n) AND (x AND mask n)" by (simp add: take_bit_eq_mask)
  also have "\<dots> = 0" by (metis and.commute and.left_commute bit.conj_cancel_left and_zero_eq)
  finally show ?thesis by (simp only: minus_exp_eq_not_mask)
qed

lemma sint_small: "- (2 ^ 63) \<le> i \<Longrightarrow> i < 2 ^ 63 \<Longrightarrow> sint (word_of_int i :: u64) = i"
  by (simp add: signed_of_int signed_take_bit_int_eq_self)

lemma uint_exp32: "k < 32 \<Longrightarrow> uint ((2 :: u32) ^ k) = 2 ^ k"
proof -
  assume "k < 32"
  then have "(2::int) ^ k < 2 ^ LENGTH(32)" by (intro power_strict_increasing) simp_all
  then have "take_bit LENGTH(32) (2 ^ k :: int) = 2 ^ k" by (intro take_bit_int_eq_self) simp_all
  then have "uint (word_of_int (2 ^ k) :: u32) = 2 ^ k" by (simp only: unsigned_of_int) simp
  then show ?thesis by simp
qed

lemma power2_bounds: "(2 :: int) ^ 32 = 0x100000000" "(2 :: int) ^ 63 = 0x8000000000000000"
  by simp_all

lemma sint_extendSign:
  assumes "8 \<le> bits" "bits \<le> 32" "uint v < 2 ^ bits"
  shows "sint (extendSign v bits) = (if 2 ^ (bits - 1) < uint v then uint v - 2 ^ bits else uint v)"
proof -
  have lt: "(push_bit (bits - 1) 1 < v) = (2 ^ (bits - 1) < uint v)"
    using assms(1,2) by (simp add: word_less_def uint_exp32)
  have vb: "uint v < 2 ^ 32" using unsigned_less [of v, where 'a = int] by simp
  have u: "(ucast v :: u64) = word_of_int (uint v)" by simp
  have "int (unat v) < int (2 ^ bits)" using assms(3) by simp
  then have "unat v < 2 ^ bits" by (simp only: of_nat_less_iff)
  then have "unat (ucast v :: u64) < 2 ^ bits" by (simp only: unat_ucast_64)
  then have "push_bit bits (0xFFFFFFFFFFFFFF :: u64) OR ucast v = - (2 ^ bits) + ucast v"
    by (simp only: push_ones [OF assms(1)] disjunctive_add_eq_or [OF u64_less_and_exp])
  also have "\<dots> = word_of_int (uint v - 2 ^ bits)" by simp
  finally have neg: "push_bit bits (0xFFFFFFFFFFFFFF :: u64) OR ucast v = word_of_int (uint v - 2 ^ bits)" .
  have "(2::int) ^ bits \<le> 2 ^ 32" using assms(2) by (intro power_increasing) simp_all
  moreover have "0 \<le> uint v" "(0 :: int) < 2 ^ bits" by simp_all
  ultimately have "- (2 ^ 63) \<le> uint v - 2 ^ bits \<and> uint v - 2 ^ bits < 2 ^ 63 \<and>
      - (2 ^ 63) \<le> uint v \<and> uint v < 2 ^ 63"
    using vb by (simp only: power2_bounds) (intro conjI; linarith)
  then have s: "sint (word_of_int (uint v - 2 ^ bits) :: u64) = uint v - 2 ^ bits"
    "sint (word_of_int (uint v) :: u64) = uint v"
    by (simp_all only: sint_small)
  have "sint (ucast v :: u64) = uint v" using s(2) by (simp only: u)
  then show ?thesis by (simp only: extendSign_def lt neg s split: if_split) blast
qed

section \<open>Flags\<close>

lemma and_bit_iff: "(w AND 2 ^ n \<noteq> 0) = bit w n" for w :: "'a::len word"
  by (simp add: and_exp_eq_0_iff_not_bit)
lemma mask_bits:
  "(f AND Z_MASK \<noteq> 0) = bit f 0" "(f AND S_MASK \<noteq> 0) = bit f 1" "(f AND U_MASK \<noteq> 0) = bit f 2"
  using and_bit_iff [of f 0] and_bit_iff [of f 1] and_bit_iff [of f 2]
  by (simp_all add: flag_masks)
lemma clear_mask: "ZSUClearMask = NOT (mask 3)"
  by (simp add: ZSUClearMask_def flag_masks mask_eq_exp_minus_1)
lemma flags_put [simp]:
  "(flags (put_flags z s u c) AND Z_MASK = 0) = (\<not> z)"
  "(flags (put_flags z s u c) AND S_MASK = 0) = (\<not> s)"
  "(flags (put_flags z s u c) AND U_MASK = 0) = (\<not> u)"
proof -
  let ?f = "flags (put_flags z s u c)"
  have f: "?f = flags c AND NOT (mask 3) OR flag_bits z s u"
    by (simp add: put_flags_def set_flags_def clear_mask)
  have b: "bit (flag_bits z s u) 0 = z" "bit (flag_bits z s u) 1 = s" "bit (flag_bits z s u) 2 = u"
    by (cases z; cases s; cases u; simp add: flag_bits_def)+
  have m: "bit (flags c AND NOT (mask 3)) n = False" if "n < 3" for n
    using that by (auto simp: bit_simps)
  show "(?f AND Z_MASK = 0) = (\<not> z)" "(?f AND S_MASK = 0) = (\<not> s)" "(?f AND U_MASK = 0) = (\<not> u)"
    using mask_bits [of ?f] b m unfolding f by (auto simp: bit_or_iff)
qed
lemma flags_put_other: "flags (put_flags z s u c) AND ZSUClearMask = flags c AND ZSUClearMask"
proof -
  have "flag_bits z s u AND NOT (mask 3) = 0"
    by (cases z; cases s; cases u; simp add: flag_bits_def mask_eq_exp_minus_1)
  then show ?thesis by (simp add: put_flags_def set_flags_def clear_mask bit.conj_disj_distrib2 bit.conj_disj_distrib and.assoc)
qed

lemma sint_bounds: "- (2 ^ 63) \<le> sint w" "sint w < 2 ^ 63" for w :: u64
  using sint_less [of w] sint_ge [of w] by simp_all

lemma uint_by_sint: "uint w = (if sint w < 0 then sint w + 2 ^ 64 else sint w)" for w :: u64
proof -
  have "uint w = sint w mod 2 ^ 64" using uint_sint [of w] by (simp add: take_bit_eq_mod)
  moreover have "sint w mod 2 ^ 64 = sint w + 2 ^ 64" if "sint w < 0"
  proof -
    have "(sint w + 2 ^ 64) mod 2 ^ 64 = sint w + 2 ^ 64"
      by (rule mod_pos_pos_trivial) (use sint_bounds [of w] that in simp_all)
    then show ?thesis by simp
  qed
  moreover have "sint w mod 2 ^ 64 = sint w" if "\<not> sint w < 0"
    by (rule mod_pos_pos_trivial) (use sint_bounds [of w] that in simp_all)
  ultimately show ?thesis by simp
qed

text \<open>The unsigned order in terms of the signed values.\<close>

lemma u64_less_sint:
  "a < b \<longleftrightarrow> (if (sint a < 0) = (sint b < 0) then sint a < sint b else sint b < sint a)" for a b :: u64
proof -
  show ?thesis
    using sint_bounds [of a] sint_bounds [of b]
    unfolding word_less_def uint_by_sint [of a] uint_by_sint [of b] by auto
qed

section \<open>Properties\<close>

text \<open>
  The eight operations with a size field write their destination and nothing else, and what
  they write has no bit above the operand size.
\<close>
theorem alu_result_truncated:
  assumes "op \<in> {AX_EXE_ALU_ADD, AX_EXE_ALU_SUB, AX_EXE_ALU_XOR, AX_EXE_ALU_OR, AX_EXE_ALU_AND,
      AX_EXE_ALU_LSL, AX_EXE_ALU_ASR, AX_EXE_ALU_LSR}"
    and "unit0_alu op rega regb regc sz opc c = Ok c'" and "sz < 4"
  shows "\<exists>v. c' = set_ireg rega v c \<and> uint v < 2 ^ (8 * 2 ^ sz)"
  using assms by (auto simp: res_bind_eq_Ok) (blast intro: uint_size_less)+

theorem alu_result_truncated_witness:
  "\<exists>v. set_ireg 3 0xFF demo_core = set_ireg 3 v demo_core \<and> uint v < 2 ^ (8 * 2 ^ 0)"
proof -
  have "unit0_alu AX_EXE_ALU_SUB 3 0 0 0 0xC00 demo_core = Ok (set_ireg 3 0xFF demo_core)"
    by (simp add: value_immediate9_def sizemask_def)
  from alu_result_truncated [OF _ this] show ?thesis by simp
qed

text \<open>
  Addition and subtraction are those of the operand size, with wrap-around; multiplication is
  that of 64 bits whatever the size.
\<close>
theorem alu_arithmetic:
  assumes "sz < 4" and "rega < length (ireg c)" and "x = value_immediate9 opc (ireg c ! regc)"
  shows "(\<exists>d. unit0_alu AX_EXE_ALU_ADD rega regb regc sz opc c = Ok d \<and>
      uint (ireg d ! rega) = (uint (ireg c ! regb) + uint x) mod 2 ^ (8 * 2 ^ sz)) \<and>
    (\<exists>d. unit0_alu AX_EXE_ALU_SUB rega regb regc sz opc c = Ok d \<and>
      uint (ireg d ! rega) = (uint (ireg c ! regb) - uint x) mod 2 ^ (8 * 2 ^ sz)) \<and>
    (\<exists>d. unit0_alu AX_EXE_ALU_MUL rega regb regc sz opc c = Ok d \<and>
      uint (ireg d ! rega) = (uint (ireg c ! regb) * uint (ireg c ! regc)) mod 2 ^ 64)"
  using assms by (simp add: set_ireg_def uint_and_sizemask uint_word_ariths mod_u64)

theorem alu_arithmetic_witness:
  "\<exists>d. unit0_alu AX_EXE_ALU_SUB 3 0 0 1 0xC00 demo_core = Ok d \<and> uint (ireg d ! 3) = 0xFFFF"
  using alu_arithmetic [of 1 3 demo_core _ "0xC00" 0 0] by (simp add: value_immediate9_def)

text \<open>
  The two slots agree on every operation that the second has: all ALU operations but
  multiplication, division and the moves of the special registers.
\<close>
theorem slots_agree:
  "unit1_alu op rega regb regc sz opc c =
     (if op \<in> {AX_EXE_ALU_MUL, AX_EXE_ALU_DIVS, AX_EXE_ALU_DIVU, AX_EXE_ALU_REMS, AX_EXE_ALU_REMU}
      then Ok c else unit0_alu op rega regb regc sz opc c)"
  by (cases op) simp_all

lemma uint_push_size:
  "sz < 4 \<Longrightarrow> uint (push_bit n w AND sizemask sz) = uint w * 2 ^ n mod 2 ^ (8 * 2 ^ sz)" for w :: u64
proof -
  assume sz: "sz < 4"
  have "uint (push_bit n w) = uint w * 2 ^ n mod 2 ^ 64"
    by (simp only: unsigned_push_bit_eq) (simp add: take_bit_eq_mod push_bit_eq_mult)
  then show ?thesis using sz by (simp add: uint_and_sizemask mod_u64)
qed

lemma uint_drop_size:
  "sz < 4 \<Longrightarrow> uint (drop_bit n w AND sizemask sz) = uint w div 2 ^ n mod 2 ^ (8 * 2 ^ sz)" for w :: u64
proof -
  assume sz: "sz < 4"
  have "uint (drop_bit n w) = uint w div 2 ^ n"
    using take_bit_int_eq_self [of "uint w" 64] unsigned_less [of w, where 'a = int]
    by (simp only: unsigned_drop_bit_eq) (simp add: drop_bit_eq_div)
  then show ?thesis using sz by (simp add: uint_and_sizemask)
qed

text \<open>
  Shifts: a count of 64 or more is undefined; below it \<open>LSL\<close> multiplies and \<open>LSR\<close> divides by
  a power of two, cut to the operand size; and \<open>ASR\<close>, the arithmetic shift, is the logical one.
\<close>
theorem alu_shifts:
  assumes "sz < 4" and "rega < length (ireg c)" and n_def: "n = unat (value_immediate9 opc (ireg c ! regc))"
  shows "(if n < 64
      then (\<exists>d. unit0_alu AX_EXE_ALU_LSL rega regb regc sz opc c = Ok d \<and>
          uint (ireg d ! rega) = uint (ireg c ! regb) * 2 ^ n mod 2 ^ (8 * 2 ^ sz)) \<and>
        (\<exists>d. unit0_alu AX_EXE_ALU_LSR rega regb regc sz opc c = Ok d \<and>
          uint (ireg d ! rega) = uint (ireg c ! regb) div 2 ^ n mod 2 ^ (8 * 2 ^ sz))
      else unit0_alu AX_EXE_ALU_LSL rega regb regc sz opc c = Fault Shift_range \<and>
        unit0_alu AX_EXE_ALU_LSR rega regb regc sz opc c = Fault Shift_range) \<and>
    unit0_alu AX_EXE_ALU_ASR rega regb regc sz opc c = unit0_alu AX_EXE_ALU_LSR rega regb regc sz opc c"
proof -
  have "value_immediate9 opc (ireg c ! regc) < 64 \<longleftrightarrow> n < 64"
    by (simp add: word_less_nat_alt n_def)
  then show ?thesis
    using assms(1,2)
    by (simp add: n_def [symmetric] c_shl_def c_shr_def set_ireg_def uint_push_size uint_drop_size)
qed

theorem alu_shifts_witness:
  "\<exists>d. unit0_alu AX_EXE_ALU_ASR 3 2 0 0 0x2400 (set_ireg 2 0x80 demo_core) = Ok d \<and>
     uint (ireg d ! 3) = 0x08"
  using alu_shifts [of 0 3 "set_ireg 2 0x80 demo_core" _ "0x2400" 0 2]
  by (simp add: value_immediate9_def set_ireg_def)

text \<open>
  Division: the signed forms are the unsigned ones, all four are undefined exactly for a zero
  divisor, and otherwise quotient and remainder satisfy the division identity.
\<close>
theorem alu_division:
  assumes "rega < length (ireg c)"
  shows "unit0_alu AX_EXE_ALU_DIVS rega regb regc sz opc c = unit0_alu AX_EXE_ALU_DIVU rega regb regc sz opc c \<and>
    unit0_alu AX_EXE_ALU_REMS rega regb regc sz opc c = unit0_alu AX_EXE_ALU_REMU rega regb regc sz opc c \<and>
    (if ireg c ! regc = 0
     then unit0_alu AX_EXE_ALU_DIVU rega regb regc sz opc c = Fault Div_zero \<and>
       unit0_alu AX_EXE_ALU_REMU rega regb regc sz opc c = Fault Div_zero
     else \<exists>q r. unit0_alu AX_EXE_ALU_DIVU rega regb regc sz opc c = Ok (set_ireg rega q c) \<and>
       unit0_alu AX_EXE_ALU_REMU rega regb regc sz opc c = Ok (set_ireg rega r c) \<and>
       uint (ireg c ! regb) = uint q * uint (ireg c ! regc) + uint r \<and> uint r < uint (ireg c ! regc))"
proof (cases "ireg c ! regc = 0")
  case False
  then have "0 < uint (ireg c ! regc)" by (simp add: word_neq_0_conv [symmetric] unsigned_eq_0_iff order.strict_iff_order)
  with False show ?thesis
    by (intro conjI) (simp_all, rule exI [of _ "ireg c ! regb div ireg c ! regc"], simp,
        rule exI [of _ "ireg c ! regb mod ireg c ! regc"], simp add: uint_div_distrib uint_mod_distrib)
qed simp

theorem alu_division_witness:
  "\<exists>q r. unit0_alu AX_EXE_ALU_DIVS 3 4 2 3 0 (set_ireg 4 17 (set_ireg 2 5 demo_core)) =
       Ok (set_ireg 3 q (set_ireg 4 17 (set_ireg 2 5 demo_core))) \<and> uint (r :: u64) < 5 \<and> 17 = uint q * 5 + uint r"
proof -
  let ?c = "set_ireg 4 17 (set_ireg 2 5 demo_core)"
  have r: "ireg ?c ! 4 = 17" "ireg ?c ! 2 = 5" "3 < length (ireg ?c)" by (simp_all add: set_ireg_def)
  have "ireg ?c ! 2 \<noteq> 0" using r by simp
  with alu_division [OF r(3), of 4 2 3 0] have "\<exists>q s. unit0_alu AX_EXE_ALU_DIVU 3 4 2 3 0 ?c = Ok (set_ireg 3 q ?c) \<and>
      uint (ireg ?c ! 4) = uint q * uint (ireg ?c ! 2) + uint s \<and> uint (s :: u64) < uint (ireg ?c ! 2)"
    by (simp only: if_False) blast
  then show ?thesis unfolding r by auto
qed

text \<open>
  \<open>extendSign\<close>, for the widths the VM uses, is the sign extension of its argument except at
  exactly one value, the most negative one, which it leaves positive.
\<close>
theorem extendSign_correct:
  assumes "8 \<le> bits" and "bits \<le> 32" and "uint v < 2 ^ bits"
  shows "sint (extendSign v bits) = signed_take_bit (bits - 1) (uint v) \<longleftrightarrow> uint v \<noteq> 2 ^ (bits - 1)"
proof -
  obtain k where k: "bits = Suc k" using assms(1) by (cases bits) auto
  have "signed_take_bit k (uint v) = (if 2 ^ k \<le> uint v then uint v - 2 ^ bits else uint v)"
  proof (cases "2 ^ k \<le> uint v")
    case True
    have "take_bit (Suc k) (uint v - 2 ^ Suc k) = take_bit (Suc k) (uint v)"
      by (simp add: take_bit_eq_mod)
    then have "signed_take_bit k (uint v) = signed_take_bit k (uint v - 2 ^ Suc k)"
      by (simp only: signed_take_bit_eq_iff_take_bit_eq)
    also have "\<dots> = uint v - 2 ^ Suc k"
      using True assms(3) k by (intro signed_take_bit_int_eq_self) simp_all
    finally show ?thesis using True k by simp
  next
    case False
    then have "signed_take_bit k (uint v) = uint v"
      by (intro signed_take_bit_int_eq_self) (simp_all add: order_trans [of _ 0])
    with False show ?thesis by simp
  qed
  then show ?thesis using sint_extendSign [OF assms] k by auto
qed

theorem extendSign_correct_witness:
  "sint (extendSign 0x1FF 10) = 0x1FF \<and> sint (extendSign 0x200 10) \<noteq> - 0x200"
  using extendSign_correct [of 10 "0x1FF"] extendSign_correct [of 10 "0x200"] by simp

lemma signed_take_bit_low:
  "take_bit (Suc n) w = w \<Longrightarrow> signed_take_bit n w = (if bit w n then w OR NOT (mask (Suc n)) else w)"
  for w :: u64
proof (rule bit_word_eqI)
  fix k assume w: "take_bit (Suc n) w = w" and k: "k < LENGTH(64)"
  have "bit w k \<Longrightarrow> k < Suc n" using w by (metis bit_take_bit_iff)
  then show "bit (signed_take_bit n w) k = bit (if bit w n then w OR NOT (mask (Suc n)) else w) k"
    using k by (auto simp: bit_simps min_def less_Suc_eq_le)
qed

text \<open>
  \<open>SEXT\<close> of a register whose upper bits are clear writes its sign extension, the most negative
  value included, to the destination, and also overwrites the source register with it.
\<close>
theorem sext_extends:
  assumes "sz < 3" and "rega < length (ireg c)" and "regb < length (ireg c)"
    and "take_bit (8 * 2 ^ sz) (ireg c ! regb) = ireg c ! regb"
  shows "\<exists>d. unit0_alu AX_EXE_ALU_SEXT rega regb regc sz opc c = Ok d \<and>
    ireg d ! rega = signed_take_bit (8 * 2 ^ sz - 1) (ireg c ! regb) \<and>
    ireg d ! regb = signed_take_bit (8 * 2 ^ sz - 1) (ireg c ! regb)"
proof -
  have n: "Suc (8 * 2 ^ sz - 1) = 8 * 2 ^ sz" by simp
  have e: "signed_take_bit (8 * 2 ^ sz - 1) (ireg c ! regb) =
      (if bit (ireg c ! regb) (8 * 2 ^ sz - 1) then ireg c ! regb OR signmask sz else ireg c ! regb)"
    using signed_take_bit_low [of "8 * 2 ^ sz - 1" "ireg c ! regb"] assms(1,4)
    by (simp add: n signmask_mask)
  have b: "(w AND 0x80 \<noteq> 0) = bit w 7" "(w AND 0x8000 \<noteq> 0) = bit w 15"
    "(w AND 0x80000000 \<noteq> 0) = bit w 31" for w :: u64
    using and_bit_iff [of w 7] and_bit_iff [of w 15] and_bit_iff [of w 31] by simp_all
  from assms(1) consider "sz = 0" | "sz = 1" | "sz = 2" by linarith
  then show ?thesis
    using assms(2,3) e by cases (simp_all add: b set_ireg_def Let_def nth_list_update)
qed

theorem sext_extends_witness:
  "\<exists>d. unit0_alu AX_EXE_ALU_SEXT 3 2 0 0 0 (set_ireg 2 0x80 demo_core) = Ok d \<and>
     ireg d ! 3 = 0xFFFFFFFFFFFFFF80 \<and> ireg d ! 2 = 0xFFFFFFFFFFFFFF80"
proof -
  have "take_bit (8 * 2 ^ 0) (ireg (set_ireg 2 0x80 demo_core) ! 2) = ireg (set_ireg 2 0x80 demo_core) ! 2"
    by (simp add: set_ireg_def)
  moreover have "signed_take_bit 7 (0x80 :: u64) = 0xFFFFFFFFFFFFFF80" by code_simp
  ultimately show ?thesis
    using sext_extends [of 0 3 "set_ireg 2 0x80 demo_core" 2 0 0] by (simp add: set_ireg_def)
qed

text \<open>
  C28. The integer comparisons. \<open>CMPU\<close> and \<open>CMPN\<close> set Z when the operand, cut to its size, differs
  from the immediate, and S and U when it is less as signed and as unsigned; \<open>CMP\<close> clears all
  three flags whatever its registers hold. The other flag bits stay.
\<close>
theorem compare_sets_flags:
  assumes "unit0_cmp op rega regb sz opc c = Ok d"
  shows "(op \<in> {AX_EXE_CMP_CMPU, AX_EXE_CMP_CMPN} \<longrightarrow>
      (let x = ireg c ! rega AND sizemask sz;
           y = (if op = AX_EXE_CMP_CMPU then imm18 opc else imm18 opc OR 0xFFFFFFFFFFFC0000)
       in (flags d AND Z_MASK \<noteq> 0 \<longleftrightarrow> x \<noteq> y) \<and> (flags d AND S_MASK \<noteq> 0 \<longleftrightarrow> sint x < sint y) \<and>
          (flags d AND U_MASK \<noteq> 0 \<longleftrightarrow> x < y))) \<and>
    (op = AX_EXE_CMP_CMP \<longrightarrow>
      flags d AND Z_MASK = 0 \<and> flags d AND S_MASK = 0 \<and> flags d AND U_MASK = 0) \<and>
    flags d AND ZSUClearMask = flags c AND ZSUClearMask"
  using assms
  by (cases op) (auto simp: compare_flags_def flags_put_other)

theorem compare_sets_flags_witness:
  "\<exists>d. unit0_cmp AX_EXE_CMP_CMP 1 2 3 0 (set_ireg 1 7 demo_core) = Ok d \<and> flags d AND Z_MASK = 0"
proof -
  obtain d where d: "unit0_cmp AX_EXE_CMP_CMP 1 2 3 0 (set_ireg 1 7 demo_core) = Ok d" by simp
  then show ?thesis using compare_sets_flags [OF d] by simp
qed

text \<open>
  \<open>SLTS\<close>, set if less as signed, compares the sign-extended operands as unsigned numbers: for
  operands of the same sign this is the signed order, for operands of different signs the
  opposite of it. (Operands below 64 bits, other than the most negative value.)
\<close>
theorem slts_order:
  assumes "sz < 3" and "unit0_alu AX_EXE_ALU_SLTS rega regb regc sz opc c = Ok d"
    and "x = sint (sign_operand sz (ireg c ! rega AND sizemask sz))"
    and "y = sint (sign_operand sz (ireg c ! regb AND sizemask sz))"
  shows "flags d AND U_MASK \<noteq> 0 \<longleftrightarrow> (if (x < 0) = (y < 0) then x < y else y < x)"
proof -
  have "flags d = flags c AND NOT (mask 3) OR push_bit 2 (of_bool
      (sign_operand sz (ireg c ! rega AND sizemask sz) < sign_operand sz (ireg c ! regb AND sizemask sz)))"
    using assms(2) by (auto simp: set_flags_def clear_mask)
  then have "bit (flags d) 2 \<longleftrightarrow>
      sign_operand sz (ireg c ! rega AND sizemask sz) < sign_operand sz (ireg c ! regb AND sizemask sz)"
    by (simp add: bit_simps)
  then show ?thesis unfolding mask_bits assms(3,4) by (simp only: u64_less_sint)
qed

theorem slts_order_witness:
  "\<exists>d. unit0_alu AX_EXE_ALU_SLTS 1 2 0 0 0 (set_ireg 1 0xFF (set_ireg 2 1 demo_core)) = Ok d \<and>
     flags d AND U_MASK = 0"
proof -
  let ?c = "set_ireg 1 0xFF (set_ireg 2 1 demo_core)"
  obtain d where d: "unit0_alu AX_EXE_ALU_SLTS 1 2 0 0 0 ?c = Ok d" by simp
  have "sint (sign_operand 0 (ireg ?c ! 1 AND sizemask 0)) = -1"
    "sint (sign_operand 0 (ireg ?c ! 2 AND sizemask 0)) = 1"
    by (simp_all add: set_ireg_def sign_operand_def sizemask_def extendSign_def)
  then show ?thesis using slts_order [OF _ d refl refl] d by auto
qed

end
