(* ===== verification/AX_Branch.thy ===== *)
theory AX_Branch
  imports AX_Alu
begin

text \<open>
  The branch unit of \<open>decode_execute.c\<close>: the cases of \<open>AX_execute_unit0\<close> and
  \<open>AX_execute_unit0A\<close> that arm a delayed branch, the end of program, and
  \<open>executeDelayedInstruction\<close>, which the next fetch calls. The lemmas give the condition of each
  branch on the operands of the comparison before it, and the registers a branch changes.
\<close>

section \<open>Instructions\<close>

datatype bru_op =
    AX_EXE_BRU_RET | AX_EXE_BRU_RETI | AX_EXE_BRU_SYSCALL | AX_EXE_BRU_INT
  | AX_EXE_BRU_BNE | AX_EXE_BRU_BEQ | AX_EXE_BRU_BL | AX_EXE_BRU_BLE
  | AX_EXE_BRU_BG | AX_EXE_BRU_BGE | AX_EXE_BRU_BLS | AX_EXE_BRU_BLES
  | AX_EXE_BRU_BGS | AX_EXE_BRU_BGES | AX_EXE_BRU_BRA | AX_EXE_BRU_LOOP
  | AX_EXE_BRU_JUMP | AX_EXE_BRU_JUMPBR | AX_EXE_BRU_CALL | AX_EXE_BRU_CALLBR

text \<open>The enumeration from \<open>0x4C\<close> on.\<close>

definition bru_ops :: "bru_op list" where
  "bru_ops =
    [AX_EXE_BRU_RET, AX_EXE_BRU_RETI, AX_EXE_BRU_SYSCALL, AX_EXE_BRU_INT,
     AX_EXE_BRU_BNE, AX_EXE_BRU_BEQ, AX_EXE_BRU_BL, AX_EXE_BRU_BLE,
     AX_EXE_BRU_BG, AX_EXE_BRU_BGE, AX_EXE_BRU_BLS, AX_EXE_BRU_BLES,
     AX_EXE_BRU_BGS, AX_EXE_BRU_BGES, AX_EXE_BRU_BRA, AX_EXE_BRU_LOOP,
     AX_EXE_BRU_JUMP, AX_EXE_BRU_JUMPBR, AX_EXE_BRU_CALL, AX_EXE_BRU_CALLBR]"

datatype other_op = AX_EXE_OTHER_ENDP | AX_EXE_OTHER_EXE | AX_EXE_OTHER_WAIT | AX_EXE_UNKNOWN

text \<open>The enumeration from \<open>0x48\<close> on.\<close>

definition other_ops :: "other_op list" where
  "other_ops = [AX_EXE_OTHER_ENDP, AX_EXE_OTHER_EXE, AX_EXE_OTHER_WAIT, AX_EXE_UNKNOWN]"

text \<open>The operation a number names, where it names a branch: the \<open>switch\<close> on \<open>delayop\<close>.\<close>

definition bru_of_code :: "nat \<Rightarrow> bru_op option" where
  "bru_of_code n = (if 0x4C \<le> n \<and> n < 0x60 then Some (bru_ops ! (n - 0x4C)) else None)"

fun bru_code :: "bru_op \<Rightarrow> nat" where
  "bru_code AX_EXE_BRU_RET = 0x4C"
| "bru_code AX_EXE_BRU_RETI = 0x4D"
| "bru_code AX_EXE_BRU_SYSCALL = 0x4E"
| "bru_code AX_EXE_BRU_INT = 0x4F"
| "bru_code AX_EXE_BRU_BNE = 0x50"
| "bru_code AX_EXE_BRU_BEQ = 0x51"
| "bru_code AX_EXE_BRU_BL = 0x52"
| "bru_code AX_EXE_BRU_BLE = 0x53"
| "bru_code AX_EXE_BRU_BG = 0x54"
| "bru_code AX_EXE_BRU_BGE = 0x55"
| "bru_code AX_EXE_BRU_BLS = 0x56"
| "bru_code AX_EXE_BRU_BLES = 0x57"
| "bru_code AX_EXE_BRU_BGS = 0x58"
| "bru_code AX_EXE_BRU_BGES = 0x59"
| "bru_code AX_EXE_BRU_BRA = 0x5A"
| "bru_code AX_EXE_BRU_LOOP = 0x5B"
| "bru_code AX_EXE_BRU_JUMP = 0x5C"
| "bru_code AX_EXE_BRU_JUMPBR = 0x5D"
| "bru_code AX_EXE_BRU_CALL = 0x5E"
| "bru_code AX_EXE_BRU_CALLBR = 0x5F"

lemma bru_of_code_bru_code [simp]: "bru_of_code (bru_code b) = Some b"
  by (cases b) (simp_all add: bru_of_code_def bru_ops_def)

lemma bru_code_less: "bru_code b < 0x60"
  by (cases b) simp_all

section \<open>Taking a delayed branch\<close>

fun take_branch :: "bru_op \<Rightarrow> u32 \<Rightarrow> Core \<Rightarrow> Core" where
  "take_branch AX_EXE_BRU_BNE im core =
     (if flags core AND Z_MASK \<noteq> 0 then core\<lparr>pc := pc core + im\<rparr> else core)"
| "take_branch AX_EXE_BRU_BEQ im core =
     (if flags core AND Z_MASK = 0 then core\<lparr>pc := pc core + im\<rparr> else core)"
| "take_branch AX_EXE_BRU_BL im core =
     (if flags core AND U_MASK \<noteq> 0 \<and> flags core AND Z_MASK = 0
      then core\<lparr>pc := pc core + im\<rparr> else core)"
| "take_branch AX_EXE_BRU_BLE im core =
     (if flags core AND U_MASK \<noteq> 0 then core\<lparr>pc := pc core + im\<rparr> else core)"
| "take_branch AX_EXE_BRU_BG im core =
     (if flags core AND U_MASK = 0 \<and> flags core AND Z_MASK = 0
      then core\<lparr>pc := pc core + im\<rparr> else core)"
| "take_branch AX_EXE_BRU_BGE im core =
     (if flags core AND U_MASK = 0 then core\<lparr>pc := pc core + im\<rparr> else core)"
| "take_branch AX_EXE_BRU_BLS im core =
     (if flags core AND S_MASK \<noteq> 0 \<and> flags core AND Z_MASK = 0
      then core\<lparr>pc := pc core + im\<rparr> else core)"
| "take_branch AX_EXE_BRU_BLES im core =
     (if flags core AND S_MASK \<noteq> 0 then core\<lparr>pc := pc core + im\<rparr> else core)"
| "take_branch AX_EXE_BRU_BGS im core =
     (if flags core AND S_MASK = 0 \<and> flags core AND Z_MASK = 0
      then core\<lparr>pc := pc core + im\<rparr> else core)"
| "take_branch AX_EXE_BRU_BGES im core =
     (if flags core AND S_MASK = 0 \<or> flags core AND Z_MASK = 0
      then core\<lparr>pc := pc core + im\<rparr> else core)"
| "take_branch AX_EXE_BRU_BRA im core = core\<lparr>pc := pc core + im\<rparr>"
| "take_branch AX_EXE_BRU_JUMP im core = core\<lparr>pc := im\<rparr>"
| "take_branch AX_EXE_BRU_CALL im core = core\<lparr>lr := pc core, pc := im\<rparr>"
| "take_branch AX_EXE_BRU_JUMPBR im core = core\<lparr>pc := br core + im\<rparr>"
| "take_branch AX_EXE_BRU_CALLBR im core = core\<lparr>lr := pc core, pc := br core + im\<rparr>"
| "take_branch AX_EXE_BRU_LOOP im core =
     (if ireg core ! 60 \<noteq> 0
      then (set_ireg 60 (ireg core ! 60 - 1) core)\<lparr>pc := pc core + im\<rparr> else core)"
| "take_branch AX_EXE_BRU_RET im core = core\<lparr>pc := lr core\<rparr>"
| "take_branch AX_EXE_BRU_RETI im core = core\<lparr>pc := ir core\<rparr>"
| "take_branch AX_EXE_BRU_INT im core = core\<lparr>syscall := 2, ir := pc core, pc := 2\<rparr>"
| "take_branch AX_EXE_BRU_SYSCALL im core = core\<lparr>syscall := 1, ir := pc core, pc := 0\<rparr>"

definition executeDelayedInstruction :: "Core \<Rightarrow> Core" where
  "executeDelayedInstruction core =
     (let im = imm core; core1 = core\<lparr>delay := 0\<rparr>
      in case bru_of_code (unat (delayop core)) of
           None \<Rightarrow> core1
         | Some b \<Rightarrow> take_branch b im core1)"

section \<open>Arming a branch\<close>

definition bru_in_unit0 :: "bru_op \<Rightarrow> bool" where
  "bru_in_unit0 b \<longleftrightarrow>
     b \<notin> {AX_EXE_BRU_RET, AX_EXE_BRU_RETI, AX_EXE_BRU_SYSCALL, AX_EXE_BRU_INT}"

definition imm22 :: "u32 \<Rightarrow> u32" where
  "imm22 opcode = drop_bit 10 opcode AND 0x3FFFFF"

text \<open>
  The branch cases of \<open>AX_execute_unit0\<close>: a relative branch sign-extends 22 bits into the 32 of
  \<open>imm\<close>, an absolute one takes them as they are (the mask has 24 bits, the shifted word 22).
\<close>

definition unit0_bru :: "bru_op \<Rightarrow> nat \<Rightarrow> u32 \<Rightarrow> Core \<Rightarrow> Core" where
  "unit0_bru b unit opcode core =
     (let core1 = core\<lparr>delayop := of_nat unit, delay := 1\<rparr>
      in if b \<in> {AX_EXE_BRU_JUMPBR, AX_EXE_BRU_CALLBR, AX_EXE_BRU_JUMP, AX_EXE_BRU_CALL}
         then core1\<lparr>imm := drop_bit 10 opcode AND 0xFFFFFF\<rparr>
         else core1\<lparr>imm := ucast (extendSign (imm22 opcode) 22)\<rparr>)"

text \<open>The branch cases of \<open>AX_execute_unit0A\<close>, which leave \<open>imm\<close> as it is.\<close>

definition unit0A_bru :: "nat \<Rightarrow> Core \<Rightarrow> Core" where
  "unit0A_bru unit core = core\<lparr>delayop := of_nat unit, delay := 1\<rparr>"

fun unit0A_other :: "other_op \<Rightarrow> Core \<Rightarrow> Core" where
  "unit0A_other AX_EXE_OTHER_ENDP core = core\<lparr>error := AX_END_OF_CODE\<rparr>"
| "unit0A_other _ core = core"

section \<open>What is kept\<close>

lemma take_branch_keeps [simp]: "core_keeps c (take_branch b im d)" if "core_keeps c d" for c d
  using that by (cases b) simp_all

lemma executeDelayedInstruction_keeps [simp]:
  "core_keeps c d \<Longrightarrow> core_keeps c (executeDelayedInstruction d)"
  by (simp add: executeDelayedInstruction_def Let_def split: option.splits)

lemma unit0_bru_keeps [simp]: "core_keeps c (unit0_bru b u opc c)"
  by (simp add: unit0_bru_def Let_def)

lemma unit0A_bru_keeps [simp]: "core_keeps c (unit0A_bru u c)"
  by (simp add: unit0A_bru_def)

lemma unit0A_other_keeps [simp]: "core_keeps c (unit0A_other op c)"
  by (cases op) (simp_all add: core_keeps_error)

lemma delayed_kept [simp]:
  "delay (executeDelayedInstruction c) = 0"
  "flags (executeDelayedInstruction c) = flags c"
  "error (executeDelayedInstruction c) = error c"
  "mem (executeDelayedInstruction c) = mem c"
  "mmap (executeDelayedInstruction c) = mmap c"
  "vreg (executeDelayedInstruction c) = vreg c"
  "cycle (executeDelayedInstruction c) = cycle c"
  "instruction (executeDelayedInstruction c) = instruction c"
proof -
  have keep: "delay (take_branch b im d) = delay d \<and> flags (take_branch b im d) = flags d
      \<and> error (take_branch b im d) = error d \<and> mem (take_branch b im d) = mem d
      \<and> mmap (take_branch b im d) = mmap d \<and> vreg (take_branch b im d) = vreg d
      \<and> cycle (take_branch b im d) = cycle d \<and> instruction (take_branch b im d) = instruction d"
    for b im d by (cases b) (simp_all add: set_ireg_def)
  show "delay (executeDelayedInstruction c) = 0"
    "flags (executeDelayedInstruction c) = flags c"
    "error (executeDelayedInstruction c) = error c"
    "mem (executeDelayedInstruction c) = mem c"
    "mmap (executeDelayedInstruction c) = mmap c"
    "vreg (executeDelayedInstruction c) = vreg c"
    "cycle (executeDelayedInstruction c) = cycle c"
    "instruction (executeDelayedInstruction c) = instruction c"
    by (simp_all add: executeDelayedInstruction_def Let_def keep split: option.splits)
qed

section \<open>The scoreboard\<close>

text \<open>The counters of the cycle model; no instruction and no system call touches them.\<close>

definition scoreboard :: "Core \<Rightarrow> u8 list \<times> u8 list \<times> u8" where
  "scoreboard c = (busy_reg c, busy_vreg c, busy_flag c)"

lemma busy_delayed [simp]: "scoreboard (executeDelayedInstruction c) = scoreboard c"
proof -
  have "scoreboard (take_branch b im d) = scoreboard d" for b im d by (cases b) (simp_all add: scoreboard_def set_ireg_def)
  then show ?thesis by (simp add: executeDelayedInstruction_def Let_def scoreboard_def split: option.splits)
qed

section \<open>Properties\<close>

lemma pc_put_flags [simp]: "pc (put_flags z s u c) = pc c"
  by (simp add: put_flags_def set_flags_def)

text \<open>
  C3. Where each conditional branch goes after a comparison of \<open>x\<close> with \<open>y\<close>. Equality, \<open>>=\<close> and the
  signed \<open>>=\<close> are right. \<open>BLE\<close> and \<open>BLES\<close> are taken on \<open><\<close> and not on equality; \<open>BL\<close> and \<open>BLS\<close>
  are never taken, and \<open>BG\<close> and \<open>BGS\<close> only on equality: they test Z for the opposite of what the
  comparison stores.
\<close>
theorem branch_after_compare:
  "(let d = compare_flags x y c; t = (\<lambda>b. pc (take_branch b im d)); go = (\<lambda>p. if p then pc c + im else pc c)
    in t AX_EXE_BRU_BEQ = go (x = y) \<and> t AX_EXE_BRU_BNE = go (x \<noteq> y) \<and>
       t AX_EXE_BRU_BGE = go (y \<le> x) \<and> t AX_EXE_BRU_BGES = go (sint y \<le> sint x) \<and>
       t AX_EXE_BRU_BLE = go (x < y) \<and> t AX_EXE_BRU_BLES = go (sint x < sint y) \<and>
       t AX_EXE_BRU_BL = pc c \<and> t AX_EXE_BRU_BLS = pc c \<and>
       t AX_EXE_BRU_BG = go (x = y) \<and> t AX_EXE_BRU_BGS = go (x = y))"
  by (auto simp: Let_def compare_flags_def not_less)

lemma take_loop_step:
  "take_branch AX_EXE_BRU_LOOP im c =
     (if ireg c ! 60 = 0 then c
      else c\<lparr>ireg := (ireg c)[60 := ireg c ! 60 - 1], pc := pc c + im\<rparr>)"
  by (simp add: set_ireg_def)

lemma unat_minus_1: "w \<noteq> 0 \<Longrightarrow> unat (w - 1) = unat w - 1" for w :: u64
  by (simp add: unat_minus_one)

text \<open>
  \<open>LOOP\<close> counts register 60 down: started with the value \<open>n\<close> it is taken exactly \<open>n\<close> times, and
  from then on falls through and changes nothing.
\<close>
theorem loop_taken_count:
  assumes "60 < length (ireg c)"
  shows "(take_branch AX_EXE_BRU_LOOP im ^^ k) c =
    c\<lparr>ireg := (ireg c)[60 := of_nat (unat (ireg c ! 60) - k)],
      pc := pc c + of_nat (min k (unat (ireg c ! 60))) * im\<rparr>"
proof (induction k)
  case 0
  then show ?case by simp
next
  case (Suc k)
  let ?n = "unat (ireg c ! 60)"
  let ?d = "c\<lparr>ireg := (ireg c)[60 := of_nat (?n - k)], pc := pc c + of_nat (min k ?n) * im\<rparr>"
  have step: "(take_branch AX_EXE_BRU_LOOP im ^^ Suc k) c =
      (if ireg ?d ! 60 = 0 then ?d
       else ?d\<lparr>ireg := (ireg ?d)[60 := ireg ?d ! 60 - 1], pc := pc ?d + im\<rparr>)"
    by (simp only: funpow.simps(2) o_apply Suc.IH take_loop_step [of im ?d])
  show ?case
  proof (cases "k < ?n")
    case True
    have "?n - k < 2 ^ LENGTH(64)"
      using unsigned_less [of "ireg c ! 60", where 'a = nat] by simp
    then have u: "unat (of_nat (?n - k) :: u64) = ?n - k" by (simp only: unsigned_of_nat take_bit_nat_eq_self of_nat_id)
    then have "(of_nat (?n - k) :: u64) \<noteq> 0" using True by auto
    moreover have "(of_nat (?n - k) :: u64) - 1 = of_nat (?n - Suc k)"
      using True by (simp add: of_nat_diff Suc_diff_Suc [symmetric])
    ultimately show ?thesis
      using True assms unfolding step by (simp add: min_def algebra_simps)
  next
    case False
    then show ?thesis using assms unfolding step by (simp add: min_def)
  qed
qed

theorem loop_taken_count_witness:
  "pc ((take_branch AX_EXE_BRU_LOOP 0xFFFFFFFE ^^ 9) (set_ireg 60 3 demo_core)) = 0x3A"
  using loop_taken_count [of "set_ireg 60 3 demo_core" 9 "0xFFFFFFFE"] by (simp add: set_ireg_def)

end
