(* ===== verification/AX_Vfpu.thy ===== *)
theory AX_Vfpu
  imports AX_Branch
begin

text \<open>
  The floating-point unit of the first slot (\<open>AX_execute_unit0A\<close>): comparisons, scalar and vector
  operations on the cells of \<open>vreg\<close>, half-float immediates. A vector loop is a fold over its lane
  numbers, in order, on the shared register file, so that overlapping source and destination
  registers behave as in the code. The arithmetic is that of \<open>AX_Float\<close>. The last sections show the
  value of a converted half float, that the lane loops are simultaneous operations, and which branches
  are taken after a comparison of floats.
\<close>

section \<open>Half floats\<close>

definition HalftoFloat :: "u32 \<Rightarrow> u32" where
  "HalftoFloat half =
     (let ex = drop_bit 3 (half AND 0x3C00);
          ex1 = (if half AND 0x4000 \<noteq> 0 then ex OR 0x4000
                 else if ex \<noteq> 0 then ex OR 0x3800 else ex);
          ex2 = push_bit 16 ex1;
          xval = push_bit 16 (half AND 0x8000);
          xval1 = xval + push_bit 13 (half AND 0x03FF)
      in xval1 + ex2)"

section \<open>Instructions\<close>

datatype vfpu_op =
    AX_EXE_VFPU_FADD | AX_EXE_VFPU_FSUB | AX_EXE_VFPU_FMUL | AX_EXE_VFPU_FMULADD
  | AX_EXE_VFPU_VFADD | AX_EXE_VFPU_VFSUB | AX_EXE_VFPU_VFMUL | AX_EXE_VFPU_VFMULADD
  | AX_EXE_VFPU_VFADDS | AX_EXE_VFPU_VFSUBS | AX_EXE_VFPU_VFMULS | AX_EXE_VFPU_VFMULADDS
  | AX_EXE_VFPU_FMULSUB | AX_EXE_VFPU_VFMULSUB | AX_EXE_VFPU_VFMULSUBS | AX_EXE_VFPU_VFSHUFFLE
  | AX_EXE_VFPU_FMOVE | AX_EXE_VFPU_VFMOVE | AX_EXE_VFPU_FMOVEI | AX_EXE_VFPU_VFMOVEI
  | AX_EXE_VFPU_FNEG | AX_EXE_VFPU_FABS | AX_EXE_VFPU_VFNEG | AX_EXE_VFPU_VFABS
  | AX_EXE_VFPU_VFTOH | AX_EXE_VFPU_VHTOF | AX_EXE_VFPU_VFTOI | AX_EXE_VFPU_VITOF
  | AX_EXE_VFPU_VFMIN | AX_EXE_VFPU_VFMAX | AX_EXE_VFPU_FMIN | AX_EXE_VFPU_FMAX

text \<open>The enumeration from \<open>0x60\<close> on.\<close>

definition vfpu_ops :: "vfpu_op list" where
  "vfpu_ops =
    [AX_EXE_VFPU_FADD, AX_EXE_VFPU_FSUB, AX_EXE_VFPU_FMUL, AX_EXE_VFPU_FMULADD,
     AX_EXE_VFPU_VFADD, AX_EXE_VFPU_VFSUB, AX_EXE_VFPU_VFMUL, AX_EXE_VFPU_VFMULADD,
     AX_EXE_VFPU_VFADDS, AX_EXE_VFPU_VFSUBS, AX_EXE_VFPU_VFMULS, AX_EXE_VFPU_VFMULADDS,
     AX_EXE_VFPU_FMULSUB, AX_EXE_VFPU_VFMULSUB, AX_EXE_VFPU_VFMULSUBS, AX_EXE_VFPU_VFSHUFFLE,
     AX_EXE_VFPU_FMOVE, AX_EXE_VFPU_VFMOVE, AX_EXE_VFPU_FMOVEI, AX_EXE_VFPU_VFMOVEI,
     AX_EXE_VFPU_FNEG, AX_EXE_VFPU_FABS, AX_EXE_VFPU_VFNEG, AX_EXE_VFPU_VFABS,
     AX_EXE_VFPU_VFTOH, AX_EXE_VFPU_VHTOF, AX_EXE_VFPU_VFTOI, AX_EXE_VFPU_VITOF,
     AX_EXE_VFPU_VFMIN, AX_EXE_VFPU_VFMAX, AX_EXE_VFPU_FMIN, AX_EXE_VFPU_FMAX]"

text \<open>The lane number \<open>id\<close> that bits 10 and 11 of the word hold.\<close>

definition lane_id :: "u32 \<Rightarrow> nat" where
  "lane_id opcode = unat (drop_bit 10 opcode AND 0x3)"

definition imm16w :: "u32 \<Rightarrow> u32" where
  "imm16w opcode = drop_bit 10 opcode AND 0xFFFF"

text \<open>A loop over the lanes \<open>0 .. sz\<close> whose body writes cell \<open>d + i\<close>.\<close>

definition lanes :: "nat \<Rightarrow> nat \<Rightarrow> (nat \<Rightarrow> Core \<Rightarrow> u32) \<Rightarrow> Core \<Rightarrow> Core" where
  "lanes sz d f core = fold (\<lambda>i c. set_vreg (d + i) (f i c) c) [0..<sz + 1] core"

section \<open>Comparisons\<close>

text \<open>The flags that a difference leaves: not zero, and twice negative.\<close>

definition float_flags :: "u32 \<Rightarrow> Core \<Rightarrow> Core" where
  "float_flags ftmp core = put_flags (\<not> f32_eq ftmp 0) (f32_lt ftmp 0) (f32_lt ftmp 0) core"

definition double_flags :: "u64 \<Rightarrow> Core \<Rightarrow> Core" where
  "double_flags dtmp core = put_flags (\<not> f64_eq dtmp 0) (f64_lt dtmp 0) (f64_lt dtmp 0) core"

text \<open>\<open>DCMP\<close> sets \<open>ftmp\<close> and then tests \<open>dtmp\<close>, which nothing has set.\<close>

fun unit0A_cmp :: "fenv \<Rightarrow> cmp_op \<Rightarrow> nat \<Rightarrow> nat \<Rightarrow> nat \<Rightarrow> u32 \<Rightarrow> Core \<Rightarrow> Core res" where
  "unit0A_cmp E AX_EXE_CMP_FCMP rega regb sz opcode core =
     (let ftmp = f32_sub E (vreg core ! (rega * 4 + sz)) (vreg core ! (regb * 4 + lane_id opcode))
      in Ok (float_flags ftmp core))"
| "unit0A_cmp E AX_EXE_CMP_FCMPI rega regb sz opcode core =
     (let ftmp = f32_sub E (vreg core ! (rega * 4 + sz)) (HalftoFloat (imm16w opcode))
      in Ok (float_flags ftmp core))"
| "unit0A_cmp E AX_EXE_CMP_DCMP rega regb sz opcode core = Fault Uninit"
| "unit0A_cmp E AX_EXE_CMP_DCMPI rega regb sz opcode core =
     (let dtmp = f64_sub E (f32_to_f64 E (vreg core ! (rega * 2)))
                   (f32_to_f64 E (HalftoFloat (imm16w opcode)))
      in Ok (double_flags dtmp core))"
| "unit0A_cmp E _ rega regb sz opcode core = Ok core"

section \<open>The VFPU cases\<close>

text \<open>Sums, differences and products.\<close>

fun unit0A_vfpu_arith ::
    "fenv \<Rightarrow> vfpu_op \<Rightarrow> nat \<Rightarrow> nat \<Rightarrow> nat \<Rightarrow> nat \<Rightarrow> u32 \<Rightarrow> Core \<Rightarrow> Core res" where
  "unit0A_vfpu_arith E AX_EXE_VFPU_FADD rega regb regc sz opcode core =
     Ok (set_vreg (rega * 4)
       (f32_add E (vreg core ! (regb * 4 + sz)) (vreg core ! (regc * 4 + lane_id opcode))) core)"
| "unit0A_vfpu_arith E AX_EXE_VFPU_FSUB rega regb regc sz opcode core =
     Ok (set_vreg (rega * 4)
       (f32_sub E (vreg core ! (regb * 4 + sz)) (vreg core ! (regc * 4 + lane_id opcode))) core)"
| "unit0A_vfpu_arith E AX_EXE_VFPU_FMUL rega regb regc sz opcode core =
     Ok (set_vreg (rega * 4)
       (f32_mul E (vreg core ! (regb * 4 + sz)) (vreg core ! (regc * 4 + lane_id opcode))) core)"
| "unit0A_vfpu_arith E AX_EXE_VFPU_FMULADD rega regb regc sz opcode core =
     Ok (set_vreg (rega * 4)
       (f32_mul E (vreg core ! (rega * 4))
         (f32_add E (vreg core ! (regb * 4 + sz)) (vreg core ! (regc * 4 + lane_id opcode)))) core)"
| "unit0A_vfpu_arith E AX_EXE_VFPU_FMULSUB rega regb regc sz opcode core =
     Ok (set_vreg (rega * 4)
       (f32_mul E (vreg core ! (rega * 4))
         (f32_sub E (vreg core ! (regb * 4 + sz)) (vreg core ! (regc * 4 + lane_id opcode)))) core)"
| "unit0A_vfpu_arith E AX_EXE_VFPU_VFADD rega regb regc sz opcode core =
     Ok (lanes sz (rega * 4)
       (\<lambda>i c. f32_add E (vreg c ! (regb * 4 + i)) (vreg c ! (regc * 4 + i))) core)"
| "unit0A_vfpu_arith E AX_EXE_VFPU_VFSUB rega regb regc sz opcode core =
     Ok (lanes sz (rega * 4)
       (\<lambda>i c. f32_sub E (vreg c ! (regb * 4 + i)) (vreg c ! (regc * 4 + i))) core)"
| "unit0A_vfpu_arith E AX_EXE_VFPU_VFMUL rega regb regc sz opcode core =
     Ok (lanes sz (rega * 4)
       (\<lambda>i c. f32_mul E (vreg c ! (regb * 4 + i)) (vreg c ! (regc * 4 + i))) core)"
| "unit0A_vfpu_arith E AX_EXE_VFPU_VFMULADD rega regb regc sz opcode core =
     Ok (lanes sz (rega * 4)
       (\<lambda>i c. f32_mul E (vreg c ! (rega * 4 + i))
         (f32_add E (vreg c ! (regb * 4 + i)) (vreg c ! (regc * 4 + i)))) core)"
| "unit0A_vfpu_arith E AX_EXE_VFPU_VFMULSUB rega regb regc sz opcode core =
     Ok (lanes sz (rega * 4)
       (\<lambda>i c. f32_mul E (vreg c ! (rega * 4 + i))
         (f32_sub E (vreg c ! (regb * 4 + i)) (vreg c ! (regc * 4 + i)))) core)"
| "unit0A_vfpu_arith E AX_EXE_VFPU_VFADDS rega regb regc sz opcode core =
     (let ftmp = vreg core ! (regc * 4 + lane_id opcode)
      in Ok (lanes sz (rega * 4) (\<lambda>i c. f32_add E (vreg c ! (regb * 4 + i)) ftmp) core))"
| "unit0A_vfpu_arith E AX_EXE_VFPU_VFSUBS rega regb regc sz opcode core =
     (let ftmp = vreg core ! (regc * 4 + lane_id opcode)
      in Ok (lanes sz (rega * 4) (\<lambda>i c. f32_sub E (vreg c ! (regb * 4 + i)) ftmp) core))"
| "unit0A_vfpu_arith E AX_EXE_VFPU_VFMULS rega regb regc sz opcode core =
     (let ftmp = vreg core ! (regc * 4 + lane_id opcode)
      in Ok (lanes sz (rega * 4) (\<lambda>i c. f32_mul E (vreg c ! (regb * 4 + i)) ftmp) core))"
| "unit0A_vfpu_arith E AX_EXE_VFPU_VFMULADDS rega regb regc sz opcode core =
     (let ftmp = vreg core ! (regc * 4 + lane_id opcode)
      in Ok (lanes sz (rega * 4)
           (\<lambda>i c. f32_mul E (vreg c ! (rega * 4 + i)) (f32_add E (vreg c ! (regb * 4 + i)) ftmp)) core))"
| "unit0A_vfpu_arith E AX_EXE_VFPU_VFMULSUBS rega regb regc sz opcode core =
     (let ftmp = vreg core ! (regc * 4 + lane_id opcode)
      in Ok (lanes sz (rega * 4)
           (\<lambda>i c. f32_mul E (vreg c ! (rega * 4 + i)) (f32_sub E (vreg c ! (regb * 4 + i)) ftmp)) core))"
| "unit0A_vfpu_arith E _ rega regb regc sz opcode core = Ok core"

text \<open>Shuffles, moves, signs, conversions, minimum and maximum.\<close>

fun unit0A_vfpu_move ::
    "fenv \<Rightarrow> vfpu_op \<Rightarrow> nat \<Rightarrow> nat \<Rightarrow> nat \<Rightarrow> nat \<Rightarrow> u32 \<Rightarrow> Core \<Rightarrow> Core res" where
  "unit0A_vfpu_move E AX_EXE_VFPU_VFSHUFFLE rega regb regc sz opcode core =
     Ok (fold (\<lambda>j c. set_vreg (rega * 4 + unat (drop_bit (10 + 2 * j) opcode AND 0x3))
                       (vreg c ! (regb * 4 + j)) c) [0..<4] core)"
| "unit0A_vfpu_move E AX_EXE_VFPU_FMOVE rega regb regc sz opcode core =
     Ok (set_vreg (rega * 4 + sz) (vreg core ! (regb * 4 + lane_id opcode)) core)"
| "unit0A_vfpu_move E AX_EXE_VFPU_VFMOVE rega regb regc sz opcode core =
     Ok (lanes sz (rega * 4) (\<lambda>i c. vreg c ! (regb * 4 + i)) core)"
| "unit0A_vfpu_move E AX_EXE_VFPU_FMOVEI rega regb regc sz opcode core =
     (let ftmp = f32_sub E (vreg core ! (rega * 4 + sz)) (HalftoFloat (imm16w opcode))
      in Ok (set_vreg (rega * 4 + sz) ftmp core))"
| "unit0A_vfpu_move E AX_EXE_VFPU_VFMOVEI rega regb regc sz opcode core =
     (let ftmp = f32_sub E (vreg core ! (rega * 4)) (HalftoFloat (imm16w opcode))
      in Ok (lanes sz (rega * 4) (\<lambda>i c. ftmp) core))"
| "unit0A_vfpu_move E AX_EXE_VFPU_FNEG rega regb regc sz opcode core =
     Ok (set_vreg (rega * 4 + sz) (f32_neg (vreg core ! (regb * 4 + lane_id opcode))) core)"
| "unit0A_vfpu_move E AX_EXE_VFPU_FABS rega regb regc sz opcode core =
     Ok (if f32_lt (vreg core ! (regb * 4 + lane_id opcode)) 0
         then set_vreg (rega * 4 + sz) (f32_neg (vreg core ! (regb * 4 + lane_id opcode))) core
         else core)"
| "unit0A_vfpu_move E AX_EXE_VFPU_VFNEG rega regb regc sz opcode core =
     Ok (lanes sz (rega * 4) (\<lambda>i c. f32_neg (vreg c ! (regb * 4 + i))) core)"
| "unit0A_vfpu_move E AX_EXE_VFPU_VFABS rega regb regc sz opcode core =
     Ok (fold (\<lambda>i c. if f32_lt (vreg c ! (regb * 4 + i)) 0
                     then set_vreg (rega * 4 + i) (f32_neg (vreg c ! (regb * 4 + i))) c
                     else c) [0..<sz + 1] core)"
| "unit0A_vfpu_move E AX_EXE_VFPU_VFTOI rega regb regc sz opcode core =
     Ok (lanes sz (rega * 4) (\<lambda>i c. i32_to_f32 (vreg c ! (regb * 4 + i))) core)"
| "unit0A_vfpu_move E AX_EXE_VFPU_VITOF rega regb regc sz opcode core =
     fold_res (\<lambda>i c. res_bind (f32_to_i32 (vreg c ! (regb * 4 + i)))
                       (\<lambda>v. Ok (set_vreg (rega * 4 + i) v c))) [0..<sz + 1] core"
| "unit0A_vfpu_move E AX_EXE_VFPU_FMAX rega regb regc sz opcode core =
     Ok (if f32_lt (vreg core ! (rega * 4 + sz)) (vreg core ! (regb * 4 + lane_id opcode))
         then set_vreg (rega * 4 + sz) (vreg core ! (regb * 4 + lane_id opcode)) core
         else core)"
| "unit0A_vfpu_move E AX_EXE_VFPU_FMIN rega regb regc sz opcode core =
     Ok (if f32_lt (vreg core ! (regb * 4 + lane_id opcode)) (vreg core ! (rega * 4 + sz))
         then set_vreg (rega * 4 + sz) (vreg core ! (regb * 4 + lane_id opcode)) core
         else core)"
| "unit0A_vfpu_move E _ rega regb regc sz opcode core = Ok core"

fun vfpu_arith :: "vfpu_op \<Rightarrow> bool" where
  "vfpu_arith AX_EXE_VFPU_FADD = True"
| "vfpu_arith AX_EXE_VFPU_FSUB = True"
| "vfpu_arith AX_EXE_VFPU_FMUL = True"
| "vfpu_arith AX_EXE_VFPU_FMULADD = True"
| "vfpu_arith AX_EXE_VFPU_FMULSUB = True"
| "vfpu_arith AX_EXE_VFPU_VFADD = True"
| "vfpu_arith AX_EXE_VFPU_VFSUB = True"
| "vfpu_arith AX_EXE_VFPU_VFMUL = True"
| "vfpu_arith AX_EXE_VFPU_VFMULADD = True"
| "vfpu_arith AX_EXE_VFPU_VFMULSUB = True"
| "vfpu_arith AX_EXE_VFPU_VFADDS = True"
| "vfpu_arith AX_EXE_VFPU_VFSUBS = True"
| "vfpu_arith AX_EXE_VFPU_VFMULS = True"
| "vfpu_arith AX_EXE_VFPU_VFMULADDS = True"
| "vfpu_arith AX_EXE_VFPU_VFMULSUBS = True"
| "vfpu_arith _ = False"

definition unit0A_vfpu ::
    "fenv \<Rightarrow> vfpu_op \<Rightarrow> nat \<Rightarrow> nat \<Rightarrow> nat \<Rightarrow> nat \<Rightarrow> u32 \<Rightarrow> Core \<Rightarrow> Core res" where
  "unit0A_vfpu E op rega regb regc sz opcode core =
     (if vfpu_arith op then unit0A_vfpu_arith E op rega regb regc sz opcode core
      else unit0A_vfpu_move E op rega regb regc sz opcode core)"

lemma unit0A_vfpu_simps [simp]:
  "vfpu_arith op \<Longrightarrow> unit0A_vfpu E op rega regb regc sz opc c = unit0A_vfpu_arith E op rega regb regc sz opc c"
  "\<not> vfpu_arith op \<Longrightarrow> unit0A_vfpu E op rega regb regc sz opc c = unit0A_vfpu_move E op rega regb regc sz opc c"
  by (simp_all add: unit0A_vfpu_def)

section \<open>What is kept\<close>

lemma lanes_keeps [simp]: "core_keeps c d \<Longrightarrow> core_keeps c (lanes sz k f d)"
  by (simp only: lanes_def) (rule core_keeps_fold, simp_all)

lemma unit0A_cmp_keeps: "unit0A_cmp E op rega regb sz opc c = Ok c' \<Longrightarrow> core_keeps c c'"
  by (cases op) (auto simp: Let_def float_flags_def double_flags_def)

lemma unit0A_vfpu_keeps: "unit0A_vfpu E op rega regb regc sz opc c = Ok c' \<Longrightarrow> core_keeps c c'"
  by (cases op)
    (auto simp: Let_def res_bind_eq_Ok simp del: upt_Suc
      intro!: core_keeps_fold elim!: core_keeps_fold_res split: if_splits)

section \<open>The value of a half float\<close>

lemma and_field: "h AND push_bit j (mask n) = push_bit j (take_bit n (drop_bit j h))" for h :: u32
  by (rule bit_word_eqI) (auto simp: bit_simps)

lemma field_masks:
  "h AND 0x3C00 = push_bit 10 (take_bit 4 (drop_bit 10 h))"
  "h AND 0x8000 = push_bit 15 (take_bit 1 (drop_bit 15 h))"
  "h AND 0x4000 = push_bit 14 (take_bit 1 (drop_bit 14 h))"
  "h AND 0x03FF = take_bit 10 h" for h :: u32
  using and_field [of h 10 4] and_field [of h 15 1] and_field [of h 14 1] and_field [of h 0 10]
  by (simp_all add: mask_eq_exp_minus_1 push_bit_eq_mult)

lemma unat_field: "unat (take_bit n (drop_bit j h)) = (unat h div 2 ^ j) mod 2 ^ n" for h :: u32
proof -
  have "unat (drop_bit j h) = unat h div 2 ^ j"
    using take_bit_nat_eq_self [of "unat h" 32] unsigned_less [of h, where 'a = nat]
    by (simp only: unsigned_drop_bit_eq) (simp add: drop_bit_eq_div)
  then show ?thesis by (simp only: unsigned_take_bit_eq) (simp add: take_bit_eq_mod)
qed

lemma word_field: "(unat h div 2 ^ j) mod 2 ^ n = x \<Longrightarrow> take_bit n (drop_bit j h) = of_nat x" for h :: u32
proof -
  assume "(unat h div 2 ^ j) mod 2 ^ n = x"
  then have "of_nat x = (of_nat (unat (take_bit n (drop_bit j h))) :: u32)" by (simp only: unat_field)
  then show ?thesis by simp
qed

text \<open>The exponent bits after the case split, for each low part \<open>x\<close> of the half exponent.\<close>

lemma half_exponent:
  assumes "x < (16::nat)"
  shows "unat (push_bit 16 (drop_bit 3 (push_bit 10 (of_nat x)) OR 0x4000 :: u32)) = (x + 128) * 2 ^ 23"
    and "unat (push_bit 16 (drop_bit 3 (push_bit 10 (of_nat x)) OR 0x3800 :: u32)) = (x + 112) * 2 ^ 23"
    and "(drop_bit 3 (push_bit 10 (of_nat x)) :: u32) = 0 \<longleftrightarrow> x = 0"
proof -
  have *: "\<forall>x \<in> set [0, 1, 2, 3, 4, 5, 6, 7, 8, 9, 10, 11, 12, 13, 14, 15 :: nat].
      unat (push_bit 16 (drop_bit 3 (push_bit 10 (of_nat x)) OR 0x4000 :: u32)) = (x + 128) * 2 ^ 23 \<and>
      unat (push_bit 16 (drop_bit 3 (push_bit 10 (of_nat x)) OR 0x3800 :: u32)) = (x + 112) * 2 ^ 23 \<and>
      ((drop_bit 3 (push_bit 10 (of_nat x)) :: u32) = 0 \<longleftrightarrow> x = 0)"
    by simp
  have "x \<in> set [0, 1, 2, 3, 4, 5, 6, 7, 8, 9, 10, 11, 12, 13, 14, 15 :: nat]"
    using assms unfolding list.set insert_iff empty_iff by presburger
  from bspec [OF * this] show
    "unat (push_bit 16 (drop_bit 3 (push_bit 10 (of_nat x)) OR 0x4000 :: u32)) = (x + 128) * 2 ^ 23"
    "unat (push_bit 16 (drop_bit 3 (push_bit 10 (of_nat x)) OR 0x3800 :: u32)) = (x + 112) * 2 ^ 23"
    "(drop_bit 3 (push_bit 10 (of_nat x)) :: u32) = 0 \<longleftrightarrow> x = 0"
    by blast+
qed

lemma unat_HalftoFloat:
  assumes h: "unat h = s * 2 ^ 15 + e * 2 ^ 10 + m" and s: "s < 2" and e: "e < 32" and m: "m < 2 ^ 10"
  shows "unat (HalftoFloat h) = s * 2 ^ 31 + (if e = 0 then 0 else e + 112) * 2 ^ 23 + m * 2 ^ 13"
proof -
  have d: "unat h div 2 ^ 10 = s * 32 + e" "unat h div 2 ^ 15 = s" "unat h div 2 ^ 14 = s * 2 + e div 16"
    using h e m by simp_all
  have x: "take_bit 4 (drop_bit 10 h) = of_nat (e mod 16)"
  proof (rule word_field)
    have "s * 32 + e = e + s * 2 * 16" by simp
    then have "(s * 32 + e) mod 16 = e mod 16" by (simp only: mod_mult_self1)
    then show "unat h div 2 ^ 10 mod 2 ^ 4 = e mod 16" by (subst d(1)) simp
  qed
  have t14: "take_bit 1 (drop_bit 14 h) = of_nat (e div 16)"
  proof (rule word_field)
    have "(s * 2 + e div 16) mod 2 = e div 16" using e by simp
    then show "unat h div 2 ^ 14 mod 2 ^ 1 = e div 16" by (subst d(3)) simp
  qed
  have t15: "take_bit 1 (drop_bit 15 h) = of_nat s"
  proof (rule word_field)
    show "unat h div 2 ^ 15 mod 2 ^ 1 = s" using s by (subst d(2)) simp
  qed
  have t0: "take_bit 10 h = of_nat m"
  proof -
    have "h' = s * 2 ^ 15 + e * 2 ^ 10 + m \<Longrightarrow> h' div 2 ^ 0 mod 2 ^ 10 = m" for h'
    proof -
      assume "h' = s * 2 ^ 15 + e * 2 ^ 10 + m"
      then have "h' = m + (s * 2 ^ 5 + e) * 2 ^ 10" by (simp add: algebra_simps)
      then have "h' mod 2 ^ 10 = m mod 2 ^ 10" by (simp only: mod_mult_self1)
      then show ?thesis using m by simp
    qed
    from word_field [of h 0 10 m, OF this [OF h]] show ?thesis by simp
  qed
  have sgn: "unat (push_bit 31 (of_nat s) :: u32) = s * 2 ^ 31"
    using s by (cases s) auto
  have man: "unat (push_bit 13 (of_nat m) :: u32) = m * 2 ^ 13"
  proof -
    have "push_bit 13 (of_nat m) = (of_nat (m * 2 ^ 13) :: u32)" by (simp add: push_bit_eq_mult)
    then show ?thesis using m by (simp add: unsigned_of_nat take_bit_nat_eq_self del: of_nat_mult)
  qed
  define ex where "ex = (if push_bit 14 (of_nat (e div 16)) \<noteq> (0::u32) then push_bit 16 (drop_bit 3 (push_bit 10 (of_nat (e mod 16))) OR 0x4000)
      else if drop_bit 3 (push_bit 10 (of_nat (e mod 16))) \<noteq> (0::u32)
        then push_bit 16 (drop_bit 3 (push_bit 10 (of_nat (e mod 16))) OR 0x3800) else 0 :: u32)"
  have ex: "unat ex = (if e = 0 then 0 else e + 112) * 2 ^ 23"
  proof (cases "e < 16")
    case True
    then show ?thesis by (simp add: ex_def half_exponent del: push_bit_or)
  next
    case False
    then obtain k where "e = 16 + k" by (auto simp: not_less dest: le_Suc_ex)
    then have "e div 16 = 1" "e mod 16 + 16 = e" using e by simp_all
    then show ?thesis by (simp add: ex_def half_exponent del: push_bit_or)
  qed
  have "HalftoFloat h = (push_bit 16 (push_bit 15 (of_nat s)) + push_bit 13 (of_nat m)) + ex"
    unfolding HalftoFloat_def field_masks x t14 t15 t0 ex_def by (simp add: Let_def)
  moreover have "s * 2 ^ 31 + m * 2 ^ 13 + (if e = 0 then 0 else e + 112) * 2 ^ 23 < 2 ^ 32"
    using s e m by auto
  ultimately show ?thesis by (simp add: unat_word_ariths sgn man ex)
qed

lemma half_fields:
  fixes s e m :: nat
  assumes "s < 2" and "e < 2 ^ eb" and "m < 2 ^ mb"
  shows "odd ((s * 2 ^ (eb + mb) + e * 2 ^ mb + m) div 2 ^ (eb + mb)) = (s = 1)"
    and "(s * 2 ^ (eb + mb) + e * 2 ^ mb + m) div 2 ^ mb mod 2 ^ eb = e"
    and "(s * 2 ^ (eb + mb) + e * 2 ^ mb + m) mod 2 ^ mb = m"
proof -
  let ?n = "s * 2 ^ (eb + mb) + e * 2 ^ mb + m"
  have n: "?n = (s * 2 ^ eb + e) * 2 ^ mb + m" by (simp add: power_add algebra_simps)
  have d: "?n div 2 ^ mb = s * 2 ^ eb + e" unfolding n using assms(3) by simp
  have "?n div 2 ^ (eb + mb) = ?n div 2 ^ mb div 2 ^ eb" by (simp only: power_add div_mult2_eq mult.commute [of "2 ^ eb"])
  also have "\<dots> = s" unfolding d using assms(2) by simp
  finally show "odd (?n div 2 ^ (eb + mb)) = (s = 1)"
    using assms(1) by (auto simp: less_Suc_eq numeral_2_eq_2)
  show "?n div 2 ^ mb mod 2 ^ eb = e" unfolding d using assms(2) by simp
  show "?n mod 2 ^ mb = m" unfolding n using assms(3) by simp
qed

text \<open>
  C24. The half-float immediate. A normal half float becomes the single-precision number of the same value.
  The other exponents are not converted: a subnormal half float becomes a subnormal number of the same
  digits, \<open>2 ^ 112\<close> times too small, and the infinities and NaNs become finite numbers.
\<close>
theorem half_float_value:
  assumes "unat h = s * 2 ^ 15 + e * 2 ^ 10 + m" and "s < 2" and "e < 32" and "m < 2 ^ 10"
  shows "(0 < e \<and> e < 31 \<longrightarrow>
      funpack 5 10 (unat h) = FFin (s = 1) (2 ^ 10 + m) (int e - 25) \<and>
      unpack32 (HalftoFloat h) = FFin (s = 1) ((2 ^ 10 + m) * 2 ^ 13) (int e - 25 - 13)) \<and>
    (e = 0 \<longrightarrow> unpack32 (HalftoFloat h) = FFin (s = 1) (m * 2 ^ 13) (-149)) \<and>
    (e = 31 \<longrightarrow> unpack32 (HalftoFloat h) = FFin (s = 1) ((2 ^ 10 + m) * 2 ^ 13) (-7))"
proof -
  let ?e = "if e = 0 then 0 else e + 112"
  have f: "unat (HalftoFloat h) = s * 2 ^ (8 + 23) + ?e * 2 ^ 23 + m * 2 ^ 13"
    using unat_HalftoFloat [OF assms] by simp
  have m: "m * 2 ^ 13 < 2 ^ 23" using assms(4) by simp
  have e: "?e < 2 ^ 8" using assms(3) by simp
  note S = half_fields [OF assms(2) e m]
  have u: "unpack32 (HalftoFloat h) =
      (if ?e = 0 then FFin (s = 1) (m * 2 ^ 13) (emin 8 23)
       else FFin (s = 1) (2 ^ 23 + m * 2 ^ 13) (int ?e - 1 + emin 8 23))"
    unfolding f funpack_def Let_def S using assms(3) by simp
  have h: "unat h = s * 2 ^ (5 + 10) + e * 2 ^ 10 + m" using assms(1) by simp
  have e5: "e < 2 ^ 5" using assms(3) by simp
  note H = half_fields [OF assms(2) e5 assms(4)]
  have "0 < e \<and> e < 31 \<longrightarrow> funpack 5 10 (unat h) = FFin (s = 1) (2 ^ 10 + m) (int e - 25)"
    unfolding h funpack_def Let_def H by (simp add: emin_def)
  then show ?thesis unfolding u by (simp add: emin_def)
qed

theorem half_float_value_witness:
  "unpack32 (HalftoFloat 0x3E00) = FFin False (1536 * 2 ^ 13) (-23) \<and> unpack32 (HalftoFloat 0x7C00) = FFin False (1024 * 2 ^ 13) (-7)"
  using half_float_value [of "0x3E00" 0 15 512] half_float_value [of "0x7C00" 0 31 0] by simp

section \<open>Lanes\<close>

text \<open>
  A lane loop whose body for lane \<open>i\<close> reads only lane \<open>i\<close> of the registers computes every lane from
  the old contents, even when source and destination are the same register.
\<close>

definition same_lane :: "nat \<Rightarrow> Core \<Rightarrow> Core \<Rightarrow> bool" where
  "same_lane i c c' \<longleftrightarrow> (\<forall>r<64. vreg c' ! (r * 4 + i) = vreg c ! (r * 4 + i))"

lemma splice_same_lane:
  assumes "length ys = k" and "k < 4" and "rega < 64" and "length (vreg c) = 256"
  shows "same_lane k c (c\<lparr>vreg := splice (rega * 4) ys (vreg c)\<rparr>)"
proof -
  have fits: "rega * 4 + length ys \<le> length (vreg c)" using assms by simp
  have "splice (rega * 4) ys (vreg c) ! (r * 4 + k) = vreg c ! (r * 4 + k)" if "r < 64" for r
  proof -
    have "r * 4 + k < length (vreg c)" using that assms by simp
    moreover have "\<not> (rega * 4 \<le> r * 4 + k \<and> r * 4 + k < rega * 4 + length ys)"
      using assms(1,2) by presburger
    ultimately show ?thesis by (simp only: nth_splice [OF fits] if_False)
  qed
  then show ?thesis by (simp add: same_lane_def)
qed

lemma splice_snoc:
  assumes "i + length ys < length xs"
  shows "(splice i ys xs)[i + length ys := v] = splice i (ys @ [v]) xs"
  using assms by (intro nth_equalityI) (auto simp: nth_splice nth_list_update nth_append)

text \<open>The values that the lanes of a loop store, the first fault ending it.\<close>

fun lane_values :: "(nat \<Rightarrow> u32 res) \<Rightarrow> nat \<Rightarrow> u32 list res" where
  "lane_values g 0 = Ok []"
| "lane_values g (Suc n) = res_bind (lane_values g n) (\<lambda>vs. res_bind (g n) (\<lambda>v. Ok (vs @ [v])))"

lemma lane_values_length: "lane_values g n = Ok vs \<Longrightarrow> length vs = n"
  by (induction n arbitrary: vs) (auto simp: res_bind_eq_Ok)

lemma lane_values_Ok: "lane_values (\<lambda>i. Ok (h i)) n = Ok (map h [0..<n])"
  by (induction n) simp_all

lemma fold_res_snoc: "fold_res f [0..<Suc n] c = res_bind (fold_res f [0..<n] c) (f n)"
proof -
  have "fold_res f [n] = f n" by (simp add: fun_eq_iff res_bind_def split: sum.splits)
  then show ?thesis by (simp add: fold_res_append)
qed

lemma fold_res_lanes:
  assumes local: "\<And>i c'. i < 4 \<Longrightarrow> same_lane i c c' \<Longrightarrow> g i c' = g i c"
    and "n \<le> 4" and "rega < 64" and "length (vreg c) = 256"
  shows "fold_res (\<lambda>i d. res_bind (g i d) (\<lambda>v. Ok (set_vreg (rega * 4 + i) v d))) [0..<n] c =
    res_bind (lane_values (\<lambda>i. g i c) n) (\<lambda>vs. Ok (c\<lparr>vreg := splice (rega * 4) vs (vreg c)\<rparr>))"
  using assms(2)
proof (induction n)
  case 0
  show ?case by (simp add: splice_def)
next
  case (Suc n)
  show ?case
  proof (cases "lane_values (\<lambda>i. g i c) n")
    case (Inl f)
    then show ?thesis using Suc by (simp add: fold_res_snoc del: upt_Suc)
  next
    case (Inr vs)
    let ?d = "c\<lparr>vreg := splice (rega * 4) vs (vreg c)\<rparr>"
    have vs: "length vs = n" using lane_values_length [OF Inr] .
    have "same_lane n c ?d" using vs Suc.prems assms(3,4) by (intro splice_same_lane) simp_all
    then have g: "g n ?d = g n c" using Suc.prems by (intro local) simp_all
    have "(splice (rega * 4) vs (vreg c))[rega * 4 + n := v] = splice (rega * 4) (vs @ [v]) (vreg c)" for v
      using splice_snoc [of "rega * 4" vs "vreg c" v] vs Suc.prems assms(3,4) by simp
    then show ?thesis using Suc Inr g
      by (cases "g n c") (simp_all add: fold_res_snoc set_vreg_def del: upt_Suc)
  qed
qed

lemma lanes_vreg:
  assumes "\<And>i c'. i < 4 \<Longrightarrow> same_lane i c c' \<Longrightarrow> f i c' = f i c"
    and "sz < 4" and "rega < 64" and "length (vreg c) = 256"
  shows "lanes sz (rega * 4) f c =
    c\<lparr>vreg := splice (rega * 4) (map (\<lambda>i. f i c) [0..<sz + 1]) (vreg c)\<rparr>"
proof -
  have "fold_res (\<lambda>i d. res_bind (Ok (f i d)) (\<lambda>v. Ok (set_vreg (rega * 4 + i) v d))) [0..<sz + 1] c =
      Ok (lanes sz (rega * 4) f c)"
    unfolding lanes_def by (rule fold_res_total) simp
  moreover have "fold_res (\<lambda>i d. res_bind (Ok (f i d)) (\<lambda>v. Ok (set_vreg (rega * 4 + i) v d))) [0..<sz + 1] c =
      Ok (c\<lparr>vreg := splice (rega * 4) (map (\<lambda>i. f i c) [0..<sz + 1]) (vreg c)\<rparr>)"
    using fold_res_lanes [where g = "\<lambda>i d. Ok (f i d)" and n = "sz + 1" and c = c and rega = rega] assms
    by (simp add: lane_values_Ok del: upt_Suc)
  ultimately show ?thesis by simp
qed

lemma set_vreg_same [simp]: "set_vreg k (vreg c ! k) c = c"
  by (simp add: set_vreg_def)

lemma vfabs_lanes:
  "fold (\<lambda>i c. if f32_lt (vreg c ! (regb * 4 + i)) 0
                     then set_vreg (rega * 4 + i) (f32_neg (vreg c ! (regb * 4 + i))) c
                     else c) [0..<sz + 1] =
   lanes sz (rega * 4) (\<lambda>i c. if f32_lt (vreg c ! (regb * 4 + i)) 0 then f32_neg (vreg c ! (regb * 4 + i))
     else vreg c ! (rega * 4 + i))"
  unfolding lanes_def by (rule ext, rule fold_cong) (simp_all add: fun_eq_iff)

lemma same_lane_regs: "same_lane i c c' \<Longrightarrow> r < 64 \<Longrightarrow> vreg c' ! (r * 4 + i) = vreg c ! (r * 4 + i)"
  by (simp add: same_lane_def)

text \<open>
  C22. The vector operations: each of the sixteen lane loops computes lane by lane from the old contents of
  the registers, also when the destination is a source: lanes \<open>0 .. sz\<close> of the destination are replaced,
  in one go, everything else stays. \<open>VFABS\<close> keeps the old lane of the destination where the source is not
  negative, \<open>VFMOVEI\<close> writes the difference of lane 0 of the destination and the immediate to every lane,
  \<open>VFTOI\<close> converts integers to floating point and \<open>VITOF\<close> floating point to integers, where the first lane
  that does not fit an integer is undefined. \<open>VFSHUFFLE\<close>, which is no lane loop, has a property of its own.
\<close>
theorem vector_lanes:
  assumes "wf_core c" and "rega < 64" and "regb < 64" and "regc < 64" and "sz < 4"
  shows "(let x = (\<lambda>i. vreg c ! (regb * 4 + i)); y = (\<lambda>i. vreg c ! (regc * 4 + i)); a = (\<lambda>i. vreg c ! (rega * 4 + i));
      s = vreg c ! (regc * 4 + lane_id opc); imm = HalftoFloat (imm16w opc);
      out = (\<lambda>vs. Ok (c\<lparr>vreg := splice (rega * 4) vs (vreg c)\<rparr>));
      put = (\<lambda>f. out (map f [0..<sz + 1]));
      run = (\<lambda>op. unit0A_vfpu E op rega regb regc sz opc c)
    in run AX_EXE_VFPU_VFADD = put (\<lambda>i. f32_add E (x i) (y i)) \<and>
       run AX_EXE_VFPU_VFSUB = put (\<lambda>i. f32_sub E (x i) (y i)) \<and>
       run AX_EXE_VFPU_VFMUL = put (\<lambda>i. f32_mul E (x i) (y i)) \<and>
       run AX_EXE_VFPU_VFMULADD = put (\<lambda>i. f32_mul E (a i) (f32_add E (x i) (y i))) \<and>
       run AX_EXE_VFPU_VFMULSUB = put (\<lambda>i. f32_mul E (a i) (f32_sub E (x i) (y i))) \<and>
       run AX_EXE_VFPU_VFADDS = put (\<lambda>i. f32_add E (x i) s) \<and>
       run AX_EXE_VFPU_VFSUBS = put (\<lambda>i. f32_sub E (x i) s) \<and>
       run AX_EXE_VFPU_VFMULS = put (\<lambda>i. f32_mul E (x i) s) \<and>
       run AX_EXE_VFPU_VFMULADDS = put (\<lambda>i. f32_mul E (a i) (f32_add E (x i) s)) \<and>
       run AX_EXE_VFPU_VFMULSUBS = put (\<lambda>i. f32_mul E (a i) (f32_sub E (x i) s)) \<and>
       run AX_EXE_VFPU_VFMOVE = put x \<and>
       run AX_EXE_VFPU_VFMOVEI = put (\<lambda>i. f32_sub E (a 0) imm) \<and>
       run AX_EXE_VFPU_VFNEG = put (\<lambda>i. f32_neg (x i)) \<and>
       run AX_EXE_VFPU_VFABS = put (\<lambda>i. if f32_lt (x i) 0 then f32_neg (x i) else a i) \<and>
       run AX_EXE_VFPU_VFTOI = put (\<lambda>i. i32_to_f32 (x i)) \<and>
       run AX_EXE_VFPU_VITOF = res_bind (lane_values (\<lambda>i. f32_to_i32 (x i)) (sz + 1)) out)"
proof -
  have len: "length (vreg c) = 256" using assms(1) by (simp add: wf_core_def core_sizes)
  note lane = lanes_vreg [OF _ assms(5,2) len]
  note same = same_lane_regs [OF _ assms(2)] same_lane_regs [OF _ assms(3)] same_lane_regs [OF _ assms(4)]
  have itof: "unit0A_vfpu E AX_EXE_VFPU_VITOF rega regb regc sz opc c =
    res_bind (lane_values (\<lambda>i. f32_to_i32 (vreg c ! (regb * 4 + i))) (sz + 1))
      (\<lambda>vs. Ok (c\<lparr>vreg := splice (rega * 4) vs (vreg c)\<rparr>))"
    using fold_res_lanes [where g = "\<lambda>i d. f32_to_i32 (vreg d ! (regb * 4 + i))" and n = "sz + 1" and c = c and rega = rega]
      assms(2,5) len same by (simp del: upt_Suc)
  show ?thesis unfolding Let_def
    by (intro conjI; (rule itof)?; simp only: unit0A_vfpu_def vfpu_arith.simps if_True if_False unit0A_vfpu_arith.simps
        unit0A_vfpu_move.simps Let_def vfabs_lanes; subst lane; simp add: same)
qed

section \<open>Comparisons and branches\<close>

text \<open>
  C21. Where a branch goes after \<open>FCMP\<close> of two finite numbers \<open>x\<close> and \<open>y\<close>, which are compared by the sign of
  their rounded difference: \<open>BEQ\<close>, \<open>BNE\<close>, \<open>BGE\<close> and \<open>BGES\<close> agree with the exact values, those of
  subnormal numbers included: the VM compares them as the floats of the host do, a subnormal number is not
  equal to zero here, although \<open>README.md\<close> says of the processor that such numbers are equal to zero. \<open>BLE\<close> and \<open>BLES\<close> are taken on \<open><\<close> only, \<open>BL\<close> and
  \<open>BLS\<close> never, \<open>BG\<close> and \<open>BGS\<close> on equality.
\<close>
theorem float_branch_after_compare:
  assumes "f32_finite (vreg c ! (rega * 4 + sz))" and "f32_finite (vreg c ! (regb * 4 + lane_id opc))"
  shows "\<exists>d. unit0A_cmp E AX_EXE_CMP_FCMP rega regb sz opc c = Ok d \<and>
    (let t = (\<lambda>b. pc (take_branch b im d)); go = (\<lambda>p. if p then pc c + im else pc c);
         x = vreg c ! (rega * 4 + sz); y = vreg c ! (regb * 4 + lane_id opc)
     in t AX_EXE_BRU_BEQ = go (f32_eq x y) \<and> t AX_EXE_BRU_BNE = go (\<not> f32_eq x y) \<and>
        t AX_EXE_BRU_BGE = go (\<not> f32_lt x y) \<and> t AX_EXE_BRU_BGES = go (\<not> f32_lt x y) \<and>
        t AX_EXE_BRU_BLE = go (f32_lt x y) \<and> t AX_EXE_BRU_BLES = go (f32_lt x y) \<and>
        t AX_EXE_BRU_BL = pc c \<and> t AX_EXE_BRU_BLS = pc c \<and>
        t AX_EXE_BRU_BG = go (f32_eq x y) \<and> t AX_EXE_BRU_BGS = go (f32_eq x y))"
proof -
  have lt_ne: "f32_lt a b \<Longrightarrow> \<not> f32_eq a b" for a b
  proof -
    assume "f32_lt a b"
    then show "\<not> f32_eq a b" unfolding f32_lt_def f32_eq_def
      by (cases "unpack32 a"; cases "unpack32 b") auto
  qed
  show ?thesis using lt_ne [of "vreg c ! (rega * 4 + sz)" "vreg c ! (regb * 4 + lane_id opc)"]
    by (auto simp: Let_def float_flags_def f32_sub_compare_0 [OF assms, of E])
qed

lemma f32_one_zero:
  "unpack32 0x3F800000 = FFin False (2 ^ 23) (- 23)" "unpack32 0 = FFin False 0 (emin 8 23)"
  by (simp_all add: funpack_def Let_def emin_def)

theorem float_branch_after_compare_witness:
  "\<forall>E. \<exists>d. unit0A_cmp E AX_EXE_CMP_FCMP 1 2 0 0 (set_vreg 4 0x3F800000 demo_core) = Ok d \<and>
     pc (take_branch AX_EXE_BRU_BNE 8 d) = 0x48"
proof
  fix E
  let ?c = "set_vreg 4 0x3F800000 demo_core"
  have v: "vreg ?c ! (1 * 4 + 0) = 0x3F800000" "vreg ?c ! (2 * 4 + lane_id 0) = 0" "pc ?c = 0x40"
    by (simp_all add: set_vreg_def demo_core_def lane_id_def)
  have f: "f32_finite 0x3F800000" "f32_finite 0" "\<not> f32_eq 0x3F800000 0"
    unfolding f32_finite_def f32_eq_def f32_one_zero by (simp_all add: emin_def aligned_def sig_int_def)
  from float_branch_after_compare [of ?c 1 0 2 0 E 8, unfolded v]
  obtain d where "unit0A_cmp E AX_EXE_CMP_FCMP 1 2 0 0 ?c = Ok d"
    "pc (take_branch AX_EXE_BRU_BNE 8 d) = (if \<not> f32_eq 0x3F800000 0 then 0x40 + 8 else 0x40)"
    unfolding Let_def using f by blast
  then show "\<exists>d. unit0A_cmp E AX_EXE_CMP_FCMP 1 2 0 0 ?c = Ok d \<and> pc (take_branch AX_EXE_BRU_BNE 8 d) = 0x48"
    using f(3) by auto
qed

theorem vector_lanes_witness:
  "\<forall>E. unit0A_vfpu E AX_EXE_VFPU_VFMOVE 1 2 0 3 0 demo_core =
     Ok (demo_core\<lparr>vreg := splice (1 * 4) (map (\<lambda>i. vreg demo_core ! (2 * 4 + i)) [0..<3 + 1]) (vreg demo_core)\<rparr>)"
proof
  fix E :: fenv
  have "(1 :: nat) < 64" "(2 :: nat) < 64" "(0 :: nat) < 64" "(3 :: nat) < 4" by simp_all
  from vector_lanes [OF wf_demo_core this, where E = E and opc = 0] show "unit0A_vfpu E AX_EXE_VFPU_VFMOVE 1 2 0 3 0 demo_core =
      Ok (demo_core\<lparr>vreg := splice (1 * 4) (map (\<lambda>i. vreg demo_core ! (2 * 4 + i)) [0..<3 + 1]) (vreg demo_core)\<rparr>)"
    unfolding Let_def by blast
qed

end
