(* ===== verification/AX_Efu.thy ===== *)
theory AX_Efu
  imports AX_Vfpu
begin

text \<open>
  \<open>AX_execute_unit1A\<close>: the elementary-function unit and the double-precision unit, and the whole
  function with its LSU cases. No code of the repository calls it (the second slot has a slot of
  its own, \<open>AX_execute_unit1\<close>), which is why these units are reached by no program.
  \<open>sin\<close>, \<open>atan\<close>, \<open>atan2\<close> and \<open>expf\<close> are the fields of \<open>fenv\<close>; \<open>sqrtf\<close>, \<open>sqrt\<close>, \<open>fmin\<close> and
  \<open>fmax\<close> are defined by IEEE 754 and C.
\<close>

datatype efu_op =
    AX_EXE_EFU_FDIV | AX_EXE_EFU_FSQRT | AX_EXE_EFU_DDIV | AX_EXE_EFU_DSQRT
  | AX_EXE_EFU_FATAN | AX_EXE_EFU_FATAN2 | AX_EXE_EFU_FEXP | AX_EXE_UNKNOWN0
  | AX_EXE_EFU_FSUM | AX_EXE_EFU_FIPR | AX_EXE_EFU_FSIN | AX_EXE_EFU_DSIN
  | AX_EXE_UNKNOWN26 | AX_EXE_UNKNOWN27 | AX_EXE_UNKNOWN28 | AX_EXE_UNKNOWN29
  | AX_EXE_FPU_DMOVEI | AX_EXE_FPU_DADD | AX_EXE_FPU_DSUB | AX_EXE_FPU_DMUL
  | AX_EXE_FPU_DABS | AX_EXE_FPU_DNEG | AX_EXE_FPU_DMIN | AX_EXE_FPU_DMAX
  | AX_EXE_FPU_FTOD | AX_EXE_FPU_DTOF | AX_EXE_UNKNOWN32 | AX_EXE_UNKNOWN33
  | AX_EXE_UNKNOWN34 | AX_EXE_UNKNOWN35 | AX_EXE_UNKNOWN36 | AX_EXE_UNKNOWN37

text \<open>The enumeration from \<open>0x60\<close> on, where the header starts again.\<close>

definition efu_ops :: "efu_op list" where
  "efu_ops =
    [AX_EXE_EFU_FDIV, AX_EXE_EFU_FSQRT, AX_EXE_EFU_DDIV, AX_EXE_EFU_DSQRT,
     AX_EXE_EFU_FATAN, AX_EXE_EFU_FATAN2, AX_EXE_EFU_FEXP, AX_EXE_UNKNOWN0,
     AX_EXE_EFU_FSUM, AX_EXE_EFU_FIPR, AX_EXE_EFU_FSIN, AX_EXE_EFU_DSIN,
     AX_EXE_UNKNOWN26, AX_EXE_UNKNOWN27, AX_EXE_UNKNOWN28, AX_EXE_UNKNOWN29,
     AX_EXE_FPU_DMOVEI, AX_EXE_FPU_DADD, AX_EXE_FPU_DSUB, AX_EXE_FPU_DMUL,
     AX_EXE_FPU_DABS, AX_EXE_FPU_DNEG, AX_EXE_FPU_DMIN, AX_EXE_FPU_DMAX,
     AX_EXE_FPU_FTOD, AX_EXE_FPU_DTOF, AX_EXE_UNKNOWN32, AX_EXE_UNKNOWN33,
     AX_EXE_UNKNOWN34, AX_EXE_UNKNOWN35, AX_EXE_UNKNOWN36, AX_EXE_UNKNOWN37]"

text \<open>
  The EFU and FPU-D cases. \<open>FIPR\<close> runs its loop from a counter that nothing has set. A double
  register \<open>r\<close> is element \<open>2 r\<close> of \<open>dreg\<close>.
\<close>

fun unit1A_efu ::
    "fenv \<Rightarrow> efu_op \<Rightarrow> nat \<Rightarrow> nat \<Rightarrow> nat \<Rightarrow> nat \<Rightarrow> u32 \<Rightarrow> Core \<Rightarrow> Core res" where
  "unit1A_efu E AX_EXE_EFU_FDIV rega regb regc sz opcode core =
     Ok (set_vreg (rega * 4)
       (f32_div E (vreg core ! (regb * 4 + sz)) (vreg core ! (regc * 4 + lane_id opcode))) core)"
| "unit1A_efu E AX_EXE_EFU_FSQRT rega regb regc sz opcode core =
     Ok (set_vreg (rega * 4) (f32_sqrt E (vreg core ! (regb * 4 + sz))) core)"
| "unit1A_efu E AX_EXE_EFU_FSUM rega regb regc sz opcode core =
     Ok (set_vreg (rega * 4)
       (f32_add E
         (f32_add E
           (f32_add E (vreg core ! (regb * 4 + 0)) (vreg core ! (regb * 4 + 1)))
           (vreg core ! (regb * 4 + 2)))
         (vreg core ! (regb * 4 + 3))) core)"
| "unit1A_efu E AX_EXE_EFU_FIPR rega regb regc sz opcode core = Fault Uninit"
| "unit1A_efu E AX_EXE_EFU_FSIN rega regb regc sz opcode core =
     Ok (set_vreg (rega * 4)
       (f64_to_f32 E (libm_sin E (f32_to_f64 E (vreg core ! (regb * 4 + sz))))) core)"
| "unit1A_efu E AX_EXE_EFU_FATAN rega regb regc sz opcode core =
     Ok (set_vreg (rega * 4)
       (f64_to_f32 E (libm_atan E (f32_to_f64 E (vreg core ! (regb * 4 + sz))))) core)"
| "unit1A_efu E AX_EXE_EFU_FATAN2 rega regb regc sz opcode core =
     Ok (set_vreg (rega * 4)
       (f64_to_f32 E (libm_atan2 E (f32_to_f64 E (vreg core ! (regb * 4 + sz)))
                        (f32_to_f64 E (vreg core ! (regc * 4 + lane_id opcode))))) core)"
| "unit1A_efu E AX_EXE_EFU_FEXP rega regb regc sz opcode core =
     Ok (set_vreg (rega * 4) (libm_expf E (vreg core ! (regb * 4 + sz))) core)"
| "unit1A_efu E AX_EXE_EFU_DDIV rega regb regc sz opcode core =
     Ok (set_dreg (rega * 2) (f64_div E (dreg core (regb * 2)) (dreg core (regc * 2))) core)"
| "unit1A_efu E AX_EXE_EFU_DSQRT rega regb regc sz opcode core =
     Ok (set_dreg (rega * 2) (f64_sqrt E (dreg core (regb * 2))) core)"
| "unit1A_efu E AX_EXE_EFU_DSIN rega regb regc sz opcode core =
     Ok (set_dreg (rega * 2) (libm_sin E (dreg core (regb * 2))) core)"
| "unit1A_efu E _ rega regb regc sz opcode core = Ok core"

fun unit1A_fpud ::
    "fenv \<Rightarrow> efu_op \<Rightarrow> nat \<Rightarrow> nat \<Rightarrow> nat \<Rightarrow> nat \<Rightarrow> u32 \<Rightarrow> Core \<Rightarrow> Core res" where
  "unit1A_fpud E AX_EXE_FPU_DMOVEI rega regb regc sz opcode core =
     Ok (set_dreg (rega * 2) (f32_to_f64 E (HalftoFloat (imm16w opcode))) core)"
| "unit1A_fpud E AX_EXE_FPU_DADD rega regb regc sz opcode core =
     Ok (set_dreg (rega * 2) (f64_add E (dreg core (regb * 2)) (dreg core (regc * 2))) core)"
| "unit1A_fpud E AX_EXE_FPU_DSUB rega regb regc sz opcode core =
     Ok (set_dreg (rega * 2) (f64_sub E (dreg core (regb * 2)) (dreg core (regc * 2))) core)"
| "unit1A_fpud E AX_EXE_FPU_DMUL rega regb regc sz opcode core =
     Ok (set_dreg (rega * 2) (f64_mul E (dreg core (regb * 2)) (dreg core (regc * 2))) core)"
| "unit1A_fpud E AX_EXE_FPU_DABS rega regb regc sz opcode core =
     Ok (if f64_lt (dreg core (regb * 2)) 0
         then set_dreg (rega * 2) (dreg core (regb * 2)) core else core)"
| "unit1A_fpud E AX_EXE_FPU_DNEG rega regb regc sz opcode core =
     Ok (set_dreg (rega * 2) (f64_neg (dreg core (regb * 2))) core)"
| "unit1A_fpud E AX_EXE_FPU_DMIN rega regb regc sz opcode core =
     Ok (set_dreg (rega * 2) (f64_fmin (dreg core (regb * 2)) (dreg core (regc * 2))) core)"
| "unit1A_fpud E AX_EXE_FPU_DMAX rega regb regc sz opcode core =
     Ok (set_dreg (rega * 2) (f64_fmax (dreg core (regb * 2)) (dreg core (regc * 2))) core)"
| "unit1A_fpud E AX_EXE_FPU_DTOF rega regb regc sz opcode core =
     Ok (set_dreg (rega * 2) (f32_to_f64 E (vreg core ! (regb * 4))) core)"
| "unit1A_fpud E AX_EXE_FPU_FTOD rega regb regc sz opcode core =
     Ok (set_vreg (rega * 4) (f64_to_f32 E (dreg core (regb * 2))) core)"
| "unit1A_fpud E _ rega regb regc sz opcode core = Ok core"

text \<open>The whole \<open>switch\<close>: LSU codes from \<open>0x20\<close>, EFU codes from \<open>0x60\<close>, FPU-D codes from \<open>0x70\<close>.\<close>

definition AX_execute_unit1A ::
    "fenv \<Rightarrow> nat \<Rightarrow> nat \<Rightarrow> nat \<Rightarrow> nat \<Rightarrow> nat \<Rightarrow> u32 \<Rightarrow> Core \<Rightarrow> Core res" where
  "AX_execute_unit1A E rega regb regc unit sz opcode core =
     (if 0x20 \<le> unit \<and> unit < 0x30
      then unit1A_lsu (lsu_ops ! (unit - 0x20)) rega regb regc sz opcode core
      else if 0x60 \<le> unit \<and> unit < 0x70
      then unit1A_efu E (efu_ops ! (unit - 0x60)) rega regb regc sz opcode core
      else if 0x70 \<le> unit \<and> unit < 0x80
      then unit1A_fpud E (efu_ops ! (unit - 0x60)) rega regb regc sz opcode core
      else Ok core)"

lemma unit1A_efu_keeps: "unit1A_efu E op rega regb regc sz opc c = Ok c' \<Longrightarrow> core_keeps c c'"
  by (cases op) (auto split: if_splits)

lemma unit1A_fpud_keeps: "unit1A_fpud E op rega regb regc sz opc c = Ok c' \<Longrightarrow> core_keeps c c'"
  by (cases op) (auto split: if_splits)

lemma AX_execute_unit1A_keeps:
  assumes "AX_execute_unit1A E rega regb regc unit sz opc c = Ok c'"
    and "wf_core c" and "rega < 64" and "sz < 4"
  shows "core_keeps c c'"
  using assms by (auto simp: AX_execute_unit1A_def unit1A_lsu_spec split: if_splits
      dest: lsu_keeps unit1A_efu_keeps unit1A_fpud_keeps)

text \<open>
  Double registers do not overlap: element \<open>2 r\<close> of \<open>dreg\<close> is the first half of the 128-bit
  register \<open>r\<close>.
\<close>

lemma dreg_set_dreg_reg:
  "wf_core c \<Longrightarrow> r < 64 \<Longrightarrow> s < 64 \<Longrightarrow>
   dreg (set_dreg (r * 2) v c) (s * 2) = (if r = s then v else dreg c (s * 2))"
  by (subst dreg_set_dreg) (auto simp: wf_core_def core_sizes)

end
