(* ===== verification/AX_Exec.thy ===== *)
theory AX_Exec
  imports AX_Efu
begin

text \<open>
  Decoding and executing a bundle: the dispatch of \<open>AX_execute_unit0\<close>, \<open>AX_execute_unit0A\<close> and
  \<open>AX_execute_unit1\<close> on the unit number, and \<open>AX_decode_execute\<close>, one step of the VM.
\<close>

section \<open>Unit numbers\<close>

text \<open>
  The 128 values of the 7-bit field, as the enumeration of \<open>vm.h\<close> lays them out for the first slot
  (\<open>0x30 .. 0x3F\<close> name nothing) and, from \<open>0x60\<close> on, again for the second.
\<close>

datatype slot0 =
    S_ALU alu_op | S_LSU lsu_op | S_CMP cmp_op | S_OTHER other_op | S_BRU bru_op | S_VFPU vfpu_op

datatype slot1 = T_ALU alu_op | T_LSU lsu_op | T_EFU efu_op

definition decode0 :: "nat \<Rightarrow> slot0 option" where
  "decode0 n =
     (if n < 0x20 then Some (S_ALU (alu_ops ! n))
      else if n < 0x30 then Some (S_LSU (lsu_ops ! (n - 0x20)))
      else if n < 0x40 then None
      else if n < 0x48 then Some (S_CMP (cmp_ops ! (n - 0x40)))
      else if n < 0x4C then Some (S_OTHER (other_ops ! (n - 0x48)))
      else if n < 0x60 then Some (S_BRU (bru_ops ! (n - 0x4C)))
      else if n < 0x80 then Some (S_VFPU (vfpu_ops ! (n - 0x60)))
      else None)"

definition decode1 :: "nat \<Rightarrow> slot1 option" where
  "decode1 n =
     (if n < 0x20 then Some (T_ALU (alu_ops ! n))
      else if n < 0x30 then Some (T_LSU (lsu_ops ! (n - 0x20)))
      else if 0x60 \<le> n \<and> n < 0x80 then Some (T_EFU (efu_ops ! (n - 0x60)))
      else None)"

section \<open>The slots\<close>

definition AX_execute_unit0A ::
    "fenv \<Rightarrow> nat \<Rightarrow> nat \<Rightarrow> nat \<Rightarrow> nat \<Rightarrow> nat \<Rightarrow> u32 \<Rightarrow> Core \<Rightarrow> Core res" where
  "AX_execute_unit0A E rega regb regc unit sz opcode core =
     (case decode0 unit of
        Some (S_ALU op) \<Rightarrow> unit0A_move op rega regb core
      | Some (S_LSU op) \<Rightarrow> unit0A_lsu op rega regb regc sz opcode core
      | Some (S_CMP op) \<Rightarrow> unit0A_cmp E op rega regb sz opcode core
      | Some (S_OTHER op) \<Rightarrow> Ok (unit0A_other op core)
      | Some (S_BRU b) \<Rightarrow> Ok (if bru_in_unit0 b then core else unit0A_bru unit core)
      | Some (S_VFPU op) \<Rightarrow> unit0A_vfpu E op rega regb regc sz opcode core
      | None \<Rightarrow> Ok core)"

definition AX_execute_unit0 ::
    "fenv \<Rightarrow> nat \<Rightarrow> nat \<Rightarrow> nat \<Rightarrow> nat \<Rightarrow> nat \<Rightarrow> u32 \<Rightarrow> Core \<Rightarrow> Core res" where
  "AX_execute_unit0 E rega regb regc unit sz opcode core =
     (case decode0 unit of
        Some (S_ALU op) \<Rightarrow>
          if alu_in_unit0 op then unit0_alu op rega regb regc sz opcode core
          else AX_execute_unit0A E rega regb regc unit sz opcode core
      | Some (S_CMP op) \<Rightarrow>
          if cmp_in_unit0 op then unit0_cmp op rega regb sz opcode core
          else AX_execute_unit0A E rega regb regc unit sz opcode core
      | Some (S_BRU b) \<Rightarrow>
          if bru_in_unit0 b then Ok (unit0_bru b unit opcode core)
          else AX_execute_unit0A E rega regb regc unit sz opcode core
      | _ \<Rightarrow> AX_execute_unit0A E rega regb regc unit sz opcode core)"

definition AX_execute_unit1 ::
    "nat \<Rightarrow> nat \<Rightarrow> nat \<Rightarrow> nat \<Rightarrow> nat \<Rightarrow> u32 \<Rightarrow> Core \<Rightarrow> Core res" where
  "AX_execute_unit1 rega regb regc unit sz opcode core =
     (case decode1 unit of
        Some (T_ALU op) \<Rightarrow> unit1_alu op rega regb regc sz opcode core
      | _ \<Rightarrow> Ok core)"

section \<open>A step\<close>

text \<open>\<open>core->wram[i]\<close>: a word of the block of \<open>WRAM\<close>; the index is a \<open>uint32_t\<close>.\<close>

definition fetch_word :: "Core \<Rightarrow> u32 \<Rightarrow> u32 res" where
  "fetch_word core i = res_bind (mem_read WRAM core (4 * unat i) 4) (\<lambda>bs. Ok (of_bytes bs))"

definition exec0 :: "fenv \<Rightarrow> u32 \<Rightarrow> Core \<Rightarrow> Core res" where
  "exec0 E opcode =
     AX_execute_unit0 E (op_rega opcode) (op_regb opcode) (op_regc opcode) (op_unit opcode)
       (op_size opcode) opcode"

definition exec1 :: "u32 \<Rightarrow> Core \<Rightarrow> Core res" where
  "exec1 opcode =
     AX_execute_unit1 (op_rega opcode) (op_regb opcode) (op_regc opcode) (op_unit opcode)
       (op_size opcode) opcode"

text \<open>The second half of the step: the second word is read at \<open>pc + 1\<close>.\<close>

definition second_slot :: "u32 \<Rightarrow> Core \<Rightarrow> Core res" where
  "second_slot opcode core =
     (if opcode AND 1 \<noteq> 0 then
        let core1 = core\<lparr>instruction := instruction core + 1\<rparr>
        in res_bind (fetch_word core1 (pc core1 + 1)) (\<lambda>opcode'.
           exec1 opcode' (core1\<lparr>opcode2 := opcode', pc := pc core1 + 1\<rparr>))
      else Ok core)"

definition AX_decode_execute :: "fenv \<Rightarrow> Core \<Rightarrow> Core res" where
  "AX_decode_execute E core0 =
     (let core = core0\<lparr>cycle := cycle core0 + 1, instruction := instruction core0 + 1\<rparr>
      in res_bind (fetch_word core (pc core)) (\<lambda>opcode.
         let core1 = (if delay core = 1 then executeDelayedInstruction core else core);
             core2 = core1\<lparr>opcode1 := opcode, pc := pc core1 + 1\<rparr>
         in res_bind (exec0 E opcode core2) (second_slot opcode)))"

section \<open>What a step keeps\<close>

lemma AX_execute_unit0A_keeps:
  assumes "AX_execute_unit0A E rega regb regc unit sz opc c = Ok c'"
    and "wf_core c" and "rega < 64" and "sz < 4"
  shows "core_keeps c c'"
  using assms
  by (auto simp: AX_execute_unit0A_def unit0A_lsu_spec split: option.splits slot0.splits if_splits
      dest: lsu_keeps unit0A_move_keeps unit0A_cmp_keeps unit0A_vfpu_keeps)

lemma AX_execute_unit0_keeps:
  assumes "AX_execute_unit0 E rega regb regc unit sz opc c = Ok c'"
    and "wf_core c" and "rega < 64" and "sz < 4"
  shows "core_keeps c c'"
  using assms
  by (auto simp: AX_execute_unit0_def split: option.splits slot0.splits if_splits
      dest: AX_execute_unit0A_keeps unit0_alu_keeps unit0_cmp_keeps)

lemma AX_execute_unit1_keeps:
  "AX_execute_unit1 rega regb regc unit sz opc c = Ok c' \<Longrightarrow> core_keeps c c'"
  by (auto simp: AX_execute_unit1_def split: option.splits slot1.splits dest: unit1_alu_keeps)

lemma core_keeps_wf: "core_keeps c c' \<Longrightarrow> wf_core c \<Longrightarrow> wf_core c'"
  by (simp add: core_keeps_def)

lemma second_slot_keeps: "second_slot opc c = Ok c' \<Longrightarrow> core_keeps c c'"
  by (auto simp: second_slot_def Let_def res_bind_eq_Ok exec1_def split: if_splits
      dest!: AX_execute_unit1_keeps)

lemma AX_decode_execute_keeps:
  assumes step: "AX_decode_execute E c = Ok c'" and wf: "wf_core c"
  shows "core_keeps c c'"
proof -
  let ?c = "c\<lparr>cycle := cycle c + 1, instruction := instruction c + 1\<rparr>"
  let ?d = "if delay ?c = 1 then executeDelayedInstruction ?c else ?c"
  from step obtain opc c2 c3 where c2: "c2 = ?d\<lparr>opcode1 := opc, pc := pc ?d + 1\<rparr>"
    and ex: "exec0 E opc c2 = Ok c3" and snd: "second_slot opc c3 = Ok c'"
    unfolding AX_decode_execute_def Let_def res_bind_eq_Ok by blast
  have k: "core_keeps c c2" unfolding c2 by simp
  then have "wf_core c2" using wf by (rule core_keeps_wf)
  from AX_execute_unit0_keeps [OF ex [unfolded exec0_def] this] have "core_keeps c2 c3" by simp
  with k second_slot_keeps [OF snd] show ?thesis by (blast intro: core_keeps_trans)
qed

section \<open>Control state\<close>

text \<open>
  No instruction of either slot writes the program counter or the pending system call: only a
  delayed branch does. Only \<open>ENDP\<close> writes the error code, and none touches the scoreboard.
\<close>

definition ctl :: "Core \<Rightarrow> u32 \<times> u32 \<times> u8 \<times> u8 list \<times> u8 list \<times> u8" where
  "ctl c = (pc c, error c, syscall c, scoreboard c)"

lemma ctl_update [simp]:
  "ctl (set_ireg i v c) = ctl c" "ctl (set_vreg i w c) = ctl c" "ctl (set_dreg i v c) = ctl c"
  "ctl (set_flags f c) = ctl c" "ctl (emit fmt args c) = ctl c" "ctl (put_flags z s u c) = ctl c"
  "ctl (c\<lparr>lr := a\<rparr>) = ctl c" "ctl (c\<lparr>br := a\<rparr>) = ctl c" "ctl (c\<lparr>flags := f\<rparr>) = ctl c"
  "ctl (c\<lparr>mem := m\<rparr>) = ctl c" "ctl (c\<lparr>delayop := x, delay := y\<rparr>) = ctl c"
  "ctl (c\<lparr>delayop := x, delay := y, imm := a\<rparr>) = ctl c"
  by (simp_all add: ctl_def scoreboard_def set_ireg_def set_vreg_def set_dreg_def set_flags_def put_flags_def)

lemma ctl_reg_poke [simp]: "ctl (reg_poke p bs c) = ctl c"
  by (cases p) (simp_all add: ctl_def scoreboard_def set_ireg_def)

lemma ctl_mem_write: "mem_write r c a bs = Ok c' \<Longrightarrow> ctl c' = ctl c"
  by (auto simp: mem_write_eq_Ok)

lemma ctl_lsu: "lsu_spec op rega regb regc sz opc c = Ok c' \<Longrightarrow> ctl c' = ctl c"
  by (auto simp: lsu_spec_def executeLoad_def executeStore_def AX_IO_Read_def AX_IO_Write_def
      Let_def res_bind_eq_Ok split: if_splits dest!: ctl_mem_write)

lemma ctl_unit0_alu: "unit0_alu op rega regb regc sz opc c = Ok c' \<Longrightarrow> ctl c' = ctl c"
  by (cases op) (auto simp: Let_def res_bind_eq_Ok)

lemma ctl_unit1_alu: "unit1_alu op rega regb regc sz opc c = Ok c' \<Longrightarrow> ctl c' = ctl c"
  by (cases op) (auto simp: Let_def res_bind_eq_Ok)

lemma ctl_unit0_cmp: "unit0_cmp op rega regb sz opc c = Ok c' \<Longrightarrow> ctl c' = ctl c"
  by (cases op) (auto simp: compare_flags_def)

lemma ctl_unit0A_move: "unit0A_move op rega regb c = Ok c' \<Longrightarrow> ctl c' = ctl c"
  by (cases op) (auto simp: Let_def split: if_splits)

lemma ctl_unit0A_cmp: "unit0A_cmp E op rega regb sz opc c = Ok c' \<Longrightarrow> ctl c' = ctl c"
  by (cases op) (auto simp: Let_def float_flags_def double_flags_def)

lemma ctl_fold: "(\<And>i d. ctl (f i d) = ctl d) \<Longrightarrow> ctl (fold f is c) = ctl c"
  by (induction "is" arbitrary: c) simp_all

lemma ctl_lanes [simp]: "ctl (lanes sz k f c) = ctl c"
  by (simp only: lanes_def) (rule ctl_fold, simp)

lemma ctl_unit0A_vfpu: "unit0A_vfpu E op rega regb regc sz opc c = Ok c' \<Longrightarrow> ctl c' = ctl c"
proof (cases op)
  case AX_EXE_VFPU_VITOF
  assume "unit0A_vfpu E op rega regb regc sz opc c = Ok c'"
  then show ?thesis unfolding AX_EXE_VFPU_VITOF unit0A_vfpu_def vfpu_arith.simps if_False unit0A_vfpu_move.simps
    by (rule fold_res_invariant) (auto simp: res_bind_eq_Ok)
qed (auto simp: Let_def ctl_fold simp del: upt_Suc split: if_splits)

lemma decode0_ENDP: "decode0 unit = Some (S_OTHER AX_EXE_OTHER_ENDP) \<longleftrightarrow> unit = 0x48"
proof -
  have "other_ops ! (n - 0x48) = AX_EXE_OTHER_ENDP \<longleftrightarrow> n = 0x48" if "0x48 \<le> n" "n < 0x4C" for n
  proof -
    from that have "n = 0x48 \<or> n = 0x49 \<or> n = 0x4A \<or> n = 0x4B" by linarith
    then show ?thesis by (auto simp: other_ops_def)
  qed
  then show ?thesis by (auto simp: decode0_def)
qed

lemma unit0A_other_ctl: "op \<noteq> AX_EXE_OTHER_ENDP \<Longrightarrow> unit0A_other op c = c"
  by (cases op) simp_all

lemma ctl_unit0A:
  assumes "AX_execute_unit0A E rega regb regc unit sz opc c = Ok c'" and "unit \<noteq> 0x48"
  shows "ctl c' = ctl c"
proof -
  have "decode0 unit \<noteq> Some (S_OTHER AX_EXE_OTHER_ENDP)" using assms(2) by (simp add: decode0_ENDP)
  then show ?thesis
    using assms(1) unfolding AX_execute_unit0A_def unit0A_lsu_spec
    by (auto simp: unit0A_bru_def unit0A_other_ctl split: option.splits slot0.splits if_splits
        dest: ctl_lsu ctl_unit0A_move ctl_unit0A_cmp ctl_unit0A_vfpu)
qed

lemma exec0_ctl:
  assumes "exec0 E opc c = Ok c'" and "op_unit opc \<noteq> 0x48"
  shows "ctl c' = ctl c"
  using assms unfolding exec0_def AX_execute_unit0_def
  by (auto simp: unit0_bru_def Let_def split: option.splits slot0.splits if_splits
      dest: ctl_unit0A ctl_unit0_alu ctl_unit0_cmp)

lemma exec0_ENDP:
  "op_unit opc = 0x48 \<Longrightarrow> exec0 E opc c = Ok (c\<lparr>error := AX_END_OF_CODE\<rparr>)"
  by (simp add: exec0_def AX_execute_unit0_def AX_execute_unit0A_def decode0_def other_ops_def)

lemma exec1_ctl: "exec1 opc c = Ok c' \<Longrightarrow> ctl c' = ctl c"
  unfolding exec1_def AX_execute_unit1_def
  by (auto split: option.splits slot1.splits dest: ctl_unit1_alu)

lemma exec0_pc: "exec0 E opc c = Ok c' \<Longrightarrow> pc c' = pc c \<and> syscall c' = syscall c"
  by (cases "op_unit opc = 0x48") (auto simp: exec0_ENDP ctl_def dest: exec0_ctl)

lemma exec1_pc: "exec1 opc c = Ok c' \<Longrightarrow> pc c' = pc c"
  by (auto simp: ctl_def dest: exec1_ctl)

lemma exec0_busy: "exec0 E opc c = Ok c' \<Longrightarrow> scoreboard c' = scoreboard c"
  by (cases "op_unit opc = 0x48") (auto simp: exec0_ENDP ctl_def scoreboard_def dest: exec0_ctl)

lemma exec1_busy: "exec1 opc c = Ok c' \<Longrightarrow> scoreboard c' = scoreboard c"
  by (auto simp: ctl_def dest: exec1_ctl)

text \<open>The parts of a step, for proofs about one.\<close>

definition step_start :: "Core \<Rightarrow> Core" where
  "step_start c =
     (let d = c\<lparr>cycle := cycle c + 1, instruction := instruction c + 1\<rparr>
      in if delay c = 1 then executeDelayedInstruction d else d)"

lemma decode_execute_parts:
  "AX_decode_execute E c = Ok c' \<longleftrightarrow>
     (\<exists>opc c1. fetch_word c (pc c) = Ok opc \<and>
       exec0 E opc ((step_start c)\<lparr>opcode1 := opc, pc := pc (step_start c) + 1\<rparr>) = Ok c1 \<and>
       second_slot opc c1 = Ok c')"
  by (auto simp: AX_decode_execute_def step_start_def fetch_word_def mem_read_def Let_def res_bind_eq_Ok)

lemma second_slot_parts:
  "second_slot opc c = Ok c' \<longleftrightarrow>
     (if opc AND 1 = 0 then c' = c
      else \<exists>w. fetch_word c (pc c + 1) = Ok w \<and>
        exec1 w (c\<lparr>instruction := instruction c + 1, opcode2 := w, pc := pc c + 1\<rparr>) = Ok c')"
  by (auto simp: second_slot_def Let_def res_bind_eq_Ok fetch_word_def mem_read_def)

lemma step_pc_advance:
  assumes "AX_decode_execute E c = Ok c'" and "fetch_word c (pc c) = Ok opc"
  shows "pc c' = pc (step_start c) + (if opc AND 1 = 0 then 1 else 2)"
  using assms by (auto simp: decode_execute_parts second_slot_parts split: if_splits
      dest!: exec0_pc exec1_pc)

lemma busy_step_start [simp]: "scoreboard (step_start c) = scoreboard c"
proof -
  have "scoreboard (c\<lparr>cycle := x, instruction := y\<rparr>) = scoreboard c" for x y by (simp add: scoreboard_def)
  then show ?thesis by (simp add: step_start_def Let_def)
qed

lemma second_slot_busy: "second_slot opc c = Ok c' \<Longrightarrow> scoreboard c' = scoreboard c"
proof (cases "opc AND 1 = 0")
  case False
  assume "second_slot opc c = Ok c'"
  with False obtain w where "exec1 w (c\<lparr>instruction := instruction c + 1, opcode2 := w, pc := pc c + 1\<rparr>) = Ok c'"
    by (auto simp: second_slot_parts)
  from exec1_busy [OF this] show ?thesis by (simp add: scoreboard_def)
qed (simp add: second_slot_parts)

lemma AX_decode_execute_busy:
  assumes "AX_decode_execute E c = Ok c'"
  shows "scoreboard c' = scoreboard c"
proof -
  obtain opc c1 where "exec0 E opc ((step_start c)\<lparr>opcode1 := opc, pc := pc (step_start c) + 1\<rparr>) = Ok c1"
    and "second_slot opc c1 = Ok c'" using assms by (auto simp: decode_execute_parts)
  from exec0_busy [OF this(1)] second_slot_busy [OF this(2)] have "scoreboard c' = scoreboard (step_start c)"
    by (simp add: scoreboard_def)
  then show ?thesis by simp
qed

lemma step_start_kept [simp]:
  "mem (step_start c) = mem c" "error (step_start c) = error c"
  by (simp_all add: step_start_def Let_def)

lemma pc_step_start [simp]: "delay c \<noteq> 1 \<Longrightarrow> pc (step_start c) = pc c"
  by (simp add: step_start_def Let_def)

section \<open>Programs for the examples\<close>

text \<open>\<open>demo_core\<close> with the words of a program at word address \<open>0x40\<close>, where a core starts.\<close>

definition demo_prog :: "u32 list \<Rightarrow> Core" where
  "demo_prog ws = demo_core\<lparr>mem := (mem demo_core)
     (WRAM := \<lparr>bsize = 0x8000,
        bdata = (\<lambda>i. if 0x100 \<le> i \<and> i < 0x100 + 4 * length ws
                    then bytes_of_words ws ! (i - 0x100) else 0)\<rparr>)\<rparr>"

abbreviation demo_env :: fenv where
  "demo_env \<equiv> sse_env (\<lambda>x. x) (\<lambda>x. x) (\<lambda>x y. x) (\<lambda>x. x)"

lemma fetch_demo_prog:
  assumes "i < length ws" and "length ws < 0x1000"
  shows "fetch_word (demo_prog ws) (0x40 + of_nat i) = Ok (ws ! i)"
proof -
  have "0x40 + i < 2 ^ LENGTH(32)" using assms by simp
  then have "unat (of_nat (0x40 + i) :: u32) = 0x40 + i"
    by (simp only: unsigned_of_nat take_bit_nat_eq_self of_nat_id)
  then have u: "unat (0x40 + of_nat i :: u32) = 0x40 + i" by simp
  have "map (bdata (mem (demo_prog ws) WRAM)) [4 * (0x40 + i)..<4 * (0x40 + i) + 4] = bytes_of 4 (ws ! i)"
  proof (rule nth_equalityI)
    fix j assume "j < length (map (bdata (mem (demo_prog ws) WRAM)) [4 * (0x40 + i)..<4 * (0x40 + i) + 4])"
    then have j: "j < 4" by simp
    have "4 * (0x40 + i) + j - 0x100 = 4 * i + j" by simp
    with j assms(1) show "map (bdata (mem (demo_prog ws) WRAM)) [4 * (0x40 + i)..<4 * (0x40 + i) + 4] ! j = bytes_of 4 (ws ! i) ! j"
      by (simp add: demo_prog_def nth_bytes_of_words del: nth_bytes_of)
  qed simp
  moreover have "bsize (mem (demo_prog ws) WRAM) = 0x8000" by (simp add: demo_prog_def)
  ultimately show ?thesis
    using assms u by (simp add: fetch_word_def mem_read_def rd_block_def)
qed

lemma fetch_demo_prog_numeral:
 "0 < length ws \<Longrightarrow> length ws < 0x1000 \<Longrightarrow> fetch_word (demo_prog ws) 0x40 = Ok (ws ! 0)"
 "1 < length ws \<Longrightarrow> length ws < 0x1000 \<Longrightarrow> fetch_word (demo_prog ws) 0x41 = Ok (ws ! 1)"
 "2 < length ws \<Longrightarrow> length ws < 0x1000 \<Longrightarrow> fetch_word (demo_prog ws) 0x42 = Ok (ws ! 2)"
  using fetch_demo_prog [of 0 ws] fetch_demo_prog [of 1 ws] fetch_demo_prog [of 2 ws] by simp_all

lemma demo_prog_simps [simp]:
 "wf_core (demo_prog ws)" "pc (demo_prog ws) = 0x40" "delay (demo_prog ws) = 0" "error (demo_prog ws) = 0"
 "ireg (demo_prog ws) = replicate 64 0"
 by (simp_all add: demo_prog_def wf_core_def core_sizes demo_core_def)

lemmas demo_step =
  decode_execute_parts second_slot_parts fetch_demo_prog_numeral exec0_def exec1_def
  AX_execute_unit0_def AX_execute_unit0A_def AX_execute_unit1_def decode0_def decode1_def
  op_rega_def op_regb_def op_regc_def op_unit_def op_size_def

lemma step_start_demo [simp]:
  "step_start (demo_prog ws) = (demo_prog ws)\<lparr>cycle := 1, instruction := 1\<rparr>"
  by (simp add: step_start_def demo_prog_def demo_core_def)

section \<open>Properties\<close>

text \<open>
  C33. One step of the VM keeps the registers, tables and scratchpad at their declared sizes, every
  memory block at its size and the memory map; the error code stays or becomes the end-of-code
  value.
\<close>
theorem step_keeps_shape:
  assumes "AX_decode_execute E c = Ok c'" and "wf_core c"
  shows "wf_core c' \<and> mmap c' = mmap c \<and> (\<forall>r. bsize (mem c' r) = bsize (mem c r)) \<and>
    (error c' = error c \<or> error c' = AX_END_OF_CODE)"
  using AX_decode_execute_keeps [OF assms] assms(2) by (simp add: core_keeps_def)

theorem step_keeps_shape_witness:
  "\<exists>d. AX_decode_execute demo_env (demo_prog [0x28B4, 0]) = Ok d \<and> wf_core d \<and> bsize (mem d WRAM) = 0x8000"
proof -
  have "\<exists>d. AX_decode_execute demo_env (demo_prog [0x28B4, 0]) = Ok d"
    by (simp add: demo_step bru_ops_def bru_in_unit0_def)
  then obtain d where d: "AX_decode_execute demo_env (demo_prog [0x28B4, 0]) = Ok d" ..
  have "bsize (mem (demo_prog [0x28B4, 0]) WRAM) = 0x8000" by (simp add: demo_prog_def)
  with step_keeps_shape [OF d] d show ?thesis by simp
qed

text \<open>
  C1. The second word of a bundle. When the first word has its low bit set and no branch is
  pending, the second slot executes the word at \<open>pc + 2\<close>, not the one at \<open>pc + 1\<close> that follows, and
  the step ends at \<open>pc + 2\<close>: the next step fetches the same word again, into the first slot.
\<close>
theorem bundle_second_word:
  assumes "AX_decode_execute E c = Ok c'" and "fetch_word c (pc c) = Ok opc"
    and "opc AND 1 \<noteq> 0" and "delay c \<noteq> 1"
  shows "pc c' = pc c + 2 \<and>
    (\<exists>c1 w. exec0 E opc ((step_start c)\<lparr>opcode1 := opc, pc := pc c + 1\<rparr>) = Ok c1 \<and>
       fetch_word c1 (pc c + 2) = Ok w \<and>
       exec1 w (c1\<lparr>instruction := instruction c1 + 1, opcode2 := w, pc := pc c + 2\<rparr>) = Ok c')"
proof -
  from assms obtain c1 w where ex: "exec0 E opc ((step_start c)\<lparr>opcode1 := opc, pc := pc c + 1\<rparr>) = Ok c1"
    and "fetch_word c1 (pc c1 + 1) = Ok w"
    and "exec1 w (c1\<lparr>instruction := instruction c1 + 1, opcode2 := w, pc := pc c1 + 1\<rparr>) = Ok c'"
    by (auto simp: decode_execute_parts second_slot_parts)
  moreover have "pc c1 = pc c + 1" using exec0_pc [OF ex] by simp
  moreover have "pc c' = pc c + 2" using step_pc_advance [OF assms(1,2)] assms(3,4) by simp
  ultimately show ?thesis by (intro conjI exI [of _ c1] exI [of _ w]) (simp_all add: algebra_simps)
qed

theorem bundle_second_word_witness:
  "\<exists>d. AX_decode_execute demo_env (demo_prog [0x21, 0, 0x20]) = Ok d \<and> pc d = 0x42"
proof -
  let ?p = "demo_prog [0x21, 0, 0x20]"
  have f: "fetch_word ?p (pc ?p) = Ok 0x21" by (simp add: fetch_demo_prog_numeral)
  have "fetch_word (?p\<lparr>cycle := x, instruction := y, opcode1 := z, pc := u, ireg := l\<rparr>) 0x42 = Ok 0x20"
    for x y z u l
    using fetch_demo_prog_numeral(3) [of "[0x21, 0, 0x20]"] by (simp add: fetch_word_def mem_read_def)
  then have "\<exists>d. AX_decode_execute demo_env ?p = Ok d"
    using f by (simp add: demo_step alu_ops_def alu_in_unit0_def set_ireg_def)
  then obtain d where d: "AX_decode_execute demo_env ?p = Ok d" ..
  from bundle_second_word [OF d f] d show ?thesis by simp
qed

text \<open>
  C2. The delay slot. For a word that is not part of a bundle, with no branch pending: a \<open>BRA\<close> or a
  \<open>JUMP\<close> changes nothing but the program counter, and the next step executes the word behind it in the
  first slot, on the registers, flags and memory the branch was executed on, with the program counter
  already moved. That word, not part of a bundle either, is executed before the target of the branch:
  the step after it starts at \<open>pc + 2\<close> plus the sign-extended offset of a \<open>BRA\<close>, and one word behind
  the target of a \<open>JUMP\<close>.
\<close>
theorem branch_delay_slot:
  assumes "AX_decode_execute E c = Ok c1" and "AX_decode_execute E c1 = Ok c2"
    and "fetch_word c (pc c) = Ok opc" and "opc AND 1 = 0" and "delay c \<noteq> 1"
    and "fetch_word c (pc c + 1) = Ok slot" and "slot AND 1 = 0"
    and "op_unit opc = bru_code AX_EXE_BRU_BRA \<or> op_unit opc = bru_code AX_EXE_BRU_JUMP"
  shows "\<exists>s. exec0 E slot s = Ok c2 \<and> opcode1 s = slot \<and> delay s = 0 \<and>
    ireg s = ireg c \<and> vreg s = vreg c \<and> flags s = flags c \<and> mem s = mem c \<and>
    lr s = lr c \<and> br s = br c \<and> error s = error c \<and> syscall s = syscall c \<and>
    pc s = (if op_unit opc = bru_code AX_EXE_BRU_BRA then pc c + 2 + ucast (extendSign (imm22 opc) 22)
      else (drop_bit 10 opc AND 0xFFFFFF) + 1) \<and> pc c2 = pc s"
proof -
  let ?d = "(step_start c)\<lparr>opcode1 := opc, pc := pc c + 1\<rparr>"
  let ?s = "(step_start c1)\<lparr>opcode1 := slot, pc := pc (step_start c1) + 1\<rparr>"
  have ex: "exec0 E opc ?d = Ok c1"
    using assms(1,3,4,5) by (auto simp: decode_execute_parts second_slot_parts)
  have pc1: "pc c1 = pc c + 1" using exec0_pc [OF ex] by simp
  from assms(8) obtain b and n :: nat where b: "b = AX_EXE_BRU_BRA \<and> n = 0x5A \<or> b = AX_EXE_BRU_JUMP \<and> n = 0x5C"
    and u: "op_unit opc = bru_code b" by blast
  then have c1: "c1 = unit0_bru b n opc ?d"
    using ex by (auto simp: exec0_def AX_execute_unit0_def decode0_def bru_ops_def bru_in_unit0_def)
  with b have "mem c1 = mem c" by (auto simp: unit0_bru_def)
  then have "fetch_word c1 (pc c1) = Ok slot"
    using assms(6) pc1 by (simp add: fetch_word_def mem_read_def)
  with assms(2,7) have "exec0 E slot ?s = Ok c2"
    by (auto simp: decode_execute_parts second_slot_parts)
  moreover from exec0_pc [OF this] have "pc c2 = pc ?s" by simp
  moreover from b have "pc ?s = (if op_unit opc = bru_code AX_EXE_BRU_BRA
      then pc c + 2 + ucast (extendSign (imm22 opc) 22) else (drop_bit 10 opc AND 0xFFFFFF) + 1)"
    by (auto simp: u c1 unit0_bru_def step_start_def executeDelayedInstruction_def bru_of_code_def
        bru_ops_def Let_def)
  moreover from b assms(5) have "delay ?s = 0 \<and> ireg ?s = ireg c \<and> vreg ?s = vreg c \<and>
      flags ?s = flags c \<and> mem ?s = mem c \<and> lr ?s = lr c \<and> br ?s = br c \<and> error ?s = error c \<and>
      syscall ?s = syscall c"
    by (auto simp: c1 unit0_bru_def step_start_def executeDelayedInstruction_def bru_of_code_def
        bru_ops_def Let_def)
  ultimately show ?thesis by (intro exI [of _ ?s]) simp
qed

theorem branch_delay_slot_witness:
  "\<exists>c1 c2. AX_decode_execute demo_env (demo_prog [0x28B4, 0]) = Ok c1 \<and>
     AX_decode_execute demo_env c1 = Ok c2 \<and> pc c2 = 0x4C"
proof -
  let ?p = "demo_prog [0x28B4, 0]"
  let ?c = "unit0_bru AX_EXE_BRU_BRA 0x5A 0x28B4
    (?p\<lparr>cycle := 1, instruction := 1, opcode1 := 0x28B4, pc := 0x41\<rparr>)"
  have f: "fetch_word ?p (pc ?p) = Ok 0x28B4" "fetch_word ?p (pc ?p + 1) = Ok 0"
    by (simp_all add: fetch_demo_prog_numeral)
  have c1: "AX_decode_execute demo_env ?p = Ok ?c"
    by (simp add: demo_step bru_ops_def bru_in_unit0_def)
  have "fetch_word ?c 0x41 = Ok 0"
    using f(2) by (simp add: fetch_word_def mem_read_def unit0_bru_def)
  moreover have "pc ?c = 0x41" by (simp add: unit0_bru_def)
  ultimately have "\<exists>c2. AX_decode_execute demo_env ?c = Ok c2"
    by (simp add: decode_execute_parts second_slot_parts exec0_def AX_execute_unit0_def decode0_def
        op_unit_def alu_ops_def alu_in_unit0_def)
  then obtain c2 where c2: "AX_decode_execute demo_env ?c = Ok c2" ..
  have "pc c2 = 0x4C"
    using branch_delay_slot [OF c1 c2 f(1) _ _ f(2)]
    by (auto simp: op_unit_def imm22_def extendSign_def)
  with c1 c2 show ?thesis by blast
qed

text \<open>
  C32. The second slot is an integer slot: whatever its word asks for, it writes no memory, no vector
  register, no branch state and no error code; loads, stores and floating-point words do nothing.
\<close>
theorem second_slot_only_alu:
  assumes "second_slot opc c = Ok c'"
  shows "mem c' = mem c \<and> vreg c' = vreg c \<and> error c' = error c \<and> delay c' = delay c \<and>
    lr c' = lr c \<and> br c' = br c \<and> out c' = out c \<and>
    (opc AND 1 \<noteq> 0 \<and> (\<exists>w. fetch_word c (pc c + 1) = Ok w \<and> 0x20 \<le> op_unit w) \<longrightarrow>
      ireg c' = ireg c \<and> flags c' = flags c)"
proof -
  have alu: "mem d' = mem d \<and> vreg d' = vreg d \<and> error d' = error d \<and> delay d' = delay d \<and>
      lr d' = lr d \<and> br d' = br d \<and> out d' = out d"
    if "unit1_alu op rega regb regc sz w d = Ok d'" for op rega regb regc sz w d d'
    using that by (cases op) (auto simp: set_ireg_def set_flags_def Let_def res_bind_eq_Ok)
  show ?thesis
    using assms
    by (auto simp: second_slot_parts exec1_def AX_execute_unit1_def decode1_def
        split: if_splits option.splits slot1.splits dest!: alu)
qed

theorem second_slot_only_alu_witness:
  "\<exists>d. second_slot 1 (demo_prog [0, 0x42]) = Ok d \<and> mem d = mem (demo_prog [0, 0x42]) \<and>
     ireg d = replicate 64 0"
proof -
  let ?p = "demo_prog [0, 0x42]"
  have f: "fetch_word ?p (pc ?p + 1) = Ok 0x42" by (simp add: fetch_demo_prog_numeral)
  then have "\<exists>d. second_slot 1 ?p = Ok d"
    by (simp add: second_slot_parts exec1_def AX_execute_unit1_def decode1_def op_unit_def)
  then obtain d where d: "second_slot 1 ?p = Ok d" ..
  have "0x20 \<le> op_unit 0x42" by (simp add: op_unit_def)
  with second_slot_only_alu [OF d] d f show ?thesis by auto
qed

text \<open>
  C30. The error code. A step from a core without error sets it exactly when the first word of the
  bundle is \<open>ENDP\<close>; no other instruction, in either slot, ends a run.
\<close>
theorem error_only_endp:
  assumes "AX_decode_execute E c = Ok c'" and "fetch_word c (pc c) = Ok opc" and "error c = 0"
  shows "error c' \<noteq> 0 \<longleftrightarrow> op_unit opc = 0x48"
proof -
  let ?d = "(step_start c)\<lparr>opcode1 := opc, pc := pc (step_start c) + 1\<rparr>"
  obtain c1 where c1: "exec0 E opc ?d = Ok c1" and "second_slot opc c1 = Ok c'"
    using assms(1,2) by (auto simp: decode_execute_parts)
  then have "error c' = error c1"
    by (auto simp: second_slot_parts ctl_def split: if_splits dest!: exec1_ctl)
  moreover have "error c1 = (if op_unit opc = 0x48 then AX_END_OF_CODE else 0)"
    using exec0_ctl [OF c1] exec0_ENDP [of opc E ?d] c1 assms(3)
    by (cases "op_unit opc = 0x48") (auto simp: ctl_def)
  ultimately show ?thesis by (simp add: AX_END_OF_CODE_def)
qed

theorem error_only_endp_witness:
  "\<exists>d. AX_decode_execute demo_env (demo_prog [0x90]) = Ok d \<and> error d \<noteq> 0"
proof -
  let ?p = "demo_prog [0x90]"
  have f: "fetch_word ?p (pc ?p) = Ok 0x90" by (simp add: fetch_demo_prog_numeral)
  then have "\<exists>d. AX_decode_execute demo_env ?p = Ok d"
    by (simp add: demo_step other_ops_def)
  then obtain d where d: "AX_decode_execute demo_env ?p = Ok d" ..
  from error_only_endp [OF d f] d show ?thesis by (simp add: op_unit_def)
qed

end
