(* ===== verification/AX_Debug.thy ===== *)
theory AX_Debug
  imports AX_Exec
begin

text \<open>
  The disassembler of the debug mode (\<open>debug.c\<close>): for every operation the format and the operands
  that \<open>AX_debug_core0\<close> (first slot) and \<open>AX_debug_core1\<close> (second slot) print, and \<open>AX_debug\<close>,
  which prints one line for a bundle. A call of \<open>printf\<close> with a conversion that has no argument
  of its kind is a fault.
\<close>

text \<open>The operands the formats name: locals of the functions, and \<open>core->imm\<close>.\<close>

datatype dbg_arg = RegA | RegB | RegC | Imm9 | Imm10 | Imm16 | Imm18 | ImmF | CoreImm

type_synonym dbg_line = "string \<times> dbg_arg list"

fun dbg_value :: "fenv \<Rightarrow> Core \<Rightarrow> u32 \<Rightarrow> dbg_arg \<Rightarrow> parg" where
  "dbg_value E core opcode RegA = PInt (of_nat (op_rega opcode))"
| "dbg_value E core opcode RegB = PInt (of_nat (op_regb opcode))"
| "dbg_value E core opcode RegC = PInt (of_nat (op_regc opcode))"
| "dbg_value E core opcode Imm9 = PInt (ucast (drop_bit 11 opcode AND 0x1FF))"
| "dbg_value E core opcode Imm10 = PInt (ucast (imm10 opcode))"
| "dbg_value E core opcode Imm16 = PInt (imm16 opcode)"
| "dbg_value E core opcode Imm18 = PInt (imm18 opcode)"
| "dbg_value E core opcode ImmF = PDouble (f32_to_f64 E (HalftoFloat (imm16w opcode)))"
| "dbg_value E core opcode CoreImm = PInt (ucast (imm core))"

definition dbg_print :: "fenv \<Rightarrow> u32 \<Rightarrow> dbg_line option \<Rightarrow> Core \<Rightarrow> Core res" where
  "dbg_print E opcode line core =
     (case line of
        None \<Rightarrow> Ok core
      | Some (fmt, args) \<Rightarrow> c_printf fmt (map (dbg_value E core opcode) args) core)"

section \<open>The first slot\<close>

fun debug0_alu :: "alu_op \<Rightarrow> dbg_line option" where
  "debug0_alu AX_EXE_ALU_NOP = Some (''NOP'', [])"
| "debug0_alu AX_EXE_ALU_SEXT = Some (''SEXT R%d,R%d'', [RegA, RegB])"
| "debug0_alu AX_EXE_ALU_BOOL = Some (''BOOL R%d,R%d'', [RegA, RegB])"
| "debug0_alu AX_EXE_ALU_SMOVE = Some (''SMOVE R%d,%d'', [RegA, Imm16])"
| "debug0_alu AX_EXE_ALU_SLTS = Some (''SLTS R%d,R%d,R%d'', [RegA, RegB, RegC])"
| "debug0_alu AX_EXE_ALU_SLTU = Some (''SLTU R%d,R%d,R%d'', [RegA, RegB, RegC])"
| "debug0_alu AX_EXE_ALU_SLTSI = Some (''SLTSI R%d,R%d,%d'', [RegA, RegB, Imm10])"
| "debug0_alu AX_EXE_ALU_SLTUI = Some (''SLTUI R%d,R%d,%d'', [RegA, RegB, Imm10])"
| "debug0_alu AX_EXE_ALU_MOVEN = Some (''MOVEN R%d,%d'', [RegA, Imm18])"
| "debug0_alu AX_EXE_ALU_MOVEU = Some (''MOVEU R%d,%d'', [RegA, Imm18])"
| "debug0_alu AX_EXE_ALU_ADD = Some (''ADD R%d,R%d,R%d (%d)'', [RegA, RegB, RegC, Imm9])"
| "debug0_alu AX_EXE_ALU_SUB = Some (''SUB R%d,R%d,R%d (%d)'', [RegA, RegB, RegC, Imm9])"
| "debug0_alu AX_EXE_ALU_XOR = Some (''XOR R%d,R%d,R%d (%d)'', [RegA, RegB, RegC, Imm9])"
| "debug0_alu AX_EXE_ALU_OR = Some (''OR R%d,R%d,R%d (%d)'', [RegA, RegB, RegC, Imm9])"
| "debug0_alu AX_EXE_ALU_AND = Some (''AND R%d,R%d,R%d (%d)'', [RegA, RegB, RegC, Imm9])"
| "debug0_alu AX_EXE_ALU_LSL = Some (''LSL R%d,R%d,R%d (%d)'', [RegA, RegB, RegC, Imm9])"
| "debug0_alu AX_EXE_ALU_ASR = Some (''ASR R%d,R%d,R%d (%d)'', [RegA, RegB, RegC, Imm9])"
| "debug0_alu AX_EXE_ALU_LSR = Some (''LSR R%d,R%d,R%d (%d)'', [RegA, RegB, RegC, Imm9])"
| "debug0_alu AX_EXE_ALU_MUL = Some (''MUL R%d,R%d,R%d (%d)'', [RegA, RegB, RegC, Imm9])"
| "debug0_alu AX_EXE_ALU_DIVS = Some (''DIVS R%d,R%d,R%d (%d)'', [RegA, RegB, RegC, Imm9])"
| "debug0_alu AX_EXE_ALU_DIVU = Some (''DIVU R%d,R%d,R%d (%d)'', [RegA, RegB, RegC, Imm9])"
| "debug0_alu AX_EXE_ALU_REMS = Some (''REMS R%d,R%d,R%d (%d)'', [RegA, RegB, RegC, Imm9])"
| "debug0_alu AX_EXE_ALU_REMU = Some (''REMU R%d,R%d,R%d (%d)'', [RegA, RegB, RegC, Imm9])"
| "debug0_alu AX_EXE_ALU_MOVEINS = Some (''MOVEINS R%d'', [RegA])"
| "debug0_alu AX_EXE_ALU_MOVECYCLE = Some (''MOVECYCLE R%d'', [RegA])"
| "debug0_alu AX_EXE_ALU_MOVERI = Some (''MOVERI R%d,R%d'', [RegA, RegB])"
| "debug0_alu AX_EXE_ALU_MOVEIR = Some (''MOVEIR R%d,R%d'', [RegA, RegB])"
| "debug0_alu _ = None"

fun debug0_cmp :: "cmp_op \<Rightarrow> dbg_line option" where
  "debug0_cmp AX_EXE_CMP_CMP = Some (''CMP R%d,R%d'', [RegA, RegB])"
| "debug0_cmp AX_EXE_CMP_CMPN = Some (''CMPN R%d,%d'', [RegA, Imm18])"
| "debug0_cmp AX_EXE_CMP_CMPU = Some (''CMPU R%d,%d'', [RegA, Imm18])"
| "debug0_cmp AX_EXE_CMP_CMPFR = Some (''CMPFR R%d,%d'', [RegA, Imm16])"
| "debug0_cmp AX_EXE_CMP_FCMP = Some (''FCMP V%d,V%d'', [RegA, RegB])"
| "debug0_cmp AX_EXE_CMP_DCMP = Some (''DCMP V%d,V%d'', [RegA, RegB])"
| "debug0_cmp AX_EXE_CMP_FCMPI = Some (''FCMPI V%d,%f'', [RegA, ImmF])"
| "debug0_cmp AX_EXE_CMP_DCMPI = Some (''DCMPI V%d,%f'', [RegA, ImmF])"

fun debug0_other :: "other_op \<Rightarrow> dbg_line option" where
  "debug0_other AX_EXE_OTHER_WAIT = Some (''WAIT'', [])"
| "debug0_other AX_EXE_OTHER_EXE = Some (''EXE %a'', [RegA])"
| "debug0_other AX_EXE_OTHER_ENDP = Some (''ENDP'', [])"
| "debug0_other _ = None"

fun debug0_bru :: "bru_op \<Rightarrow> dbg_line option" where
  "debug0_bru AX_EXE_BRU_BEQ = Some (''BEQ %d'', [CoreImm])"
| "debug0_bru AX_EXE_BRU_BNE = Some (''BNE %d'', [CoreImm])"
| "debug0_bru AX_EXE_BRU_BLE = Some (''BLE %d'', [CoreImm])"
| "debug0_bru AX_EXE_BRU_BGE = Some (''BGE %d'', [CoreImm])"
| "debug0_bru AX_EXE_BRU_BL = Some (''BL %d'', [CoreImm])"
| "debug0_bru AX_EXE_BRU_BG = Some (''BG %d'', [CoreImm])"
| "debug0_bru AX_EXE_BRU_BLES = Some (''BLES %d'', [CoreImm])"
| "debug0_bru AX_EXE_BRU_BGES = Some (''BGES %d'', [CoreImm])"
| "debug0_bru AX_EXE_BRU_BLS = Some (''BLS %d'', [CoreImm])"
| "debug0_bru AX_EXE_BRU_BGS = Some (''BGS %d'', [CoreImm])"
| "debug0_bru AX_EXE_BRU_BRA = Some (''BRA %d'', [CoreImm])"
| "debug0_bru AX_EXE_BRU_LOOP = Some (''LOOP %d'', [CoreImm])"
| "debug0_bru AX_EXE_BRU_JUMPBR = Some (''JUMPBR %d'', [CoreImm])"
| "debug0_bru AX_EXE_BRU_CALLBR = Some (''CALLBR %d'', [CoreImm])"
| "debug0_bru AX_EXE_BRU_JUMP = Some (''JUMP %d'', [CoreImm])"
| "debug0_bru AX_EXE_BRU_CALL = Some (''CALL %d'', [CoreImm])"
| "debug0_bru AX_EXE_BRU_SYSCALL = Some (''SYSCALL'', [])"
| "debug0_bru AX_EXE_BRU_INT = Some (''INT'', [])"
| "debug0_bru AX_EXE_BRU_RET = Some (''RET'', [])"
| "debug0_bru AX_EXE_BRU_RETI = Some (''RETI'', [])"

fun debug0_lsu :: "lsu_op \<Rightarrow> dbg_line option" where
  "debug0_lsu AX_EXE_LSU_LDL = Some (''LDL R%d,%d'', [RegA, Imm16])"
| "debug0_lsu AX_EXE_LSU_STL = Some (''STL R%d,%d'', [RegA, Imm16])"
| "debug0_lsu AX_EXE_LSU_LDVL = Some (''LDVL R%d,%d'', [RegA, Imm16])"
| "debug0_lsu AX_EXE_LSU_STVL = Some (''STVL R%d,%d'', [RegA, Imm16])"
| "debug0_lsu AX_EXE_LSU_LDL1 = Some (''LDL1 R%d,%d'', [RegA, Imm16])"
| "debug0_lsu AX_EXE_LSU_STL1 = Some (''STL1 R%d,%d'', [RegA, Imm16])"
| "debug0_lsu AX_EXE_LSU_LDVL1 = Some (''LDVL1 R%d,%d'', [RegA, Imm16])"
| "debug0_lsu AX_EXE_LSU_STVL1 = Some (''STVL1 R%d,%d'', [RegA, Imm16])"
| "debug0_lsu AX_EXE_LSU_LD = Some (''LD R%d,R%d[R%d]'', [RegA, RegB, RegC])"
| "debug0_lsu AX_EXE_LSU_ST = Some (''ST R%d,R%d[R%d]'', [RegA, RegB, RegC])"
| "debug0_lsu AX_EXE_LSU_LDV = Some (''LDV R%d,R%d[R%d]'', [RegA, RegB, RegC])"
| "debug0_lsu AX_EXE_LSU_STV = Some (''STV R%d,R%d[R%d]'', [RegA, RegB, RegC])"
| "debug0_lsu AX_EXE_LSU_LDI = Some (''LDI R%d,%d[R%d]'', [RegA, Imm10, RegB])"
| "debug0_lsu AX_EXE_LSU_STI = Some (''STI R%d,%d[R%d]'', [RegA, Imm10, RegB])"
| "debug0_lsu AX_EXE_LSU_LDVI = Some (''LDVI R%d,%d[R%d]'', [RegA, Imm10, RegB])"
| "debug0_lsu AX_EXE_LSU_STVI = Some (''STVI R%d,%d[R%d]'', [RegA, Imm10, RegB])"

fun debug0_vfpu :: "vfpu_op \<Rightarrow> dbg_line option" where
  "debug0_vfpu AX_EXE_VFPU_FADD = Some (''FADD V%d,V%d,V%d'', [RegA, RegB, RegC])"
| "debug0_vfpu AX_EXE_VFPU_FSUB = Some (''FSUB V%d,V%d,V%d'', [RegA, RegB, RegC])"
| "debug0_vfpu AX_EXE_VFPU_FMUL = Some (''FMUL V%d,V%d,V%d'', [RegA, RegB, RegC])"
| "debug0_vfpu AX_EXE_VFPU_FMULADD = Some (''FMULADD V%d,V%d,V%d'', [RegA, RegB, RegC])"
| "debug0_vfpu AX_EXE_VFPU_FMULSUB = Some (''FMULSUB V%d,V%d,V%d'', [RegA, RegB, RegC])"
| "debug0_vfpu AX_EXE_VFPU_VFADD = Some (''VFADD V%d,V%d,V%d'', [RegA, RegB, RegC])"
| "debug0_vfpu AX_EXE_VFPU_VFSUB = Some (''VFSUB V%d,V%d,V%d'', [RegA, RegB, RegC])"
| "debug0_vfpu AX_EXE_VFPU_VFMUL = Some (''VFMUL V%d,V%d,V%d'', [RegA, RegB, RegC])"
| "debug0_vfpu AX_EXE_VFPU_VFMULADD = Some (''VFMULADD V%d,V%d,V%d'', [RegA, RegB, RegC])"
| "debug0_vfpu AX_EXE_VFPU_VFMULSUB = Some (''VFMULSUB V%d,V%d,V%d'', [RegA, RegB, RegC])"
| "debug0_vfpu AX_EXE_VFPU_VFADDS = Some (''VFADDS V%d,V%d,V%d'', [RegA, RegB, RegC])"
| "debug0_vfpu AX_EXE_VFPU_VFSUBS = Some (''VFSUBS V%d,V%d,V%d'', [RegA, RegB, RegC])"
| "debug0_vfpu AX_EXE_VFPU_VFMULS = Some (''VFMULS V%d,V%d,V%d'', [RegA, RegB, RegC])"
| "debug0_vfpu AX_EXE_VFPU_VFMULADDS = Some (''VFMULADDS V%d,V%d,V%d'', [RegA, RegB, RegC])"
| "debug0_vfpu AX_EXE_VFPU_VFMULSUBS = Some (''VFMULSUBS V%d,V%d,V%d'', [RegA, RegB, RegC])"
| "debug0_vfpu AX_EXE_VFPU_VFSHUFFLE = Some (''VFMULSUBS V%d,V%d,%d'', [RegA, RegB, Imm10])"
| "debug0_vfpu AX_EXE_VFPU_FMOVE = Some (''FMOVE V%d,V%d'', [RegA, RegB])"
| "debug0_vfpu AX_EXE_VFPU_VFMOVE = Some (''VFMOVE V%d,V%d'', [RegA, RegB])"
| "debug0_vfpu AX_EXE_VFPU_FMOVEI = Some (''FMOVEI V%d,%f'', [RegA, ImmF])"
| "debug0_vfpu AX_EXE_VFPU_VFMOVEI = Some (''VFMOVEI V%d,%f'', [RegA, ImmF])"
| "debug0_vfpu AX_EXE_VFPU_FNEG = Some (''FNEG V%d,V%d'', [RegA, RegB])"
| "debug0_vfpu AX_EXE_VFPU_FABS = Some (''FABS V%d,V%d'', [RegA, RegB])"
| "debug0_vfpu AX_EXE_VFPU_VFNEG = Some (''VFNEG V%d,V%d'', [RegA, RegB])"
| "debug0_vfpu AX_EXE_VFPU_VFABS = Some (''VFABS V%d,V%d'', [RegA, RegB])"
| "debug0_vfpu AX_EXE_VFPU_VFTOI = Some (''VFTOI V%d,V%d,V%d'', [RegA, RegB])"
| "debug0_vfpu AX_EXE_VFPU_VITOF = Some (''VITOF V%d,V%d,V%d'', [RegA, RegB])"
| "debug0_vfpu AX_EXE_VFPU_FMAX = Some (''FMAX V%d,V%d'', [RegA, RegB])"
| "debug0_vfpu AX_EXE_VFPU_FMIN = Some (''FMIN V%d,V%d'', [RegA, RegB])"
| "debug0_vfpu _ = None"

definition debug0_line :: "slot0 option \<Rightarrow> dbg_line option" where
  "debug0_line s =
     (case s of
        Some (S_ALU op) \<Rightarrow> debug0_alu op
      | Some (S_LSU op) \<Rightarrow> debug0_lsu op
      | Some (S_CMP op) \<Rightarrow> debug0_cmp op
      | Some (S_OTHER op) \<Rightarrow> debug0_other op
      | Some (S_BRU op) \<Rightarrow> debug0_bru op
      | Some (S_VFPU op) \<Rightarrow> debug0_vfpu op
      | None \<Rightarrow> None)"

definition AX_debug_core0 :: "fenv \<Rightarrow> Core \<Rightarrow> Core res" where
  "AX_debug_core0 E core =
     dbg_print E (opcode1 core) (debug0_line (decode0 (op_unit (opcode1 core)))) core"

section \<open>The second slot\<close>

fun debug1_alu :: "alu_op \<Rightarrow> dbg_line option" where
  "debug1_alu AX_EXE_ALU_NOP = Some (''NOP'', [])"
| "debug1_alu AX_EXE_ALU_SEXT = Some (''SEXT R%d,R%d'', [RegA, RegB])"
| "debug1_alu AX_EXE_ALU_BOOL = Some (''BOOL R%d,R%d'', [RegA, RegB])"
| "debug1_alu AX_EXE_ALU_SMOVE = Some (''SMOVE R%d,%d'', [RegA, Imm16])"
| "debug1_alu AX_EXE_ALU_SLTS = Some (''SLTS R%d,R%d,R%d'', [RegA, RegB, RegC])"
| "debug1_alu AX_EXE_ALU_SLTU = Some (''SLTU R%d,R%d,R%d'', [RegA, RegB, RegC])"
| "debug1_alu AX_EXE_ALU_SLTSI = Some (''SLTSI R%d,R%d,%d'', [RegA, RegB, Imm10])"
| "debug1_alu AX_EXE_ALU_SLTUI = Some (''SLTUI R%d,R%d,%d'', [RegA, RegB, Imm10])"
| "debug1_alu AX_EXE_ALU_MOVEN = Some (''MOVEN R%d,%d'', [RegA, Imm18])"
| "debug1_alu AX_EXE_ALU_MOVEU = Some (''MOVEU R%d,%d'', [RegA, Imm18])"
| "debug1_alu AX_EXE_ALU_ADD = Some (''ADD R%d,R%d,R%d (%d)'', [RegA, RegB, RegC, Imm9])"
| "debug1_alu AX_EXE_ALU_SUB = Some (''SUB R%d,R%d,R%d (%d)'', [RegA, RegB, RegC, Imm9])"
| "debug1_alu AX_EXE_ALU_XOR = Some (''XOR R%d,R%d,R%d (%d)'', [RegA, RegB, RegC, Imm9])"
| "debug1_alu AX_EXE_ALU_OR = Some (''OR R%d,R%d,R%d (%d)'', [RegA, RegB, RegC, Imm9])"
| "debug1_alu AX_EXE_ALU_AND = Some (''AND R%d,R%d,R%d (%d)'', [RegA, RegB, RegC, Imm9])"
| "debug1_alu AX_EXE_ALU_LSL = Some (''LSL R%d,R%d,R%d (%d)'', [RegA, RegB, RegC, Imm9])"
| "debug1_alu AX_EXE_ALU_ASR = Some (''ASR R%d,R%d,R%d (%d)'', [RegA, RegB, RegC, Imm9])"
| "debug1_alu AX_EXE_ALU_LSR = Some (''LSR R%d,R%d,R%d (%d)'', [RegA, RegB, RegC, Imm9])"
| "debug1_alu _ = None"

fun debug1_lsu :: "lsu_op \<Rightarrow> dbg_line option" where
  "debug1_lsu AX_EXE_LSU_LDL = Some (''LDL R%d,%d'', [RegA, Imm16])"
| "debug1_lsu AX_EXE_LSU_STL = Some (''STL R%d,%d'', [RegA, Imm16])"
| "debug1_lsu AX_EXE_LSU_LDVL = Some (''LDVL R%d,%d'', [RegA, Imm16])"
| "debug1_lsu AX_EXE_LSU_STVL = Some (''STVL R%d,%d'', [RegA, Imm16])"
| "debug1_lsu AX_EXE_LSU_LDL1 = Some (''LDL1 R%d,%d'', [RegA, Imm16])"
| "debug1_lsu AX_EXE_LSU_STL1 = Some (''STL1 R%d,%d'', [RegA, Imm16])"
| "debug1_lsu AX_EXE_LSU_LDVL1 = Some (''LDVL1 R%d,%d'', [RegA, Imm16])"
| "debug1_lsu AX_EXE_LSU_STVL1 = Some (''STVL1 R%d,%d'', [RegA, Imm16])"
| "debug1_lsu AX_EXE_LSU_LD = Some (''LD R%d,R%d[R%d]'', [RegA, RegB, RegC])"
| "debug1_lsu AX_EXE_LSU_ST = Some (''ST R%d,R%d[R%d]'', [RegA, RegB, RegC])"
| "debug1_lsu AX_EXE_LSU_LDV = Some (''LDV R%d,R%d[R%d]'', [RegA, RegB, RegC])"
| "debug1_lsu AX_EXE_LSU_STV = Some (''STV R%d,R%d[R%d]'', [RegA, RegB, RegC])"
| "debug1_lsu AX_EXE_LSU_LDI = Some (''LDI R%d,%d[R%d]'', [RegA, Imm10, RegB])"
| "debug1_lsu AX_EXE_LSU_STI = Some (''STI R%d,%d[R%d]'', [RegA, Imm10, RegB])"
| "debug1_lsu AX_EXE_LSU_LDVI = Some (''LDVI R%d,%d[R%d]'', [RegA, Imm10, RegB])"
| "debug1_lsu AX_EXE_LSU_STVI = Some (''STVI R%d,%d[R%d]'', [RegA, Imm10, RegB])"

fun debug1_efu :: "efu_op \<Rightarrow> dbg_line option" where
  "debug1_efu AX_EXE_EFU_FDIV = Some (''FDIV V%d,V%d,V%d'', [RegA, RegB, RegC])"
| "debug1_efu AX_EXE_EFU_DDIV = Some (''DDIV V%d,V%d,V%d'', [RegA, RegB, RegC])"
| "debug1_efu AX_EXE_EFU_FSQRT = Some (''FSQRT V%d,V%d'', [RegA, RegB])"
| "debug1_efu AX_EXE_EFU_DSQRT = Some (''DSQRT V%d,V%d'', [RegA, RegB])"
| "debug1_efu AX_EXE_EFU_FSIN = Some (''FSIN V%d,V%d'', [RegA, RegB])"
| "debug1_efu AX_EXE_EFU_DSIN = Some (''DSIN V%d,V%d'', [RegA, RegB])"
| "debug1_efu AX_EXE_EFU_FSUM = Some (''FSUM V%d,V%d'', [RegA, RegB])"
| "debug1_efu AX_EXE_EFU_FEXP = Some (''FEXP V%d,V%d'', [RegA, RegB])"
| "debug1_efu AX_EXE_EFU_FATAN = Some (''FATAN V%d,V%d,V%d'', [RegA, RegB, RegC])"
| "debug1_efu AX_EXE_EFU_FATAN2 = Some (''FATAN2 V%d,V%d,V%d'', [RegA, RegB, RegC])"
| "debug1_efu AX_EXE_EFU_FIPR = Some (''FATAN V%d,V%d,V%d'', [RegA, RegB, RegC])"
| "debug1_efu AX_EXE_FPU_DMOVEI = Some (''DMOVEI V%d,V%d'', [RegA, RegB])"
| "debug1_efu AX_EXE_FPU_DADD = Some (''DADD V%d,V%d,V%d'', [RegA, RegB, RegC])"
| "debug1_efu AX_EXE_FPU_DSUB = Some (''DSUB V%d,V%d,V%d'', [RegA, RegB, RegC])"
| "debug1_efu AX_EXE_FPU_DMUL = Some (''DMUL V%d,V%d,V%d'', [RegA, RegB, RegC])"
| "debug1_efu AX_EXE_FPU_DABS = Some (''DABS V%d,V%d'', [RegA, RegB])"
| "debug1_efu AX_EXE_FPU_DNEG = Some (''DNEG V%d,V%d'', [RegA, RegB])"
| "debug1_efu AX_EXE_FPU_DMIN = Some (''DMIN V%d,V%d,V%d'', [RegA, RegB, RegC])"
| "debug1_efu AX_EXE_FPU_DMAX = Some (''DMAX V%d,V%d,V%d'', [RegA, RegB, RegC])"
| "debug1_efu AX_EXE_FPU_DTOF = Some (''VDTOF V%d,V%d,V%d'', [RegA, RegB, RegC])"
| "debug1_efu AX_EXE_FPU_FTOD = Some (''VFTOD V%d,V%d,V%d'', [RegA, RegB, RegC])"
| "debug1_efu _ = None"

definition debug1_line :: "slot1 option \<Rightarrow> dbg_line option" where
  "debug1_line s =
     (case s of
        Some (T_ALU op) \<Rightarrow> debug1_alu op
      | Some (T_LSU op) \<Rightarrow> debug1_lsu op
      | Some (T_EFU op) \<Rightarrow> debug1_efu op
      | None \<Rightarrow> None)"

text \<open>It decodes \<open>opcode1\<close>, the word of the first slot.\<close>

definition AX_debug_core1 :: "fenv \<Rightarrow> Core \<Rightarrow> Core res" where
  "AX_debug_core1 E core =
     dbg_print E (opcode1 core) (debug1_line (decode1 (op_unit (opcode1 core)))) core"

definition AX_debug :: "fenv \<Rightarrow> Core \<Rightarrow> Core res" where
  "AX_debug E core =
     res_bind (c_printf ''PC %d: '' [PInt (ucast (pc core - 1))] core) (\<lambda>core1.
     res_bind (AX_debug_core0 E core1) (\<lambda>core2.
     res_bind (c_printf ''    '' [] core2) (\<lambda>core3.
     res_bind (if opcode1 core3 AND 1 \<noteq> 0 then AX_debug_core1 E core3 else Ok core3) (\<lambda>core4.
     c_printf nl [] core4))))"

section \<open>The debugger only prints\<close>

definition only_prints :: "Core \<Rightarrow> Core \<Rightarrow> bool" where
  "only_prints c c' \<longleftrightarrow> (\<exists>es. c' = c\<lparr>out := out c @ es\<rparr>)"

lemma only_prints_refl [simp]: "only_prints c c"
  unfolding only_prints_def by (rule exI [of _ "[]"]) simp

lemma only_prints_trans: "only_prints a b \<Longrightarrow> only_prints b c \<Longrightarrow> only_prints a c"
  unfolding only_prints_def by auto

lemma c_printf_prints: "c_printf fmt args c = Ok c' \<Longrightarrow> only_prints c c'"
  by (auto simp: c_printf_def emit_def only_prints_def)

lemma dbg_print_prints: "dbg_print E opc l c = Ok c' \<Longrightarrow> only_prints c c'"
  by (auto simp: dbg_print_def c_printf_prints split: option.splits prod.splits)

lemma AX_debug_prints:
  assumes "AX_debug E c = Ok c'"
  shows "only_prints c c'"
proof -
  from assms obtain c1 c2 c3 c4
    where "c_printf ''PC %d: '' [PInt (ucast (pc c - 1))] c = Ok c1" "AX_debug_core0 E c1 = Ok c2"
      "c_printf ''    '' [] c2 = Ok c3"
      and 4: "(if opcode1 c3 AND 1 \<noteq> 0 then AX_debug_core1 E c3 else Ok c3) = Ok c4"
      and "c_printf nl [] c4 = Ok c'"
    unfolding AX_debug_def res_bind_eq_Ok by blast
  then have "only_prints c c1" "only_prints c1 c2" "only_prints c2 c3" "only_prints c4 c'"
    by (auto simp: AX_debug_core0_def intro: c_printf_prints dbg_print_prints)
  moreover have "only_prints c3 c4"
    using 4 by (auto simp: AX_debug_core1_def dbg_print_prints split: if_splits)
  ultimately show ?thesis by (blast intro: only_prints_trans)
qed

end
