(* ===== verification/AX_Cycle.thy ===== *)
theory AX_Cycle
  imports AX_Efu
begin

text \<open>
  The timing model (\<open>cycle.c\<close>, \<open>cycle.h\<close>): cache tags and miss counters (\<open>AX_Cache_miss\<close>) and the
  register scoreboard (\<open>AX_Pipeline_stall\<close>). The caches are direct-mapped: a line's tag lies at
  its low bits. The lemmas state the contract of such a cache in a locale that both caches
  interpret, the bounds of the scoreboard and the rows of its operand table.
\<close>

section \<open>Cache misses\<close>

text \<open>The instruction cache: 64 lines of 1 KiB, tags of \<open>pc >> 8\<close>.\<close>

definition icache_access :: "u32 \<Rightarrow> Core \<Rightarrow> Core" where
  "icache_access tag core =
     (let index = unat (tag AND 0x3F)
      in if icache core ! index \<noteq> tag
         then core\<lparr>icache := (icache core)[index := tag],
                   bandwidth := bandwidth core + 1024,
                   icachemiss := icachemiss core + 1,
                   icachemiss_cycle := icachemiss_cycle core + (14 + (5 * 16))\<rparr>
         else core)"

text \<open>
  The data cache: the index has ten bits and the array 512 tags of 32 bits, which are compared
  with the 64-bit line number.
\<close>

definition dcache_access :: "u64 \<Rightarrow> Core \<Rightarrow> Core res" where
  "dcache_access addr core =
     (let offset = drop_bit 7 addr;
          index = unat (offset AND 0x3FF)
      in if AR_core_DCACHE_SIZE * 2 \<le> index then Fault Index_oob
         else if ucast (dcache core ! index) \<noteq> offset
         then Ok (core\<lparr>dcache := (dcache core)[index := ucast offset],
                       bandwidth := bandwidth core + 128,
                       dcachemiss := dcachemiss core + 1,
                       dcachemiss_cycle := dcachemiss_cycle core + (14 + 5) * 2\<rparr>)
         else Ok core)"

definition AX_Cache_miss :: "Core \<Rightarrow> Core res" where
  "AX_Cache_miss core0 =
     (let core = icache_access (drop_bit 8 (pc core0)) core0;
          opcode = opcode1 core;
          unit = op_unit opcode;
          regB = op_regb opcode;
          regC = op_regc opcode
      in if 0x20 \<le> unit \<and> unit < 0x28
         then dcache_access (ireg core ! regB + imm16 opcode) core
         else if 0x2C \<le> unit \<and> unit < 0x30
         then dcache_access (ireg core ! regB + ucast (imm10 opcode)) core
         else if 0x28 \<le> unit \<and> unit < 0x2C
         then dcache_access (ireg core ! regB + ireg core ! regC) core
         else if unit = 0x4A
         then Ok (core\<lparr>bandwidth := bandwidth core + 64 * ireg core ! regC\<rparr>)
         else Ok core)"

section \<open>The operand tables\<close>

definition AX_OPID_RA_W :: u8 where "AX_OPID_RA_W = 0x01"
definition AX_OPID_RA_R :: u8 where "AX_OPID_RA_R = 0x02"
definition AX_OPID_RB :: u8 where "AX_OPID_RB = 0x04"
definition AX_OPID_RC :: u8 where "AX_OPID_RC = 0x08"
definition AX_OPID_VR :: u8 where "AX_OPID_VR = 0x10"
definition AX_OPID_VA :: u8 where "AX_OPID_VA = 0x20"
definition AX_OPID_RX :: u8 where "AX_OPID_RX = 0x40"
definition AX_OPID_IM :: u8 where "AX_OPID_IM = 0x80"

lemmas opid_defs =
  AX_OPID_RA_W_def AX_OPID_RA_R_def AX_OPID_RB_def AX_OPID_RC_def
  AX_OPID_VR_def AX_OPID_VA_def AX_OPID_RX_def AX_OPID_IM_def

definition AX_ACCU :: nat where "AX_ACCU = 61"
definition AX_ALU_CYCLE :: u32 where "AX_ALU_CYCLE = 3"
definition AX_FPU_CYCLE :: u32 where "AX_FPU_CYCLE = 4"
definition AX_PQ_CYCLE :: u32 where "AX_PQ_CYCLE = 4"
definition AX_VPQ_CYCLE :: u32 where "AX_VPQ_CYCLE = 5"

definition opcode1_rw :: "u8 list" where
  "opcode1_rw =
    [0, AX_OPID_RA_W OR AX_OPID_RB, AX_OPID_RA_W OR AX_OPID_RB, AX_OPID_RA_W,
     AX_OPID_RA_W OR AX_OPID_RB OR AX_OPID_RC, AX_OPID_RA_W OR AX_OPID_RB OR AX_OPID_RC,
     AX_OPID_RA_W OR AX_OPID_RB OR AX_OPID_RC, AX_OPID_RA_W OR AX_OPID_RB OR AX_OPID_RC,
     AX_OPID_RA_W OR AX_OPID_RB OR AX_OPID_RC, AX_OPID_RA_W, AX_OPID_RA_W, 0, 0,
     AX_OPID_RA_W, AX_OPID_RA_W, AX_OPID_RA_W, AX_OPID_RC,
     AX_OPID_RA_W OR AX_OPID_RB OR AX_OPID_IM, AX_OPID_RA_W OR AX_OPID_RB OR AX_OPID_IM,
     AX_OPID_RA_W OR AX_OPID_RB OR AX_OPID_IM, AX_OPID_RA_W OR AX_OPID_RB OR AX_OPID_IM,
     AX_OPID_RA_W OR AX_OPID_RB OR AX_OPID_IM, AX_OPID_RA_W OR AX_OPID_RB OR AX_OPID_IM,
     AX_OPID_RA_W OR AX_OPID_RB OR AX_OPID_IM, AX_OPID_RA_W OR AX_OPID_RB OR AX_OPID_IM,
     AX_OPID_RA_W OR AX_OPID_RB OR AX_OPID_IM, AX_OPID_RA_W OR AX_OPID_RB OR AX_OPID_IM,
     AX_OPID_RA_W OR AX_OPID_RB OR AX_OPID_IM, AX_OPID_RA_W OR AX_OPID_RB OR AX_OPID_IM,
     AX_OPID_RA_W OR AX_OPID_RB OR AX_OPID_IM, 0, 0, 0, AX_OPID_RA_W OR AX_OPID_RX,
     AX_OPID_RA_R OR AX_OPID_RX, AX_OPID_RA_W OR AX_OPID_VA OR AX_OPID_RX,
     AX_OPID_RA_R OR AX_OPID_VA OR AX_OPID_RX, AX_OPID_RA_W OR AX_OPID_RX,
     AX_OPID_RA_R OR AX_OPID_RX, AX_OPID_RA_W OR AX_OPID_VA OR AX_OPID_RX,
     AX_OPID_RA_R OR AX_OPID_VA OR AX_OPID_RX, AX_OPID_RA_W OR AX_OPID_RB OR AX_OPID_RC,
     AX_OPID_RA_R OR AX_OPID_RB OR AX_OPID_RC,
     AX_OPID_RA_W OR AX_OPID_VA OR AX_OPID_RB OR AX_OPID_RC,
     AX_OPID_RA_R OR AX_OPID_VA OR AX_OPID_RB OR AX_OPID_RC, AX_OPID_RA_W OR AX_OPID_RB,
     AX_OPID_RA_R OR AX_OPID_RB, AX_OPID_RA_W OR AX_OPID_VA OR AX_OPID_RB,
     AX_OPID_RA_R OR AX_OPID_VA OR AX_OPID_RB, 0, 0, 0, 0, 0, 0, 0, 0, 0, 0, 0, 0, 0, 0,
     0, 0, AX_OPID_RA_R OR AX_OPID_RB, 0, AX_OPID_RA_R, AX_OPID_RA_R,
     AX_OPID_VR OR AX_OPID_RA_R OR AX_OPID_RB, AX_OPID_VR OR AX_OPID_RA_R OR AX_OPID_RB,
     AX_OPID_VR OR AX_OPID_RA_R, AX_OPID_VR OR AX_OPID_RA_R, 0, AX_OPID_RA_R, 0, 0, 0, 0,
     0, 0, 0, 0, 0, 0, 0, 0, 0, 0, 0, 0, 0, 0, 0, 0, 0, 0,
     AX_OPID_VR OR AX_OPID_RA_W OR AX_OPID_RB OR AX_OPID_RC,
     AX_OPID_VR OR AX_OPID_RA_W OR AX_OPID_RB OR AX_OPID_RC,
     AX_OPID_VR OR AX_OPID_RA_W OR AX_OPID_RB OR AX_OPID_RC,
     AX_OPID_VR OR AX_OPID_RA_W OR AX_OPID_RB OR AX_OPID_RC,
     AX_OPID_VR OR AX_OPID_RA_W OR AX_OPID_RB OR AX_OPID_RC,
     AX_OPID_VR OR AX_OPID_RA_W OR AX_OPID_RB OR AX_OPID_RC,
     AX_OPID_VR OR AX_OPID_RA_W OR AX_OPID_RB OR AX_OPID_RC,
     AX_OPID_VR OR AX_OPID_RA_W OR AX_OPID_RB OR AX_OPID_RC,
     AX_OPID_VR OR AX_OPID_RA_W OR AX_OPID_RB OR AX_OPID_RC,
     AX_OPID_VR OR AX_OPID_RA_W OR AX_OPID_RB OR AX_OPID_RC,
     AX_OPID_VR OR AX_OPID_RA_W OR AX_OPID_RB OR AX_OPID_RC,
     AX_OPID_VR OR AX_OPID_RA_W OR AX_OPID_RB OR AX_OPID_RC,
     AX_OPID_VR OR AX_OPID_RA_W OR AX_OPID_RB OR AX_OPID_RC,
     AX_OPID_VR OR AX_OPID_RA_W OR AX_OPID_RB OR AX_OPID_RC,
     AX_OPID_VR OR AX_OPID_RA_W OR AX_OPID_RB OR AX_OPID_RC,
     AX_OPID_VR OR AX_OPID_RA_W OR AX_OPID_RB OR AX_OPID_RC,
     AX_OPID_VR OR AX_OPID_RA_W OR AX_OPID_RB, AX_OPID_VR OR AX_OPID_RA_W OR AX_OPID_RB,
     AX_OPID_VR OR AX_OPID_RA_W, AX_OPID_VR OR AX_OPID_RA_W,
     AX_OPID_VR OR AX_OPID_RA_W OR AX_OPID_RB, AX_OPID_VR OR AX_OPID_RA_W OR AX_OPID_RB,
     AX_OPID_VR OR AX_OPID_RA_W OR AX_OPID_RB, AX_OPID_VR OR AX_OPID_RA_W OR AX_OPID_RB,
     AX_OPID_VR OR AX_OPID_RA_W OR AX_OPID_RB, AX_OPID_VR OR AX_OPID_RA_W OR AX_OPID_RB,
     AX_OPID_VR OR AX_OPID_RA_W OR AX_OPID_RB, AX_OPID_VR OR AX_OPID_RA_W OR AX_OPID_RB,
     AX_OPID_VR OR AX_OPID_RA_W OR AX_OPID_RB, AX_OPID_VR OR AX_OPID_RA_W OR AX_OPID_RB,
     AX_OPID_VR OR AX_OPID_RA_W OR AX_OPID_RB, AX_OPID_VR OR AX_OPID_RA_W OR AX_OPID_RB]"

definition opcode2_rw :: "u8 list" where
  "opcode2_rw =
    [0, AX_OPID_RA_W OR AX_OPID_RB, AX_OPID_RA_W OR AX_OPID_RB, AX_OPID_RA_W,
     AX_OPID_RA_W OR AX_OPID_RB OR AX_OPID_RC, AX_OPID_RA_W OR AX_OPID_RB OR AX_OPID_RC,
     AX_OPID_RA_W OR AX_OPID_RB OR AX_OPID_RC, AX_OPID_RA_W OR AX_OPID_RB OR AX_OPID_RC,
     AX_OPID_RA_W OR AX_OPID_RB OR AX_OPID_RC, AX_OPID_RA_W, AX_OPID_RA_W, 0, 0,
     AX_OPID_RA_W, AX_OPID_RA_W, AX_OPID_RA_W, AX_OPID_RC,
     AX_OPID_RA_W OR AX_OPID_RB OR AX_OPID_IM, AX_OPID_RA_W OR AX_OPID_RB OR AX_OPID_IM,
     AX_OPID_RA_W OR AX_OPID_RB OR AX_OPID_IM, AX_OPID_RA_W OR AX_OPID_RB OR AX_OPID_IM,
     AX_OPID_RA_W OR AX_OPID_RB OR AX_OPID_IM, AX_OPID_RA_W OR AX_OPID_RB OR AX_OPID_IM,
     AX_OPID_RA_W OR AX_OPID_RB OR AX_OPID_IM, AX_OPID_RA_W OR AX_OPID_RB OR AX_OPID_IM,
     0, 0, 0, 0, 0, 0, 0, 0, AX_OPID_RA_W OR AX_OPID_RX, AX_OPID_RA_R OR AX_OPID_RX,
     AX_OPID_RA_W OR AX_OPID_VA OR AX_OPID_RX, AX_OPID_RA_R OR AX_OPID_VA OR AX_OPID_RX,
     AX_OPID_RA_W OR AX_OPID_RX, AX_OPID_RA_R OR AX_OPID_RX,
     AX_OPID_RA_W OR AX_OPID_VA OR AX_OPID_RX, AX_OPID_RA_R OR AX_OPID_VA OR AX_OPID_RX,
     AX_OPID_RA_W OR AX_OPID_RB OR AX_OPID_RC, AX_OPID_RA_R OR AX_OPID_RB OR AX_OPID_RC,
     AX_OPID_RA_W OR AX_OPID_VA OR AX_OPID_RB OR AX_OPID_RC,
     AX_OPID_RA_R OR AX_OPID_VA OR AX_OPID_RB OR AX_OPID_RC, AX_OPID_RA_W OR AX_OPID_RB,
     AX_OPID_RA_R OR AX_OPID_RB, AX_OPID_RA_W OR AX_OPID_VA OR AX_OPID_RB,
     AX_OPID_RA_R OR AX_OPID_VA OR AX_OPID_RB, 0, 0, 0, 0, 0, 0, 0, 0,
     AX_OPID_VR OR AX_OPID_RA_W OR AX_OPID_RB OR AX_OPID_RC,
     AX_OPID_VR OR AX_OPID_RA_W OR AX_OPID_RB,
     AX_OPID_VR OR AX_OPID_RA_W OR AX_OPID_RB OR AX_OPID_RC,
     AX_OPID_VR OR AX_OPID_RA_W OR AX_OPID_RB, AX_OPID_VR OR AX_OPID_RA_W OR AX_OPID_RB,
     AX_OPID_VR OR AX_OPID_RA_W OR AX_OPID_RB OR AX_OPID_RC,
     AX_OPID_VR OR AX_OPID_RA_W OR AX_OPID_RB, AX_OPID_VR OR AX_OPID_RA_W OR AX_OPID_RB,
     AX_OPID_VR OR AX_OPID_RA_W OR AX_OPID_RB,
     AX_OPID_VR OR AX_OPID_RA_W OR AX_OPID_RB OR AX_OPID_RC,
     AX_OPID_VR OR AX_OPID_RA_W OR AX_OPID_RB, AX_OPID_VR OR AX_OPID_RA_W OR AX_OPID_RB,
     AX_OPID_VR OR AX_OPID_RA_W OR AX_OPID_RB, AX_OPID_VR OR AX_OPID_RA_W OR AX_OPID_RB,
     AX_OPID_VR OR AX_OPID_RA_W OR AX_OPID_RB, AX_OPID_VR OR AX_OPID_RA_W OR AX_OPID_RB,
     AX_OPID_VR OR AX_OPID_RA_W, AX_OPID_VR OR AX_OPID_RA_W OR AX_OPID_RB OR AX_OPID_RC,
     AX_OPID_VR OR AX_OPID_RA_W OR AX_OPID_RB OR AX_OPID_RC,
     AX_OPID_VR OR AX_OPID_RA_W OR AX_OPID_RB OR AX_OPID_RC,
     AX_OPID_VR OR AX_OPID_RA_W OR AX_OPID_RB, AX_OPID_VR OR AX_OPID_RA_W OR AX_OPID_RB,
     AX_OPID_VR OR AX_OPID_RA_W OR AX_OPID_RB, AX_OPID_VR OR AX_OPID_RA_W OR AX_OPID_RB,
     AX_OPID_VR OR AX_OPID_RA_W OR AX_OPID_RB, AX_OPID_VR OR AX_OPID_RA_W OR AX_OPID_RB,
     AX_OPID_VR OR AX_OPID_RA_W OR AX_OPID_RB, AX_OPID_VR OR AX_OPID_RA_W OR AX_OPID_RB,
     AX_OPID_VR OR AX_OPID_RA_W OR AX_OPID_RB, AX_OPID_VR OR AX_OPID_RA_W OR AX_OPID_RB,
     AX_OPID_VR OR AX_OPID_RA_W OR AX_OPID_RB, AX_OPID_VR OR AX_OPID_RA_W OR AX_OPID_RB]"

section \<open>The scoreboard\<close>

text \<open>One cycle passes: every busy counter goes down by one, to zero at least.\<close>

definition busy_tick :: "u8 \<Rightarrow> u8" where
  "busy_tick b = (if 0 < b then b - 1 else b)"

definition scoreboard_tick :: "Core \<Rightarrow> Core" where
  "scoreboard_tick core =
     core\<lparr>busy_reg := map busy_tick (busy_reg core),
          busy_vreg := map busy_tick (busy_vreg core),
          busy_flag := busy_tick (busy_flag core)\<rparr>"

text \<open>Wait for a register that is busy for longer than the wait so far; the accumulator never is.\<close>

definition wait_for :: "u8 list \<Rightarrow> nat \<Rightarrow> u32 \<Rightarrow> u32" where
  "wait_for busy reg clear =
     (let tmp = ucast (busy ! reg) in if clear < tmp \<and> reg \<noteq> AX_ACCU then tmp else clear)"

definition has_opid :: "u8 \<Rightarrow> u8 \<Rightarrow> bool" where
  "has_opid opid m \<longleftrightarrow> opid AND m \<noteq> 0"

text \<open>The register that \<open>regA\<close> names: a base register for the short load/store forms.\<close>

definition stall_rega :: "u8 \<Rightarrow> u32 \<Rightarrow> nat" where
  "stall_rega opid opcode =
     (if has_opid opid AX_OPID_RX then unat (drop_bit 3 opcode AND 1) else op_rega opcode)"

text \<open>The body of the loop over the slots, up to the wait it computes.\<close>

definition stall_wait :: "nat \<Rightarrow> u8 \<Rightarrow> u32 \<Rightarrow> Core \<Rightarrow> u32 \<Rightarrow> u32" where
  "stall_wait i opid opcode core clear0 =
     (let unit = op_unit opcode;
          regA = stall_rega opid opcode;
          regB = op_regb opcode;
          regC = op_regc opcode;
          clear1 = (if 0x50 \<le> unit \<and> unit \<le> 0x5F \<and> i = 0 then ucast (busy_flag core) else clear0);
          clear2 = (if has_opid opid AX_OPID_RA_R \<and> has_opid opid AX_OPID_VA
                    then wait_for (busy_vreg core) regA clear1 else clear1)
      in if has_opid opid AX_OPID_VR
         then let clear3 = (if has_opid opid AX_OPID_RA_R
                            then wait_for (busy_vreg core) regA clear2 else clear2);
                  clear4 = (if has_opid opid AX_OPID_RB
                            then wait_for (busy_vreg core) regB clear3 else clear3);
                  clear5 = (if has_opid opid AX_OPID_RC
                            then wait_for (busy_vreg core) regC clear4 else clear4)
              in if i = 1 \<and> AX_ACCU < regA then AX_VPQ_CYCLE else clear5
         else let clear3 = (if has_opid opid AX_OPID_RA_R
                            then wait_for (busy_reg core) regA clear2 else clear2);
                  clear4 = (if has_opid opid AX_OPID_RB
                            then wait_for (busy_reg core) regB clear3 else clear3);
                  clear5 = (if has_opid opid AX_OPID_RC
                            then wait_for (busy_reg core) regC clear4 else clear4)
              in if has_opid opid AX_OPID_IM \<and> opcode AND 0x400 = 0
                 then wait_for (busy_reg core) regC clear5 else clear5)"

text \<open>The extra latency of the registers P and Q.\<close>

definition stall_pq :: "u8 \<Rightarrow> u32 \<Rightarrow> u32" where
  "stall_pq opid opcode =
     (if \<not> has_opid opid AX_OPID_VR \<and> has_opid opid AX_OPID_IM \<and> AX_ACCU < stall_rega opid opcode
      then AX_PQ_CYCLE else 0)"

text \<open>The rest of the body: what the instruction makes busy.\<close>

definition stall_mark :: "nat \<Rightarrow> u8 \<Rightarrow> u32 \<Rightarrow> Core \<Rightarrow> Core" where
  "stall_mark i opid opcode core =
     (let unit = op_unit opcode;
          regA = stall_rega opid opcode;
          pq = stall_pq opid opcode;
          core1 =
            (if has_opid opid AX_OPID_RA_W
             then if has_opid opid (AX_OPID_VA + AX_OPID_VR)
                  then core\<lparr>busy_vreg := (busy_vreg core)[regA := ucast (AX_FPU_CYCLE + pq)]\<rparr>
                  else core\<lparr>busy_reg := (busy_reg core)[regA := ucast (AX_ALU_CYCLE + pq)]\<rparr>
             else core)
      in if 0x40 \<le> unit \<and> unit \<le> 0x47 \<and> i = 0 then core1\<lparr>busy_flag := 3\<rparr> else core1)"

definition stall_slot :: "nat \<Rightarrow> Core \<times> u32 \<Rightarrow> (Core \<times> u32) res" where
  "stall_slot i = (\<lambda>(core, clear).
     (let opcode = (if i = 0 then opcode1 core else opcode2 core);
          table = (if i = 0 then opcode1_rw else opcode2_rw);
          unit = op_unit opcode
      in if length table \<le> unit then Fault Index_oob
         else Ok (stall_mark i (table ! unit) opcode core,
                  stall_wait i (table ! unit) opcode core clear)))"

text \<open>\<open>swt\<close> is 1, so the loop looks at the first slot only.\<close>

definition AX_Pipeline_stall :: "Core \<Rightarrow> Core res" where
  "AX_Pipeline_stall core =
     (let swt = 1
      in res_bind (fold_res stall_slot [0..<swt] (scoreboard_tick core, 0)) (\<lambda>(core1, clear).
         let core2 = emit (''Cycle %d'' @ nl) [PInt (ucast (clear + 1))] core1
         in Ok (core2\<lparr>cycle := cycle core2 + ucast clear\<rparr>)))"

section \<open>What is kept\<close>

lemma core_keeps_lists [simp]:
  "core_keeps c d \<Longrightarrow> core_keeps c (d\<lparr>icache := (icache d)[i := x]\<rparr>)"
  "core_keeps c d \<Longrightarrow> core_keeps c (d\<lparr>dcache := (dcache d)[i := x]\<rparr>)"
  "core_keeps c d \<Longrightarrow> core_keeps c (d\<lparr>busy_reg := (busy_reg d)[i := b]\<rparr>)"
  "core_keeps c d \<Longrightarrow> core_keeps c (d\<lparr>busy_vreg := (busy_vreg d)[i := b]\<rparr>)"
  "core_keeps c d \<Longrightarrow> core_keeps c (d\<lparr>busy_reg := map f (busy_reg d)\<rparr>)"
  "core_keeps c d \<Longrightarrow> core_keeps c (d\<lparr>busy_vreg := map f (busy_vreg d)\<rparr>)"
  by (auto simp: core_keeps_def wf_core_def)

lemma icache_access_keeps [simp]: "core_keeps c d \<Longrightarrow> core_keeps c (icache_access tag d)"
  by (simp add: icache_access_def Let_def)

lemma dcache_access_keeps: "dcache_access a d = Ok d' \<Longrightarrow> core_keeps c d \<Longrightarrow> core_keeps c d'"
  by (auto simp: dcache_access_def Let_def split: if_splits)

lemma AX_Cache_miss_keeps: "AX_Cache_miss c = Ok c' \<Longrightarrow> core_keeps c c'"
  unfolding AX_Cache_miss_def Let_def
  by (auto split: if_splits dest!: dcache_access_keeps [where c = c])

lemma scoreboard_tick_keeps [simp]: "core_keeps c (scoreboard_tick c)"
  by (simp add: scoreboard_tick_def core_keeps_def wf_core_def)

lemma stall_mark_keeps [simp]: "core_keeps c d \<Longrightarrow> core_keeps c (stall_mark i opid opc d)"
  by (simp add: stall_mark_def Let_def)

lemma AX_Pipeline_stall_eq:
  "AX_Pipeline_stall core =
     res_bind (stall_slot 0 (scoreboard_tick core, 0)) (\<lambda>(core1, clear).
       Ok ((emit (''Cycle %d'' @ nl) [PInt (ucast (clear + 1))] core1)\<lparr>cycle := cycle core1 + ucast clear\<rparr>))"
proof -
  have "fold_res stall_slot [] = Ok" by (rule ext) simp
  then show ?thesis by (simp add: AX_Pipeline_stall_def Let_def split_def)
qed

lemma AX_Pipeline_stall_keeps: "AX_Pipeline_stall c = Ok c' \<Longrightarrow> core_keeps c c'"
  by (auto simp: AX_Pipeline_stall_eq stall_slot_def Let_def res_bind_eq_Ok split: if_splits)

section \<open>The contract of a direct-mapped cache\<close>

text \<open>
  What the counters of a cache mean rests on three laws: an access leaves its line resident, a resident
  line is a hit, which changes nothing, and an access to a line of another index leaves a resident
  line resident. \<open>resident t c\<close> says that the cache of \<open>c\<close> holds the line \<open>t\<close>; \<open>ok\<close> are the states and
  \<open>fits\<close> the lines for which the laws hold.
\<close>

locale direct_mapped =
  fixes touch :: "'t \<Rightarrow> Core \<Rightarrow> Core res"
    and resident :: "'t \<Rightarrow> Core \<Rightarrow> bool"
    and index :: "'t \<Rightarrow> nat"
    and fits :: "'t \<Rightarrow> bool"
  assumes touch_ok: "wf_core c \<Longrightarrow> fits t \<Longrightarrow> \<exists>d. touch t c = Ok d \<and> wf_core d \<and> resident t d"
    and hit: "wf_core c \<Longrightarrow> fits t \<Longrightarrow> resident t c \<Longrightarrow> touch t c = Ok c"
    and stays: "wf_core c \<Longrightarrow> fits t \<Longrightarrow> fits u \<Longrightarrow> index t \<noteq> index u \<Longrightarrow> resident u c \<Longrightarrow> touch t c = Ok d \<Longrightarrow> resident u d"
begin

lemma hits: "wf_core c \<Longrightarrow> \<forall>t \<in> set ts. fits t \<and> resident t c \<Longrightarrow> fold_res touch ts c = Ok c"
  by (induction ts) (simp_all add: hit)

lemma pass:
  assumes "wf_core c" and "\<forall>t \<in> set ts. fits t" and "distinct (map index ts)"
    and "\<forall>u \<in> set us. fits u \<and> resident u c \<and> index u \<notin> index ` set ts"
  shows "\<exists>d. fold_res touch ts c = Ok d \<and> wf_core d \<and> (\<forall>t \<in> set ts \<union> set us. resident t d)"
  using assms
proof (induction ts arbitrary: c us)
  case Nil
  then show ?case by simp
next
  case (Cons t ts)
  then obtain d where d: "touch t c = Ok d" "wf_core d" "resident t d"
    using touch_ok [of c t] by auto
  have "resident u d" if "u \<in> set us" for u
    using stays [OF Cons.prems(1), of t u d] Cons.prems(2,4) that d(1) by auto
  then have "\<forall>u \<in> set (t # us). fits u \<and> resident u d \<and> index u \<notin> index ` set ts"
    using Cons.prems(2,3,4) d(3) by auto
  with Cons.IH [OF d(2), of "t # us"] Cons.prems(2,3) show ?case by (simp add: d(1))
qed

text \<open>A working set of lines with different indices is loaded once.\<close>

lemma working_set:
  assumes "wf_core c" and "\<forall>t \<in> set ts. fits t" and "distinct (map index ts)"
  obtains d where "fold_res touch ts c = Ok d" and "fold_res touch ts d = Ok d"
  using pass [OF assms, of "[]"] assms(2) hits by auto

end

definition icache_index :: "u32 \<Rightarrow> nat" where
  "icache_index tag = unat (tag AND 0x3F)"

definition dcache_index :: "u64 \<Rightarrow> nat" where
  "dcache_index addr = unat (drop_bit 7 addr AND 0x3FF)"

text \<open>The addresses whose line has an entry, and a tag that the entry can hold.\<close>

definition dcache_fits :: "u64 \<Rightarrow> bool" where
  "dcache_fits addr \<longleftrightarrow> dcache_index addr < AR_core_DCACHE_SIZE * 2 \<and> unat (drop_bit 7 addr) < 2 ^ 32"

lemma wf_core_icache [simp]: "wf_core (icache_access tag c) = wf_core c"
  by (simp add: icache_access_def Let_def wf_core_def)

lemma icache_index_less: "wf_core c \<Longrightarrow> icache_index tag < length (icache c)"
proof -
  have "unat (tag AND 0x3F) \<le> unat (0x3F :: u32)" 
    unfolding word_le_nat_alt [symmetric] by (rule word_and_le1)
  then show "wf_core c \<Longrightarrow> icache_index tag < length (icache c)"
    by (simp add: icache_index_def wf_core_def AR_core_ICACHE_SIZE_def)
qed

interpretation icache: direct_mapped "\<lambda>tag c. Ok (icache_access tag c)" "\<lambda>tag c. icache c ! icache_index tag = tag"
  icache_index "\<lambda>tag. True"
proof unfold_locales
  fix c d :: Core and t u :: u32
  assume wf: "wf_core c"
  note less = icache_index_less [OF wf]
  show "\<exists>d. Ok (icache_access t c) = Ok d \<and> wf_core d \<and> icache d ! icache_index t = t"
    using less [of t] wf by (simp add: icache_access_def Let_def icache_index_def wf_core_def)
  show "icache c ! icache_index t = t \<Longrightarrow> Ok (icache_access t c) = Ok c"
    by (simp add: icache_access_def Let_def icache_index_def)
  show "icache_index t \<noteq> icache_index u \<Longrightarrow> icache c ! icache_index u = u \<Longrightarrow> Ok (icache_access t c) = Ok d \<Longrightarrow>
      icache d ! icache_index u = u"
    by (auto simp: icache_access_def Let_def icache_index_def)
qed

lemma dcache_access_alt:
  "dcache_access addr c =
     (if AR_core_DCACHE_SIZE * 2 \<le> dcache_index addr then Fault Index_oob
      else if ucast (dcache c ! dcache_index addr) \<noteq> drop_bit 7 addr
      then Ok (c\<lparr>dcache := (dcache c)[dcache_index addr := ucast (drop_bit 7 addr)], bandwidth := bandwidth c + 128,
              dcachemiss := dcachemiss c + 1, dcachemiss_cycle := dcachemiss_cycle c + (14 + 5) * 2\<rparr>)
      else Ok c)"
  by (simp add: dcache_access_def dcache_index_def Let_def)

lemma ucast_tag: "unat (drop_bit 7 addr) < 2 ^ 32 \<Longrightarrow> ucast (ucast (drop_bit 7 addr :: u64) :: u32) = drop_bit 7 addr"
  by (simp add: word_unat_eq_iff unsigned_ucast_eq unsigned_take_bit_eq take_bit_nat_eq_self)

interpretation dcache: direct_mapped dcache_access "\<lambda>addr c. ucast (dcache c ! dcache_index addr) = drop_bit 7 addr"
  dcache_index dcache_fits
proof unfold_locales
  fix c d :: Core and t u :: u64
  assume wf: "wf_core c" and fits: "dcache_fits t"
  show "\<exists>d. dcache_access t c = Ok d \<and> wf_core d \<and> ucast (dcache d ! dcache_index t) = drop_bit 7 t"
    using wf fits by (auto simp: dcache_access_alt dcache_fits_def wf_core_def ucast_tag)
  show "ucast (dcache c ! dcache_index t) = drop_bit 7 t \<Longrightarrow> dcache_access t c = Ok c"
    using fits by (simp add: dcache_access_alt dcache_fits_def)
  show "dcache_index t \<noteq> dcache_index u \<Longrightarrow> ucast (dcache c ! dcache_index u) = drop_bit 7 u \<Longrightarrow>
      dcache_access t c = Ok d \<Longrightarrow> ucast (dcache d ! dcache_index u) = drop_bit 7 u"
    by (auto simp: dcache_access_alt split: if_splits)
qed

text \<open>
  C26. A working set of addresses whose lines have different indices, all below index 512 and below
  512 GiB (\<open>dcache_fits\<close>), is loaded once: every further pass over it leaves the tags and the counters
  as they are. An access to a line of index 512 to 1023, half of all lines, reads the tags out of bounds.
  A line below index 512 whose number needs more than 32 bits misses at every access, for its tag is
  stored without the upper bits.
\<close>
theorem dcache_working_set:
  assumes "wf_core c" and "\<forall>a \<in> set as. dcache_fits a" and "distinct (map dcache_index as)"
  shows "(\<exists>d. fold_res dcache_access as c = Ok d \<and> fold_res dcache_access as d = Ok d) \<and>
    (dcache_access b c = Fault Index_oob \<longleftrightarrow> 512 \<le> dcache_index b) \<and>
    (dcache_index b < 512 \<and> 2 ^ 32 \<le> unat (drop_bit 7 b) \<longrightarrow>
      (\<exists>d. dcache_access b c = Ok d \<and> dcachemiss d = dcachemiss c + 1))"
proof (intro conjI)
  show "\<exists>d. fold_res dcache_access as c = Ok d \<and> fold_res dcache_access as d = Ok d"
    by (rule dcache.working_set [OF assms]) blast
  show "dcache_access b c = Fault Index_oob \<longleftrightarrow> 512 \<le> dcache_index b"
    by (auto simp: dcache_access_alt AR_core_DCACHE_SIZE_def)
  have "unat (ucast (w :: u32) :: u64) < 2 ^ 32" for w :: u32
  proof -
    have "unat (ucast w :: u64) = take_bit 64 (unat w)" by (simp add: unsigned_ucast_eq)
    also have "\<dots> \<le> unat w" by (rule take_bit_nat_less_eq_self)
    finally show ?thesis using unsigned_less [of w, where 'a = nat] by simp
  qed
  then show "dcache_index b < 512 \<and> 2 ^ 32 \<le> unat (drop_bit 7 b) \<longrightarrow>
      (\<exists>d. dcache_access b c = Ok d \<and> dcachemiss d = dcachemiss c + 1)"
    by (auto simp: dcache_access_alt AR_core_DCACHE_SIZE_def) (metis not_le)
qed

theorem dcache_working_set_witness:
  "\<exists>d. fold_res dcache_access [0x80, 0x100] demo_core = Ok d \<and> fold_res dcache_access [0x80, 0x100] d = Ok d"
  using dcache_working_set [of demo_core "[0x80, 0x100]" 0]
  by (simp add: dcache_index_def dcache_fits_def AR_core_DCACHE_SIZE_def)

section \<open>Bounds of the scoreboard\<close>

text \<open>
  The counters of registers start at 0 (\<open>AX_add_core\<close>) and stay within 8; the flag counter starts at
  whatever the allocation holds.
\<close>

definition regs_within :: "nat \<Rightarrow> Core \<Rightarrow> bool" where
  "regs_within n c \<longleftrightarrow> (\<forall>b \<in> set (busy_reg c) \<union> set (busy_vreg c). unat b \<le> n)"

lemma regs_within_cong: "scoreboard c' = scoreboard c \<Longrightarrow> regs_within n c' = regs_within n c"
  by (simp add: regs_within_def scoreboard_def)

lemma busy_tick_unat: "unat (busy_tick b) = unat b - 1"
  by (cases "b = 0") (auto simp: busy_tick_def unat_minus_one word_gt_0)

lemma regs_within_tick: "regs_within (Suc n) c \<Longrightarrow> regs_within n (scoreboard_tick c)"
proof -
  have "unat b \<le> Suc n \<Longrightarrow> unat (busy_tick b) \<le> n" for b unfolding busy_tick_unat by simp
  then show "regs_within (Suc n) c \<Longrightarrow> regs_within n (scoreboard_tick c)"
    by (auto simp: regs_within_def scoreboard_tick_def)
qed

lemma regs_within_mono: "regs_within m c \<Longrightarrow> m \<le> n \<Longrightarrow> regs_within n c"
  unfolding regs_within_def by (meson order_trans)

lemma unat_ucast_u8: "unat (ucast (b :: u8) :: u32) = unat b"
proof -
  have "unat b < 2 ^ 8" using unsigned_less [of b, where 'a = nat] by simp
  then show ?thesis by (simp add: unsigned_ucast_eq take_bit_nat_eq_self)
qed

lemma wait_for_le:
  "(\<forall>b \<in> set busy. unat b \<le> n) \<Longrightarrow> reg < length busy \<Longrightarrow> unat clear \<le> n \<Longrightarrow> unat (wait_for busy reg clear) \<le> n"
  by (simp add: wait_for_def Let_def unat_ucast_u8)

lemma stall_rega_less: "wf_core c \<Longrightarrow> stall_rega opid opc < length (busy_reg c)"
  "wf_core c \<Longrightarrow> stall_rega opid opc < length (busy_vreg c)"
proof -
  have "unat (drop_bit 3 opc AND 1) \<le> unat (1 :: u32)" unfolding word_le_nat_alt [symmetric] by (rule word_and_le1)
  then have "stall_rega opid opc < 64" by (simp add: stall_rega_def)
  then show "wf_core c \<Longrightarrow> stall_rega opid opc < length (busy_reg c)"
    "wf_core c \<Longrightarrow> stall_rega opid opc < length (busy_vreg c)"
    by (simp_all add: wf_core_def core_sizes)
qed

text \<open>The words that wait for the flags: the branches.\<close>

definition waits_for_flags :: "u32 \<Rightarrow> bool" where
  "waits_for_flags opc \<longleftrightarrow> 0x50 \<le> op_unit opc \<and> op_unit opc \<le> 0x5F"

lemma stall_wait_le:
  assumes "regs_within n c" and "wf_core c" and "unat clear \<le> n"
    and "waits_for_flags opc \<Longrightarrow> unat (busy_flag c) \<le> n"
  shows "unat (stall_wait 0 opid opc c clear) \<le> n"
proof -
  have b: "\<forall>b \<in> set (busy_reg c). unat b \<le> n" "\<forall>b \<in> set (busy_vreg c). unat b \<le> n"
    using assms(1) by (auto simp: regs_within_def)
  have l: "stall_rega opid opc < length (busy_reg c)" "stall_rega opid opc < length (busy_vreg c)"
    "op_regb opc < length (busy_reg c)" "op_regb opc < length (busy_vreg c)"
    "op_regc opc < length (busy_reg c)" "op_regc opc < length (busy_vreg c)"
    using assms(2) stall_rega_less by (simp_all add: wf_core_def core_sizes)
  show ?thesis using b l assms(3,4)
    by (simp add: stall_wait_def Let_def wait_for_le unat_ucast_u8 waits_for_flags_def)
qed

lemma stall_mark_within:
  assumes "regs_within 8 c"
  shows "regs_within 8 (stall_mark i opid opc c)"
    and "busy_flag (stall_mark i opid opc c) \<in> {3, busy_flag c}"
    and "cycle (stall_mark i opid opc c) = cycle c"
proof -
  have pq: "unat (ucast (AX_FPU_CYCLE + stall_pq opid opc) :: u8) \<le> 8" "unat (ucast (AX_ALU_CYCLE + stall_pq opid opc) :: u8) \<le> 8"
    by (simp_all add: stall_pq_def AX_FPU_CYCLE_def AX_ALU_CYCLE_def AX_PQ_CYCLE_def)
  show "regs_within 8 (stall_mark i opid opc c)" using assms pq
    by (auto simp: stall_mark_def Let_def regs_within_def dest!: set_update_subset_insert [THEN subsetD])
qed (simp_all add: stall_mark_def Let_def)

text \<open>One call of the scoreboard.\<close>

lemma pipeline_stall_bounds:
  assumes "AX_Pipeline_stall c = Ok c'" and "wf_core c" and "regs_within 8 c"
  shows "regs_within 8 c'" and "busy_flag c' \<in> {3, busy_tick (busy_flag c)}"
    and "\<exists>n. cycle c' = cycle c + word_of_nat n \<and>
      n \<le> (if waits_for_flags (opcode1 c) then max 7 (unat (busy_flag c) - 1) else 7)"
proof -
  let ?t = "scoreboard_tick c" and ?n = "if waits_for_flags (opcode1 c) then max 7 (unat (busy_flag c) - 1) else 7"
  have t: "regs_within 7 ?t" "wf_core ?t" "cycle ?t = cycle c" "opcode1 ?t = opcode1 c"
    "busy_flag ?t = busy_tick (busy_flag c)"
    using assms(2,3) regs_within_tick [of 7 c] by (simp_all add: scoreboard_tick_def wf_core_def)
  obtain d w where d: "stall_slot 0 (?t, 0) = Ok (d, w)"
    and c': "c' = (emit (''Cycle %d'' @ nl) [PInt (ucast (w + 1))] d)\<lparr>cycle := cycle d + ucast w\<rparr>"
    using assms(1) unfolding AX_Pipeline_stall_eq res_bind_eq_Ok by auto
  obtain opid where m: "d = stall_mark 0 opid (opcode1 c) ?t" "w = stall_wait 0 opid (opcode1 c) ?t 0"
    using d t(4) unfolding stall_slot_def Let_def by (auto split: if_splits)
  note k = stall_mark_within [OF regs_within_mono [OF t(1), of 8, simplified], of 0 opid "opcode1 c"]
  show "regs_within 8 c'" using k(1) unfolding c' m by (simp add: regs_within_def emit_def)
  show "busy_flag c' \<in> {3, busy_tick (busy_flag c)}" using k(2) t(5) unfolding c' m by (simp add: emit_def)
  have "regs_within ?n ?t" using t(1) by (rule regs_within_mono) simp
  then have "unat w \<le> ?n" unfolding m using t(2,5) by (intro stall_wait_le) (simp_all add: busy_tick_unat)
  moreover have "cycle c' = cycle c + word_of_nat (unat w)" using k(3) t(3) unfolding c' m(1) by simp
  ultimately show "\<exists>n. cycle c' = cycle c + word_of_nat n \<and> n \<le> ?n" by blast
qed

lemma AX_Cache_miss_busy: "AX_Cache_miss c = Ok c' \<Longrightarrow> scoreboard c' = scoreboard c"
  by (auto simp: AX_Cache_miss_def dcache_access_def icache_access_def scoreboard_def Let_def split: if_splits)

end
