(* ===== verification/AX_Syscall.thy ===== *)
theory AX_Syscall
  imports AX_Branch "HOL-Library.Char_ord"
begin

text \<open>
  System-call emulation (\<open>AX_syscall_emul\<close> of \<open>syscall.c\<close>). The files and the keyboard of the
  host are the record \<open>host\<close>: functions on a state of the world of any type, each of which may be
  undefined (\<open>fclose\<close> of a number that is no open file). Guest strings are read up to their NUL
  from the block \<open>AX_Memory_Map\<close> points into; a string that runs past the block is a fault.
  \<open>syscall_print\<close> is the print call; \<open>AX_syscall_emul_keeps\<close> what every call leaves alone.
\<close>

record 'w host =
  h_fopen :: "u8 list \<Rightarrow> u8 list \<Rightarrow> 'w \<Rightarrow> (u64 \<times> 'w) res"
  h_fclose :: "u64 \<Rightarrow> 'w \<Rightarrow> 'w res"
  h_fseek :: "u64 \<Rightarrow> u64 \<Rightarrow> u32 \<Rightarrow> 'w \<Rightarrow> 'w res"
  h_ftell :: "u64 \<Rightarrow> 'w \<Rightarrow> 'w res"
  h_getchar :: "'w \<Rightarrow> u32 \<times> 'w"

section \<open>Guest strings\<close>

text \<open>The bytes from an offset of a block up to the first NUL.\<close>

fun c_string_from :: "u8 list \<Rightarrow> u8 list res" where
  "c_string_from [] = Fault Mem_oob"
| "c_string_from (b # bs) = (if b = 0 then Ok [] else res_bind (c_string_from bs) (\<lambda>s. Ok (b # s)))"

definition c_string :: "block \<Rightarrow> nat \<Rightarrow> u8 list res" where
  "c_string b a = c_string_from (map (bdata b) [a..<bsize b])"

definition char_of_u8 :: "u8 \<Rightarrow> char" where
  "char_of_u8 b = char_of (unat b)"

text \<open>\<open>AX_Memory_Map\<close> followed by the string at the pointer it returns.\<close>

definition guest_string :: "Core \<Rightarrow> u64 \<Rightarrow> (Core \<times> u8 list) res" where
  "guest_string core adr =
     (let (core1, r, off) = AX_Memory_Map core adr
      in res_bind (c_string (mem core1 r) off) (\<lambda>s. Ok (core1, s)))"

section \<open>The call\<close>

text \<open>
  The cases of kernel 1; \<open>file\<close>, a static variable that only \<open>fopen\<close> writes and nothing reads,
  is left out. The text of call 1 is the format itself.
\<close>

definition kernel1_call :: "'w host \<Rightarrow> u64 \<Rightarrow> u64 \<Rightarrow> u64 \<Rightarrow> u64 \<Rightarrow> Core \<times> 'w \<Rightarrow> (Core \<times> 'w) res" where
  "kernel1_call H regB reg1 reg2 reg3 = (\<lambda>(core, w).
     (if regB = 0 then
        res_bind (c_printf (''Altair K1 , VM Machine '' @ nl) [] core) (\<lambda>core1. Ok (core1, w))
      else if regB = 1 then
        res_bind (guest_string core reg1) (\<lambda>(core1, s).
        res_bind (c_printf (map char_of_u8 s) [] core1) (\<lambda>core2. Ok (core2, w)))
      else if regB = 2 then Ok (set_ireg 5 0 (set_ireg 4 0 core), w)
      else if regB = 8 then
        res_bind (guest_string core reg2) (\<lambda>(core1, adr).
        res_bind (guest_string core1 reg3) (\<lambda>(core2, adr2).
        res_bind (h_fopen H adr adr2 w) (\<lambda>(file, w1). Ok (set_ireg 4 file core2, w1))))
      else if regB = 0xB then res_bind (h_fclose H reg1 w) (\<lambda>w1. Ok (core, w1))
      else if regB = 0xC then res_bind (h_fseek H reg1 reg2 (ucast reg3) w) (\<lambda>w1. Ok (core, w1))
      else if regB = 0xD then res_bind (h_ftell H reg1 w) (\<lambda>w1. Ok (core, w1))
      else if regB = 0xE then
        (let (ch, w1) = h_getchar H w in Ok (set_ireg 4 (scast ch) core, w1))
      else Ok (core, w)))"

definition AX_syscall_emul :: "'w host \<Rightarrow> Core \<times> 'w \<Rightarrow> (Core \<times> 'w) res" where
  "AX_syscall_emul H = (\<lambda>(core, w).
     (if syscall core \<noteq> 1 then Ok (core, w)
      else
        let regA = ireg core ! 4 AND 0xF0;
            regB = ireg core ! 4 AND 0x0F;
            reg1 = ireg core ! 5;
            reg2 = ireg core ! 6;
            reg3 = ireg core ! 7
        in res_bind (if regA = 0 then kernel1_call H regB reg1 reg2 reg3 (core, w) else Ok (core, w))
             (\<lambda>(core1, w1). Ok (core1\<lparr>syscall := 0\<rparr>, w1))))"

section \<open>What is kept\<close>

text \<open>What a system call leaves alone besides: the program counter, memory, the error code, the scoreboard.\<close>

definition call_keeps :: "Core \<Rightarrow> Core \<Rightarrow> bool" where
  "call_keeps c c' \<longleftrightarrow> core_keeps c c' \<and> pc c' = pc c \<and> mem c' = mem c \<and> error c' = error c \<and>
     scoreboard c' = scoreboard c"

lemma call_keeps_refl [simp]: "call_keeps c c"
  by (simp add: call_keeps_def)

lemma call_keeps_trans: "call_keeps a b \<Longrightarrow> call_keeps b c \<Longrightarrow> call_keeps a c"
  by (auto simp: call_keeps_def intro: core_keeps_trans)

lemma call_keeps_ireg: "call_keeps c c' \<Longrightarrow> call_keeps c (set_ireg i v c')"
  by (simp add: call_keeps_def) (simp add: set_ireg_def scoreboard_def)

lemma call_keeps_emit: "call_keeps c c' \<Longrightarrow> call_keeps c (emit fmt args c')"
  by (simp add: call_keeps_def) (simp add: emit_def scoreboard_def)

lemma call_keeps_syscall: "call_keeps c c' \<Longrightarrow> call_keeps c (c'\<lparr>syscall := x\<rparr>)"
  by (simp add: call_keeps_def) (simp add: scoreboard_def)

lemma guest_string_keeps: "guest_string c a = Ok (c', s) \<Longrightarrow> call_keeps c c'"
  by (auto simp: guest_string_def AX_Memory_Map_def Let_def res_bind_eq_Ok call_keeps_def scoreboard_def split: if_splits)

lemma c_printf_Ok: "c_printf fmt args c = Ok c' \<longleftrightarrow> fmt_ok fmt args \<and> c' = emit fmt args c"
  by (auto simp: c_printf_def)

lemmas call_keeps_intros =
  call_keeps_ireg call_keeps_emit call_keeps_syscall guest_string_keeps call_keeps_refl

lemma kernel1_call_keeps:
  assumes "kernel1_call H k r1 r2 r3 (c, w) = Ok (c', w')"
  shows "call_keeps c c'"
  using assms unfolding kernel1_call_def
  by (auto simp: res_bind_eq_Ok c_printf_Ok split: if_splits prod.splits
      intro: call_keeps_intros call_keeps_trans [OF guest_string_keeps guest_string_keeps])

lemma AX_syscall_emul_keeps:
  assumes "AX_syscall_emul H (c, w) = Ok (c', w')"
  shows "call_keeps c c'" and "syscall c' \<noteq> 1"
proof -
  from assms show "call_keeps c c'"
    by (auto simp: AX_syscall_emul_def res_bind_eq_Ok Let_def split: if_splits prod.splits
        intro: call_keeps_intros dest: kernel1_call_keeps)
  from assms show "syscall c' \<noteq> 1"
    by (auto simp: AX_syscall_emul_def res_bind_eq_Ok Let_def split: if_splits)
qed

section \<open>Printing a guest string\<close>

lemma c_string_from_nul: "0 \<notin> set s \<Longrightarrow> c_string_from (s @ 0 # bs) = Ok s"
  by (induction s) auto

lemma c_string_nul:
  assumes "rd_block b a (length s + 1) = Ok (s @ [0])" and "0 \<notin> set s"
  shows "c_string b a = Ok s"
proof -
  let ?n = "length s + 1"
  have b: "a + ?n \<le> bsize b" "map (bdata b) [a..<a + ?n] = s @ [0]"
    using assms(1) by (auto simp: rd_block_def guard_res_def split: if_splits)
  have "[a..<bsize b] = [a..<a + ?n] @ [a + ?n..<bsize b]"
    using upt_add_eq_append [of a "a + ?n" "bsize b - (a + ?n)"] b(1) by simp
  then have "map (bdata b) [a..<bsize b] = s @ 0 # map (bdata b) [a + ?n..<bsize b]"
    using b(2) by (simp only: map_append) simp
  then show ?thesis using assms(2) by (simp add: c_string_def c_string_from_nul)
qed

lemma fmt_ok_prefix: "CHR ''%'' \<notin> set pre \<Longrightarrow> fmt_ok (pre @ fmt) args = fmt_ok fmt args"
  by (induction pre arbitrary: args) auto

lemma fmt_not_ok:
  assumes "CHR ''%'' \<notin> set pre" "\<forall>c \<in> set mods. fmt_modifier c" "\<not> fmt_modifier k" "k \<noteq> CHR ''%''"
  shows "\<not> fmt_ok (pre @ CHR ''%'' # mods @ k # rest) []"
proof -
  have "dropWhile fmt_modifier (mods @ k # rest) = k # rest"
    using assms(2,3) by (induction mods) auto
  then show ?thesis using assms by (simp add: fmt_ok_prefix)
qed

text \<open>
  C31. Call 1 of the kernel prints the guest string at \<open>r5\<close>, and otherwise only clears the request: the
  string is the format itself, so that one with a conversion in it has no argument to take.
\<close>
theorem syscall_print:
  assumes "syscall core = 1" "ireg core ! 4 AND 0xFF = 1" "0 \<notin> set s"
    and "mem_read (region_of (ireg core ! 5)) core (region_off (mmap core) (ireg core ! 5)) (length s + 1) = Ok (s @ [0])"
  shows "(CHR ''%'' \<notin> set (map char_of_u8 s) \<longrightarrow>
      (\<exists>x. AX_syscall_emul H (core, w) =
        Ok (core\<lparr>iorw := x, syscall := 0, out := out core @ [Out_printf (map char_of_u8 s) []]\<rparr>, w))) \<and>
    (\<forall>pre mods k rest. map char_of_u8 s = pre @ CHR ''%'' # mods @ k # rest \<and> CHR ''%'' \<notin> set pre \<and>
        (\<forall>c \<in> set mods. fmt_modifier c) \<and> \<not> fmt_modifier k \<and> k \<noteq> CHR ''%'' \<longrightarrow>
      AX_syscall_emul H (core, w) = Fault Bad_format)"
proof -
  have kernel: "ireg core ! 4 AND 0xF0 = 0" "ireg core ! 4 AND 0x0F = 1"
  proof -
    have "ireg core ! 4 AND 0xF0 = (ireg core ! 4 AND 0xFF) AND 0xF0"
      and "ireg core ! 4 AND 0x0F = (ireg core ! 4 AND 0xFF) AND 0x0F"
      by (simp_all add: and.assoc)
    then show "ireg core ! 4 AND 0xF0 = 0" "ireg core ! 4 AND 0x0F = 1" unfolding assms(2) by simp_all
  qed
  obtain x where s: "guest_string core (ireg core ! 5) = Ok (core\<lparr>iorw := x\<rparr>, s)"
  proof -
    have "c_string (mem core (region_of (ireg core ! 5))) (region_off (mmap core) (ireg core ! 5)) = Ok s"
      using assms(3,4) by (intro c_string_nul) (simp_all add: mem_read_def)
    then have "\<exists>x. guest_string core (ireg core ! 5) = Ok (core\<lparr>iorw := x\<rparr>, s)"
      by (cases "region_of (ireg core ! 5) = IO")
         (auto simp: guest_string_def AX_Memory_Map_def Let_def intro: exI [of _ "iorw core"])
    then show thesis using that by blast
  qed
  have call: "AX_syscall_emul H (core, w) =
      (if fmt_ok (map char_of_u8 s) []
       then Ok (core\<lparr>iorw := x, syscall := 0, out := out core @ [Out_printf (map char_of_u8 s) []]\<rparr>, w)
       else Fault Bad_format)"
    using assms(1) by (simp add: AX_syscall_emul_def kernel1_call_def kernel s c_printf_def guard_res_def emit_def)
  show ?thesis unfolding call by (auto simp: fmt_ok_plain fmt_not_ok)
qed

definition demo_printer :: "u8 list \<Rightarrow> Core" where
  "demo_printer bs =
     demo_core\<lparr>syscall := 1, ireg := (replicate 64 0)[4 := 1, 5 := 0x80000000],
       mem := (\<lambda>r. \<lparr>bsize = 0x8000, bdata = (\<lambda>i. if i < length bs then bs ! i else 0)\<rparr>)\<rparr>"

lemma demo_printer_read:
  "length bs \<le> n \<Longrightarrow> n \<le> 0x8000 \<Longrightarrow> region_off (mmap (demo_printer bs)) (ireg (demo_printer bs) ! 5) = 0 \<and>
     mem_read r (demo_printer bs) 0 n = Ok (bs @ replicate (n - length bs) 0)"
  by (auto simp: demo_printer_def region_off_def region_of_def addr_bit_def mem_read_def rd_block_def
      guard_res_def demo_core_def nth_append list_eq_iff_nth_eq)

theorem syscall_print_witness:
  "\<forall>H :: unit host.
     (\<exists>x. AX_syscall_emul H (demo_printer [0x48, 0x69], ()) =
        Ok ((demo_printer [0x48, 0x69])\<lparr>iorw := x, syscall := 0, out := [Out_printf ''Hi'' []]\<rparr>, ())) \<and>
     AX_syscall_emul H (demo_printer [0x25, 0x64], ()) = Fault Bad_format"
proof (intro allI conjI)
  fix H :: "unit host"
  have call: "syscall (demo_printer bs) = 1" "ireg (demo_printer bs) ! 4 AND 0xFF = 1" "out (demo_printer bs) = []" for bs
    by (simp_all add: demo_printer_def demo_core_def)
  have rd: "mem_read (region_of (ireg (demo_printer bs) ! 5)) (demo_printer bs)
      (region_off (mmap (demo_printer bs)) (ireg (demo_printer bs) ! 5)) (length bs + 1) = Ok (bs @ [0])"
    if "length bs < 0x8000" for bs
    using demo_printer_read [of bs "length bs + 1"] that by simp
  have hi: "char_of_u8 0x48 = CHR ''H''" "char_of_u8 0x69 = CHR ''i''"
    and d: "char_of_u8 0x25 = CHR ''%''" "char_of_u8 0x64 = CHR ''d''" by code_simp+
  show "\<exists>x. AX_syscall_emul H (demo_printer [0x48, 0x69], ()) =
        Ok ((demo_printer [0x48, 0x69])\<lparr>iorw := x, syscall := 0, out := [Out_printf ''Hi'' []]\<rparr>, ())"
    using syscall_print [OF call(1,2) _ rd, of "[0x48, 0x69]" H "()"] call(3) by (simp add: hi)
  have "\<not> fmt_modifier CHR ''d''" by (simp add: fmt_modifier_def)
  then show "AX_syscall_emul H (demo_printer [0x25, 0x64], ()) = Fault Bad_format"
    using syscall_print [OF call(1,2) _ rd, of "[0x25, 0x64]" H "()"]
    by (auto simp: d dest!: spec [of _ "[]"])
qed

end
