(* ===== verification/AX_Run.thy ===== *)
theory AX_Run
  imports AX_Debug AX_Cycle AX_Syscall
begin

text \<open>
  The run loops of \<open>vm.c\<close>: \<open>AX_exe_core\<close> and its modes 0 to 3, each a \<open>while (core->error == 0)\<close>
  around a step of its own, with the report at the end. A guest program need not end, so the loop
  is a partial function: \<open>None\<close> is a run that does not return, \<open>Some (Fault f)\<close> one that meets
  undefined behaviour. The locale states what any such loop guarantees and when it returns; every
  mode interprets it.
\<close>

section \<open>The loop\<close>

type_synonym 'w vm = "Core \<times> 'w"

partial_function (option) run_loop :: "('w vm \<Rightarrow> 'w vm res) \<Rightarrow> 'w vm \<Rightarrow> 'w vm res option" where
  "run_loop step s =
     (if error (fst s) \<noteq> 0 then Some (Ok s)
      else case step s of Inl f \<Rightarrow> Some (Fault f) | Inr s' \<Rightarrow> run_loop step s')"

text \<open>The same loop with a bound on the number of iterations.\<close>

fun run_fuel :: "nat \<Rightarrow> ('w vm \<Rightarrow> 'w vm res) \<Rightarrow> 'w vm \<Rightarrow> 'w vm res option" where
  "run_fuel 0 step s = (if error (fst s) \<noteq> 0 then Some (Ok s) else None)"
| "run_fuel (Suc n) step s =
     (if error (fst s) \<noteq> 0 then Some (Ok s)
      else case step s of Inl f \<Rightarrow> Some (Fault f) | Inr s' \<Rightarrow> run_fuel n step s')"

lemma run_fuel_run_loop: "run_fuel n step s = Some r \<Longrightarrow> run_loop step s = Some r"
  by (induction n arbitrary: s) (subst run_loop.simps, auto split: if_splits sum.splits)+

lemma run_loop_run_fuel:
  assumes "run_loop step s = Some r"
  shows "\<exists>n. run_fuel n step s = Some r"
proof (rule run_loop.raw_induct [OF _ assms])
  fix run :: "('w vm \<Rightarrow> 'w vm res) \<Rightarrow> 'w vm \<Rightarrow> 'w vm res option" and step s r
  assume IH: "\<And>step s r. run step s = Some r \<Longrightarrow> \<exists>n. run_fuel n step s = Some r"
    and body: "(if error (fst s) \<noteq> 0 then Some (Ok s)
      else case step s of Inl f \<Rightarrow> Some (Fault f) | Inr s' \<Rightarrow> run step s') = Some r"
  show "\<exists>n. run_fuel n step s = Some r"
  proof (cases "error (fst s) = 0")
    case False
    with body show ?thesis by (auto intro: exI [of _ 0])
  next
    case True
    show ?thesis
    proof (cases "step s")
      case (Inl f)
      with True body show ?thesis by (auto intro: exI [of _ 1])
    next
      case (Inr s')
      with body True obtain n where "run_fuel n step s' = Some r" using IH [of step s' r] by auto
      then show ?thesis using True Inr by (auto intro: exI [of _ "Suc n"])
    qed
  qed
qed

lemma run_loop_iff_fuel: "run_loop step s = Some r \<longleftrightarrow> (\<exists>n. run_fuel n step s = Some r)"
  using run_fuel_run_loop run_loop_run_fuel by blast

section \<open>The contract of a mode\<close>

text \<open>A step keeps what \<open>core_keeps\<close> names when it starts from a well-formed core.\<close>

locale core_loop =
  fixes step :: "'w vm \<Rightarrow> 'w vm res"
  assumes step_keeps: "step (c, w) = Ok (c', w') \<Longrightarrow> wf_core c \<Longrightarrow> core_keeps c c'"
begin

lemma fuel_keeps:
  "run_fuel n step (c, w) = Some (Ok (c', w')) \<Longrightarrow> wf_core c \<Longrightarrow> core_keeps c c' \<and> error c' \<noteq> 0"
proof (induction n arbitrary: c w)
  case 0
  then show ?case by (simp split: if_splits)
next
  case (Suc n)
  show ?case
  proof (cases "error c = 0")
    case False
    with Suc.prems show ?thesis by simp
  next
    case True
    with Suc.prems obtain d v where d: "step (c, w) = Ok (d, v)"
      and r: "run_fuel n step (d, v) = Some (Ok (c', w'))"
      by (auto split: sum.splits)
    have k: "core_keeps c d" using d Suc.prems(2) by (rule step_keeps)
    then have "wf_core d" using Suc.prems(2) by (rule core_keeps_wf)
    from Suc.IH [OF r this] k show ?thesis by (blast intro: core_keeps_trans)
  qed
qed

text \<open>A run that returns ends with the code of \<open>ENDP\<close> and a well-formed core.\<close>

lemma returns_end_of_code:
  assumes "run_loop step (c, w) = Some (Ok (c', w'))" and "wf_core c" and "error c = 0"
  shows "error c' = AX_END_OF_CODE" and "core_keeps c c'"
proof -
  from assms(1) obtain n where "run_fuel n step (c, w) = Some (Ok (c', w'))"
    by (auto simp: run_loop_iff_fuel)
  from fuel_keeps [OF this assms(2)] show "core_keeps c c'" and "error c' = AX_END_OF_CODE"
    using assms(3) by (auto simp: core_keeps_def)
qed

end

section \<open>The report\<close>

definition u64_to_f32 :: "u64 \<Rightarrow> u32" where
  "u64_to_f32 w = pack32 0 (FFin False (unat w) 0)"

definition AX_exe_core_printinfo :: "fenv \<Rightarrow> Core \<Rightarrow> Core" where
  "AX_exe_core_printinfo E core =
     (let ipc = f32_div E (u64_to_f32 (instruction core)) (u64_to_f32 (cycle core))
      in fold (\<lambda>(fmt, a). emit fmt [a])
           [(nl @ ''%ld instructions'' @ nl, PInt (instruction core)),
            (''%ld cycle'' @ nl, PInt (cycle core)),
            (''IPC : %f'' @ nl @ nl, PDouble (f32_to_f64 E ipc)),
            (''%ld inst cache cycle'' @ nl, PInt (icachemiss_cycle core)),
            (''%ld data cache cycle'' @ nl, PInt (dcachemiss_cycle core)),
            (''%ld total cycle'' @ nl,
              PInt (cycle core + dcachemiss_cycle core + icachemiss_cycle core)),
            (''%ld icache miss'' @ nl, PInt (icachemiss core)),
            (''%ld dcache miss'' @ nl, PInt (dcachemiss core))] core)"

text \<open>What every mode does around its loop: clear the error, run, report, return the error.\<close>

definition run_mode :: "fenv \<Rightarrow> ('w vm \<Rightarrow> 'w vm res) \<Rightarrow> 'w vm \<Rightarrow> (u32 \<times> 'w vm) res option" where
  "run_mode E step = (\<lambda>(core, w).
     map_option
       (\<lambda>r. res_bind r (\<lambda>(c, v). let c' = AX_exe_core_printinfo E c in Ok (error c', (c', v))))
       (run_loop step (core\<lparr>error := 0\<rparr>, w)))"

section \<open>The modes\<close>

text \<open>A part of a step that sees the core only.\<close>

definition on_core :: "(Core \<Rightarrow> Core res) \<Rightarrow> 'w vm \<Rightarrow> 'w vm res" where
  "on_core f = (\<lambda>(core, w). res_bind (f core) (\<lambda>c. Ok (c, w)))"

definition step_mode0 :: "fenv \<Rightarrow> 'w host \<Rightarrow> 'w vm \<Rightarrow> 'w vm res" where
  "step_mode0 E H s =
     res_bind (on_core (AX_decode_execute E) s) (AX_syscall_emul H)"

definition step_mode1 :: "fenv \<Rightarrow> 'w host \<Rightarrow> 'w vm \<Rightarrow> 'w vm res" where
  "step_mode1 E H s =
     res_bind (on_core (AX_decode_execute E) s) (\<lambda>s1.
     res_bind (on_core (AX_debug E) s1) (\<lambda>s2.
     res_bind (on_core AX_Pipeline_stall s2) (\<lambda>s3.
     res_bind (on_core AX_Cache_miss s3) (AX_syscall_emul H))))"

definition step_mode2 :: "fenv \<Rightarrow> 'w host \<Rightarrow> 'w vm \<Rightarrow> 'w vm res" where
  "step_mode2 E H s =
     res_bind (on_core (AX_decode_execute E) s) (\<lambda>s1.
     res_bind (on_core AX_Pipeline_stall s1) (\<lambda>s2.
     res_bind (on_core AX_Cache_miss s2) (AX_syscall_emul H)))"

text \<open>Mode 3 counts its iterations in the \<open>int\<close> \<open>iocount\<close>, here the world of the loop.\<close>

definition step_mode3 :: "fenv \<Rightarrow> nat vm \<Rightarrow> nat vm res" where
  "step_mode3 E = (\<lambda>(core, iocount).
     res_bind (AX_decode_execute E core) (\<lambda>c.
     guard_res (iocount < 2 ^ 31 - 1) Int_overflow (c\<lparr>cycle := cycle c + 1\<rparr>, Suc iocount)))"

text \<open>
  \<open>AX_exe_core\<close> looks at the clock when its counter \<open>t\<close> has gone past \<open>0x10000\<close>; the clock is a
  function on the world that yields ticks of \<open>1 / CLOCKS_PER_SEC\<close> (a millionth of a second).
\<close>

definition step_exe_core ::
    "fenv \<Rightarrow> ('w \<Rightarrow> int \<times> 'w) \<Rightarrow> (nat \<times> int \<times> 'w) vm \<Rightarrow> (nat \<times> int \<times> 'w) vm res" where
  "step_exe_core E clk = (\<lambda>(core, t, tbegin, w).
     res_bind (AX_decode_execute E core) (\<lambda>c.
     let t1 = t + 1
     in if 0x10000 < t1 then
          let (now, w1) = clk w
          in if tbegin + 1000000 < now then
               let frq = f32_div E (u64_to_f32 (cycle c)) 0x49742400;
                   c1 = emit (''Frequence : %.2f MHz'' @ nl) [PDouble (f32_to_f64 E frq)] c;
                   (now2, w2) = clk w1
               in Ok (c1\<lparr>cycle := 0\<rparr>, 0, now2, w2)
             else Ok (c, 0, tbegin, w1)
        else Ok (c, t1, tbegin, w)))"

definition AX_exe_core_mode0 :: "fenv \<Rightarrow> 'w host \<Rightarrow> 'w vm \<Rightarrow> (u32 \<times> 'w vm) res option" where
  "AX_exe_core_mode0 E H = run_mode E (step_mode0 E H)"

definition AX_exe_core_mode1 :: "fenv \<Rightarrow> 'w host \<Rightarrow> 'w vm \<Rightarrow> (u32 \<times> 'w vm) res option" where
  "AX_exe_core_mode1 E H = run_mode E (step_mode1 E H)"

definition AX_exe_core_mode2 :: "fenv \<Rightarrow> 'w host \<Rightarrow> 'w vm \<Rightarrow> (u32 \<times> 'w vm) res option" where
  "AX_exe_core_mode2 E H = run_mode E (step_mode2 E H)"

definition AX_exe_core_mode3 :: "fenv \<Rightarrow> Core \<Rightarrow> (u32 \<times> nat vm) res option" where
  "AX_exe_core_mode3 E core = run_mode E (step_mode3 E) (core, 0)"

definition AX_exe_core ::
    "fenv \<Rightarrow> ('w \<Rightarrow> int \<times> 'w) \<Rightarrow> 'w vm \<Rightarrow> (u32 \<times> (nat \<times> int \<times> 'w) vm) res option" where
  "AX_exe_core E clk = (\<lambda>(core, w).
     (let (tbegin, w1) = clk w in run_mode E (step_exe_core E clk) (core, 0, tbegin, w1)))"

section \<open>Every mode keeps the contract\<close>

lemma on_core_decode_keeps:
  "on_core (AX_decode_execute E) (c, w) = Ok (c', w') \<Longrightarrow> wf_core c \<Longrightarrow> core_keeps c c'"
  by (auto simp: on_core_def res_bind_eq_Ok AX_decode_execute_keeps)

lemma AX_syscall_emul_core_keeps: "AX_syscall_emul H (c, w) = Ok (c', w') \<Longrightarrow> core_keeps c c'"
  using AX_syscall_emul_keeps(1) [of H c w c' w'] by (simp add: call_keeps_def)

lemma AX_debug_keeps: "AX_debug E c = Ok c' \<Longrightarrow> core_keeps c c'"
  by (auto dest!: AX_debug_prints simp: only_prints_def)

lemma on_core_keeps:
  "on_core (AX_debug E) (c, w) = Ok (c', w') \<Longrightarrow> core_keeps c c'"
  "on_core AX_Pipeline_stall (c, w) = Ok (c', w') \<Longrightarrow> core_keeps c c'"
  "on_core AX_Cache_miss (c, w) = Ok (c', w') \<Longrightarrow> core_keeps c c'"
  by (auto simp: on_core_def res_bind_eq_Ok AX_debug_keeps AX_Pipeline_stall_keeps AX_Cache_miss_keeps)

lemmas mode_keeps = on_core_decode_keeps on_core_keeps AX_syscall_emul_core_keeps

interpretation mode0: core_loop "step_mode0 E H" for E H
  by unfold_locales
    (auto simp: step_mode0_def res_bind_eq_Ok intro: core_keeps_trans dest: mode_keeps)

interpretation mode1: core_loop "step_mode1 E H" for E H
  by unfold_locales
    (auto simp: step_mode1_def res_bind_eq_Ok dest!: mode_keeps, meson core_keeps_trans)

interpretation mode2: core_loop "step_mode2 E H" for E H
  by unfold_locales
    (auto simp: step_mode2_def res_bind_eq_Ok dest!: mode_keeps intro: core_keeps_trans)

interpretation mode3: core_loop "step_mode3 E" for E
  by unfold_locales
    (auto simp: step_mode3_def res_bind_eq_Ok dest: AX_decode_execute_keeps)

interpretation exe_core: core_loop "step_exe_core E clk" for E clk
  by unfold_locales
    (auto simp: step_exe_core_def res_bind_eq_Ok Let_def dest!: AX_decode_execute_keeps
      split: if_splits prod.splits)

lemma printinfo_kept [simp]:
  "error (AX_exe_core_printinfo E c) = error c" "wf_core (AX_exe_core_printinfo E c) = wf_core c"
  "mem (AX_exe_core_printinfo E c) = mem c" "ireg (AX_exe_core_printinfo E c) = ireg c"
  by (simp_all add: AX_exe_core_printinfo_def Let_def)

lemma run_mode_eq_Ok:
  "run_mode E step (c, w) = Some (Ok (e, c', v)) \<longleftrightarrow>
     (\<exists>d. run_loop step (c\<lparr>error := 0\<rparr>, w) = Some (Ok (d, v)) \<and>
       c' = AX_exe_core_printinfo E d \<and> e = error c')"
  by (auto simp: run_mode_def res_bind_eq_Ok Let_def)

lemma core_keeps_clear_error: "core_keeps (c\<lparr>error := 0\<rparr>) c' \<Longrightarrow>
    (wf_core c \<longrightarrow> wf_core c') \<and> (\<forall>r. bsize (mem c' r) = bsize (mem c r))"
  by (simp add: core_keeps_def wf_core_def)

lemma wf_clear_error [simp]: "wf_core (c\<lparr>error := 0\<rparr>) = wf_core c"
  by (simp add: wf_core_def)

section \<open>Runs\<close>

text \<open>A run that stays in a set of states without error, closed under the step, never returns.\<close>

context core_loop
begin

lemma fuel_diverges:
  assumes "\<And>s. I s \<Longrightarrow> error (fst s) = 0 \<and> (\<exists>s'. step s = Ok s' \<and> I s')"
  shows "I s \<Longrightarrow> run_fuel n step s = None"
proof (induction n arbitrary: s)
  case 0
  with assms show ?case by auto
next
  case (Suc n)
  from assms [OF Suc.prems] obtain s' where "step s = Ok s'" "I s'" "error (fst s) = 0" by blast
  with Suc.IH show ?case by simp
qed

lemma diverges:
  assumes "\<And>s. I s \<Longrightarrow> error (fst s) = 0 \<and> (\<exists>s'. step s = Ok s' \<and> I s')" and "I s"
  shows "run_loop step s = None"
proof (cases "run_loop step s")
  case (Some r)
  then obtain n where "run_fuel n step s = Some r" by (auto simp: run_loop_iff_fuel)
  then show ?thesis using fuel_diverges [OF assms] by simp
qed

text \<open>When the step can be taken and leads to a state with an error, the run returns that state.\<close>

lemma returns_after_step:
  assumes "step s = Ok s'" and "error (fst s) = 0" and "error (fst s') \<noteq> 0"
  shows "run_loop step s = Some (Ok s')"
  by (rule run_fuel_run_loop [of 1]) (use assms in simp)

lemma run_mode_returns:
  assumes "run_mode E step (c, w) = Some (Ok (e, c', v))" and "wf_core c"
  shows "e = AX_END_OF_CODE \<and> wf_core c' \<and> (\<forall>r. bsize (mem c' r) = bsize (mem c r))"
proof -
  obtain d where d: "run_loop step (c\<lparr>error := 0\<rparr>, w) = Some (Ok (d, v))"
    and c': "c' = AX_exe_core_printinfo E d" "e = error c'"
    using assms(1) by (auto simp: run_mode_eq_Ok)
  have "wf_core (c\<lparr>error := 0\<rparr>)" "error (c\<lparr>error := 0\<rparr>) = 0" using assms(2) by simp_all
  from returns_end_of_code [OF d this] core_keeps_clear_error assms(2) c' show ?thesis by simp
qed

end


section \<open>Properties\<close>

text \<open>
  C4. Whatever the guest program and the host do, a run of mode 0, 1, 2 or 3 that returns from a
  well-formed core returns the end-of-code value 1 and leaves a well-formed core with memory blocks
  of the same sizes: no other error code ever comes out of the VM.
\<close>
theorem modes_return_end_of_code:
  assumes "wf_core c"
    and "AX_exe_core_mode0 E H (c, w) = Some (Ok (e, c', w')) \<or>
      AX_exe_core_mode1 E H (c, w) = Some (Ok (e, c', w')) \<or>
      AX_exe_core_mode2 E H (c, w) = Some (Ok (e, c', w')) \<or>
      AX_exe_core_mode3 E c = Some (Ok (e, c', n))"
  shows "e = AX_END_OF_CODE \<and> wf_core c' \<and> (\<forall>r. bsize (mem c' r) = bsize (mem c r))"
  using assms(2) unfolding AX_exe_core_mode0_def AX_exe_core_mode1_def AX_exe_core_mode2_def
    AX_exe_core_mode3_def
  by (elim disjE) (erule mode0.run_mode_returns mode1.run_mode_returns mode2.run_mode_returns
    mode3.run_mode_returns; rule assms(1))+

definition demo_host :: "unit host" where
  "demo_host = \<lparr>h_fopen = \<lambda>a b w. Ok (0, w), h_fclose = \<lambda>f w. Fault Uninit,
     h_fseek = \<lambda>f o1 o2 w. Ok w, h_ftell = \<lambda>f w. Ok w, h_getchar = \<lambda>w. (0xFFFFFFFF, w)\<rparr>"

lemma demo_endp_step:
  "AX_decode_execute demo_env (demo_prog [0x90]) =
     Ok ((demo_prog [0x90])\<lparr>cycle := 1, instruction := 1, opcode1 := 0x90, pc := 0x41, error := 1\<rparr>)"
  by (simp add: demo_step other_ops_def AX_END_OF_CODE_def)

lemma demo_endp_mode0:
  "\<exists>c'. AX_exe_core_mode0 demo_env demo_host (demo_prog [0x90], ()) = Some (Ok (1, c', ()))"
proof -
  let ?p = "demo_prog [0x90]"
  have e0: "?p\<lparr>error := 0\<rparr> = ?p" by (simp add: demo_prog_def demo_core_def)
  have "syscall ?p = 0" by (simp add: demo_prog_def demo_core_def)
  then have "step_mode0 demo_env demo_host (?p, ()) =
      Ok (?p\<lparr>cycle := 1, instruction := 1, opcode1 := 0x90, pc := 0x41, error := 1\<rparr>, ())"
    by (simp add: step_mode0_def on_core_def demo_endp_step AX_syscall_emul_def)
  then have "run_loop (step_mode0 demo_env demo_host) (?p, ()) =
      Some (Ok (?p\<lparr>cycle := 1, instruction := 1, opcode1 := 0x90, pc := 0x41, error := 1\<rparr>, ()))"
    by (rule mode0.returns_after_step) simp_all
  then show ?thesis unfolding AX_exe_core_mode0_def run_mode_eq_Ok by (simp add: e0)
qed

theorem modes_return_end_of_code_witness:
  "\<exists>e c'. AX_exe_core_mode0 demo_env demo_host (demo_prog [0x90], ()) = Some (Ok (e, c', ())) \<and>
     e = AX_END_OF_CODE \<and> wf_core c'"
proof -
  obtain c' where c': "AX_exe_core_mode0 demo_env demo_host (demo_prog [0x90], ()) = Some (Ok (1, c', ()))"
    using demo_endp_mode0 by blast
  have "wf_core (demo_prog [0x90])" by simp
  from modes_return_end_of_code [OF this disjI1 [OF c']] c' show ?thesis by auto
qed

text \<open>
  Liveness of the end of a program: a core whose next word is \<open>ENDP\<close> (alone in its bundle, no
  branch pending, no system call pending) makes mode 0 return after one step, with exit value 1,
  registers and memory as they were.
\<close>
theorem endp_returns:
  assumes "fetch_word c (pc c) = Ok opc" and "op_unit opc = 0x48" and "opc AND 1 = 0"
    and "delay c \<noteq> 1" and "syscall c \<noteq> 1"
  shows "\<exists>c'. AX_exe_core_mode0 E H (c, w) = Some (Ok (1, c', w)) \<and> ireg c' = ireg c \<and> mem c' = mem c"
proof -
  let ?c = "c\<lparr>error := 0\<rparr>"
  let ?d = "(step_start ?c)\<lparr>opcode1 := opc, pc := pc c + 1, error := AX_END_OF_CODE\<rparr>"
  have f: "fetch_word ?c (pc ?c) = Ok opc" using assms(1) by (simp add: fetch_word_def mem_read_def)
  have "AX_decode_execute E ?c = Ok ?d"
    unfolding decode_execute_parts second_slot_parts using f assms(3,4)
    by (simp add: exec0_ENDP [OF assms(2)])
  then have "step_mode0 E H (?c, w) = Ok (?d, w)"
    using assms(4,5) by (simp add: step_mode0_def on_core_def AX_syscall_emul_def step_start_def Let_def)
  then have "run_loop (step_mode0 E H) (?c, w) = Some (Ok (?d, w))"
    by (rule mode0.returns_after_step) (simp_all add: AX_END_OF_CODE_def)
  moreover have "error ?d = 1" "ireg ?d = ireg c" "mem ?d = mem c"
    using assms(4) by (simp_all add: AX_END_OF_CODE_def step_start_def Let_def)
  ultimately show ?thesis unfolding AX_exe_core_mode0_def run_mode_eq_Ok by auto
qed

theorem endp_returns_witness:
  "\<exists>c'. AX_exe_core_mode0 demo_env demo_host (demo_prog [0x90], ()) = Some (Ok (1, c', ())) \<and>
     ireg c' = replicate 64 0"
proof -
  have "fetch_word (demo_prog [0x90]) (pc (demo_prog [0x90])) = Ok 0x90" by (simp add: fetch_demo_prog_numeral)
  moreover have "op_unit 0x90 = 0x48" by (simp add: op_unit_def)
  moreover have "syscall (demo_prog [0x90]) \<noteq> 1" by (simp add: demo_prog_def demo_core_def)
  ultimately show ?thesis using endp_returns [of "demo_prog [0x90]" "0x90" demo_env demo_host "()"] by auto
qed

definition spinning :: "Core \<Rightarrow> Core \<Rightarrow> bool" where
  "spinning c d \<longleftrightarrow>
     error d = 0 \<and> syscall d \<noteq> 1 \<and> mem d = mem c \<and>
     (pc d = pc c \<and> delay d \<noteq> 1 \<or>
      pc d = pc c + 1 \<and> delay d = 1 \<and> delayop d = 0x5A \<and> imm d = 0xFFFFFFFE)"

lemma fetch_word_cong: "mem d = mem c \<Longrightarrow> fetch_word d p = fetch_word c p"
  by (simp add: fetch_word_def mem_read_def)

lemma spinning_step:
  assumes f: "fetch_word c (pc c) = Ok opc" and bra: "op_unit opc = 0x5A" "opc AND 1 = 0" "imm22 opc = 0x3FFFFE"
    and s: "fetch_word c (pc c + 1) = Ok slot" and nop: "op_unit slot = 0" "slot AND 1 = 0"
    and I: "spinning c d"
  shows "\<exists>d'. AX_decode_execute E d = Ok d' \<and> spinning c d'"
proof (cases "delay d = 1")
  case False
  then have d: "pc d = pc c" "error d = 0" "syscall d \<noteq> 1" "mem d = mem c"
    using I by (auto simp: spinning_def)
  have "fetch_word d (pc d) = Ok opc" using f d fetch_word_cong [OF d(4)] by simp
  then have "AX_decode_execute E d =
      Ok (unit0_bru AX_EXE_BRU_BRA 0x5A opc ((step_start d)\<lparr>opcode1 := opc, pc := pc c + 1\<rparr>))"
    using False bra d unfolding decode_execute_parts second_slot_parts
    by (simp add: exec0_def AX_execute_unit0_def decode0_def bru_ops_def bru_in_unit0_def)
  then show ?thesis using d False bra
    by (simp add: spinning_def unit0_bru_def extendSign_def step_start_def Let_def)
next
  case True
  then have d: "pc d = pc c + 1" "error d = 0" "syscall d \<noteq> 1" "mem d = mem c" "delayop d = 0x5A"
    "imm d = 0xFFFFFFFE" using I by (auto simp: spinning_def)
  let ?s = "step_start d"
  have st: "?s = d\<lparr>cycle := cycle d + 1, instruction := instruction d + 1, delay := 0, pc := pc c - 1\<rparr>"
    using True d by (simp add: step_start_def executeDelayedInstruction_def bru_of_code_def bru_ops_def Let_def)
  have "fetch_word d (pc d) = Ok slot" using s d fetch_word_cong [OF d(4)] by simp
  then have "AX_decode_execute E d = Ok (?s\<lparr>opcode1 := slot, pc := pc c\<rparr>)"
    using nop unfolding decode_execute_parts second_slot_parts
    by (simp add: st exec0_def AX_execute_unit0_def decode0_def alu_ops_def alu_in_unit0_def)
  then show ?thesis using d by (simp add: spinning_def st)
qed

text \<open>
  A guest program can keep the VM busy for ever: two words, a branch to itself with a \<open>NOP\<close> in
  its delay slot, make mode 0 never return, on any host.
\<close>
theorem branch_to_self_never_returns:
  assumes "fetch_word c (pc c) = Ok opc" and "op_unit opc = 0x5A" and "opc AND 1 = 0"
    and "imm22 opc = 0x3FFFFE"
    and "fetch_word c (pc c + 1) = Ok slot" and "op_unit slot = 0" and "slot AND 1 = 0"
    and "delay c \<noteq> 1" and "syscall c \<noteq> 1"
  shows "AX_exe_core_mode0 E H (c, w) = None"
proof -
  have step: "error (fst s) = 0 \<and> (\<exists>s'. step_mode0 E H s = Ok s' \<and> spinning c (fst s'))"
    if I: "spinning c (fst s)" for s
  proof -
    obtain d v where s: "s = (d, v)" by (cases s)
    obtain d' where d': "AX_decode_execute E d = Ok d'" "spinning c d'"
      using spinning_step [OF assms(1-7)] I s by auto
    then have "step_mode0 E H s = Ok (d', v)"
      by (simp add: s step_mode0_def on_core_def AX_syscall_emul_def spinning_def)
    then show ?thesis using d' I s by (simp add: spinning_def)
  qed
  have "spinning c (fst (c\<lparr>error := 0\<rparr>, w))"
    using assms(8,9) by (simp add: spinning_def)
  from mode0.diverges [OF step this] show ?thesis
    by (simp add: AX_exe_core_mode0_def run_mode_def)
qed

theorem branch_to_self_never_returns_witness:
  "AX_exe_core_mode0 demo_env demo_host (demo_prog [0xFFFFF8B4, 0], ()) = None"
proof -
  let ?p = "demo_prog [0xFFFFF8B4, 0]"
  have f: "fetch_word ?p (pc ?p) = Ok 0xFFFFF8B4" "fetch_word ?p (pc ?p + 1) = Ok 0"
    by (simp_all add: fetch_demo_prog_numeral)
  have "syscall ?p \<noteq> 1" by (simp add: demo_prog_def demo_core_def)
  then show ?thesis
    using branch_to_self_never_returns [OF f(1) _ _ _ f(2)] by (simp add: op_unit_def imm22_def)
qed

end
