(* ===== verification/AX_Modes.thy ===== *)
theory AX_Modes
  imports AX_Run
begin

text \<open>
  What the modes have in common. Mode 1 is mode 2 with the debugger, mode 2 is mode 0 with the cycle model.
  The debugger only prints, and the cycle model only writes the counters, tags and busy marks that no
  instruction but \<open>MOVECYCLE\<close> reads. So all three compute the same registers, memory and result. Two
  states are related when they agree outside these fields (\<open>sim\<close>); the units commute with setting the
  fields, and a locale lifts a simulation of steps to one of runs.
\<close>

section \<open>Fields that instructions do not read\<close>

definition ghost :: "Core \<Rightarrow> Core \<Rightarrow> Core" where
  "ghost t c =
     c\<lparr>out := out t, cycle := cycle t, bandwidth := bandwidth t, icachemiss := icachemiss t,
       dcachemiss := dcachemiss t, icachemiss_cycle := icachemiss_cycle t,
       dcachemiss_cycle := dcachemiss_cycle t, busy_reg := busy_reg t, busy_vreg := busy_vreg t,
       busy_flag := busy_flag t, icache := icache t, dcache := dcache t\<rparr>"

text \<open>The fields of the cycle model, with the cycle counter.\<close>

definition timing :: "Core \<Rightarrow> u64 list \<times> u8 list list \<times> u32 list list" where
  "timing c =
     ([cycle c, bandwidth c, icachemiss c, dcachemiss c, icachemiss_cycle c, dcachemiss_cycle c],
      [busy_reg c, busy_vreg c, [busy_flag c]], [icache c, dcache c])"

text \<open>\<open>k\<close>: the timing fields may differ, too.\<close>

definition sim :: "bool \<Rightarrow> Core \<Rightarrow> Core \<Rightarrow> bool" where
  "sim k c d \<longleftrightarrow> d = ghost d c \<and> (k \<or> timing d = timing c)"

lemma ghost_sel [simp]:
  "mmap (ghost t c) = mmap c" "mem (ghost t c) = mem c" "instruction (ghost t c) = instruction c"
  "pc (ghost t c) = pc c" "br (ghost t c) = br c" "lr (ghost t c) = lr c" "ir (ghost t c) = ir c"
  "imm (ghost t c) = imm c" "error (ghost t c) = error c" "iorw (ghost t c) = iorw c"
  "opcode1 (ghost t c) = opcode1 c" "opcode2 (ghost t c) = opcode2 c" "io (ghost t c) = io c"
  "flags (ghost t c) = flags c" "delay (ghost t c) = delay c" "delayop (ghost t c) = delayop c"
  "syscall (ghost t c) = syscall c" "ireg (ghost t c) = ireg c" "vreg (ghost t c) = vreg c"
  "out (ghost t c) = out t" "cycle (ghost t c) = cycle t"
  by (simp_all add: ghost_def)

lemma ghost_upd [simp]:
  "(ghost t c)\<lparr>mem := x1\<rparr> = ghost t (c\<lparr>mem := x1\<rparr>)"
  "(ghost t c)\<lparr>instruction := x2\<rparr> = ghost t (c\<lparr>instruction := x2\<rparr>)"
  "(ghost t c)\<lparr>pc := x3\<rparr> = ghost t (c\<lparr>pc := x3\<rparr>)"
  "(ghost t c)\<lparr>br := x4\<rparr> = ghost t (c\<lparr>br := x4\<rparr>)"
  "(ghost t c)\<lparr>lr := x5\<rparr> = ghost t (c\<lparr>lr := x5\<rparr>)"
  "(ghost t c)\<lparr>ir := x6\<rparr> = ghost t (c\<lparr>ir := x6\<rparr>)"
  "(ghost t c)\<lparr>imm := x7\<rparr> = ghost t (c\<lparr>imm := x7\<rparr>)"
  "(ghost t c)\<lparr>error := x8\<rparr> = ghost t (c\<lparr>error := x8\<rparr>)"
  "(ghost t c)\<lparr>iorw := x9\<rparr> = ghost t (c\<lparr>iorw := x9\<rparr>)"
  "(ghost t c)\<lparr>opcode1 := y1\<rparr> = ghost t (c\<lparr>opcode1 := y1\<rparr>)"
  "(ghost t c)\<lparr>opcode2 := y2\<rparr> = ghost t (c\<lparr>opcode2 := y2\<rparr>)"
  "(ghost t c)\<lparr>flags := y3\<rparr> = ghost t (c\<lparr>flags := y3\<rparr>)"
  "(ghost t c)\<lparr>delay := y4\<rparr> = ghost t (c\<lparr>delay := y4\<rparr>)"
  "(ghost t c)\<lparr>delayop := y5\<rparr> = ghost t (c\<lparr>delayop := y5\<rparr>)"
  "(ghost t c)\<lparr>syscall := y6\<rparr> = ghost t (c\<lparr>syscall := y6\<rparr>)"
  "(ghost t c)\<lparr>ireg := y7\<rparr> = ghost t (c\<lparr>ireg := y7\<rparr>)"
  "(ghost t c)\<lparr>vreg := y8\<rparr> = ghost t (c\<lparr>vreg := y8\<rparr>)"
  by (simp_all add: ghost_def)

lemma ghost_set [simp]:
  "set_ireg i v (ghost t c) = ghost t (set_ireg i v c)" "set_vreg i x (ghost t c) = ghost t (set_vreg i x c)"
  "set_dreg i v (ghost t c) = ghost t (set_dreg i v c)" "set_flags f (ghost t c) = ghost t (set_flags f c)"
  "put_flags z s u (ghost t c) = ghost t (put_flags z s u c)" "dreg (ghost t c) i = dreg c i"
  by (simp_all add: set_ireg_def set_vreg_def set_dreg_def set_flags_def put_flags_def dreg_def)

lemma ghost_self [simp]: "ghost c c = c"
  by (simp add: ghost_def)

lemma timing_ghost: "timing (ghost t c) = timing t"
  by (simp add: timing_def ghost_def)

section \<open>Operations that commute\<close>

definition ghostly :: "(Core \<Rightarrow> Core res) \<Rightarrow> bool" where
  "ghostly f \<longleftrightarrow> (\<forall>t c. f (ghost t c) = map_sum id (ghost t) (f c))"

lemma map_sum_bind: "map_sum id g (res_bind r f) = res_bind r (\<lambda>x. map_sum id g (f x))"
  by (cases r) simp_all

lemma map_sum_guard: "map_sum id g (guard_res b e x) = guard_res b e (g x)"
  by (cases b) simp_all

lemmas ghost_res = map_sum_bind map_sum_guard

lemma ghostly_alu: "ghostly (unit0_alu op rega regb regc sz opc)"
  unfolding ghostly_def by (cases op) (simp_all add: Let_def ghost_res)

lemma ghostly_alu1: "ghostly (unit1_alu op rega regb regc sz opc)"
  unfolding ghostly_def by (cases op) (simp_all add: Let_def ghost_res)

lemma ghostly_cmp: "ghostly (unit0_cmp op rega regb sz opc)"
  unfolding ghostly_def by (cases op) (simp_all add: compare_flags_def)

lemma ghostly_fcmp: "ghostly (unit0A_cmp E op rega regb sz opc)"
  unfolding ghostly_def by (cases op) (simp_all add: Let_def float_flags_def double_flags_def)

lemma ghostly_move: "op \<noteq> AX_EXE_ALU_MOVECYCLE \<Longrightarrow> ghostly (unit0A_move op rega regb)"
  unfolding ghostly_def by (cases op) (simp_all add: Let_def)

lemma fold_ghost: "(\<And>i c. f i (ghost t c) = ghost t (f i c)) \<Longrightarrow> fold f is (ghost t c) = ghost t (fold f is c)"
  by (induction "is" arbitrary: c) simp_all

lemma lanes_ghost:
  "(\<And>i c. f i (ghost t c) = f i c) \<Longrightarrow> lanes sz d f (ghost t c) = ghost t (lanes sz d f c)"
  unfolding lanes_def by (rule fold_ghost) simp

lemma fold_res_ghost:
  "(\<And>i c. f i (ghost t c) = map_sum id (ghost t) (f i c)) \<Longrightarrow>
   fold_res f is (ghost t c) = map_sum id (ghost t) (fold_res f is c)"
proof (induction "is" arbitrary: c)
  case (Cons i "is")
  then show ?case by (cases "f i c") simp_all
qed simp

lemma ghostly_vfpu: "ghostly (unit0A_vfpu E op rega regb regc sz opc)"
  unfolding ghostly_def
  by (cases op) (simp_all add: Let_def lanes_ghost fold_ghost fold_res_ghost ghost_res del: upt_Suc)

lemma take_branch_ghost [simp]: "take_branch b im (ghost t c) = ghost t (take_branch b im c)"
  by (cases b) simp_all

lemma delayed_ghost [simp]: "executeDelayedInstruction (ghost t c) = ghost t (executeDelayedInstruction c)"
  by (simp add: executeDelayedInstruction_def Let_def split: option.splits)

lemma bru_ghost [simp]:
  "unit0_bru b u opc (ghost t c) = ghost t (unit0_bru b u opc c)"
  "unit0A_bru u (ghost t c) = ghost t (unit0A_bru u c)"
  "unit0A_other oth (ghost t c) = ghost t (unit0A_other oth c)"
  by (simp_all add: unit0_bru_def unit0A_bru_def Let_def) (cases oth; simp)

section \<open>Related states\<close>

lemma ghost_ghost [simp]: "ghost (ghost t d) c = ghost t c" "ghost t (ghost u c) = ghost t c"
  by (simp_all add: ghost_def)

lemma sim_refl [simp]: "sim k c c"
  by (simp add: sim_def)

lemma sim_trans: "sim k a b \<Longrightarrow> sim k b c \<Longrightarrow> sim k a c"
  unfolding sim_def by (metis ghost_ghost(2))

lemma sim_sym: "sim k a b \<Longrightarrow> sim k b a"
  unfolding sim_def by (metis ghost_ghost(2) ghost_self)

lemma sim_weaken: "sim k a b \<Longrightarrow> sim True a b"
  by (simp add: sim_def)

lemma sim_sel:
  assumes "sim k c d"
  shows "mmap d = mmap c" "mem d = mem c" "instruction d = instruction c" "pc d = pc c" "error d = error c"
    "opcode1 d = opcode1 c" "opcode2 d = opcode2 c" "flags d = flags c" "delay d = delay c"
    "syscall d = syscall c" "ireg d = ireg c" "vreg d = vreg c"
proof -
  have "d = ghost d c" using assms by (simp add: sim_def)
  then have "f d = f (ghost d c)" for f :: "Core \<Rightarrow> 'x" by simp
  note e = this
  show "mmap d = mmap c" "mem d = mem c" "instruction d = instruction c" "pc d = pc c" "error d = error c"
    "opcode1 d = opcode1 c" "opcode2 d = opcode2 c" "flags d = flags c" "delay d = delay c"
    "syscall d = syscall c" "ireg d = ireg c" "vreg d = vreg c"
    using \<open>d = ghost d c\<close> by (metis ghost_sel)+
qed

lemma sim_cycle: "sim False c d \<Longrightarrow> cycle d = cycle c"
  by (simp add: sim_def timing_def)

text \<open>An update that commutes keeps the relation.\<close>

lemma sim_pure:
  assumes "sim k c d" and "\<And>t c. g (ghost t c) = ghost t (g c)"
  shows "sim k (g c) (g d)"
proof -
  have "g d = ghost d (g c)" using assms by (metis sim_def)
  moreover have "g c = ghost c (g c)" using assms(2) [of c c] by simp
  ultimately show ?thesis using assms(1) unfolding sim_def by (metis ghost_ghost(1) timing_ghost)
qed

lemma ghost_out: "ghost (d\<lparr>out := x\<rparr>) (c\<lparr>out := y\<rparr>) = (ghost d c)\<lparr>out := x\<rparr>" "timing (c\<lparr>out := y\<rparr>) = timing c"
  by (simp_all add: ghost_def timing_def)

lemma sim_out: "sim k c d \<Longrightarrow> sim k (c\<lparr>out := y\<rparr>) (d\<lparr>out := x\<rparr>)"
  unfolding sim_def ghost_out by (elim conjE) (intro conjI arg_cong [where f = "\<lambda>z. z\<lparr>out := x\<rparr>"])

lemma sim_emit: "sim k c d \<Longrightarrow> sim k (emit fmt args c) (emit fmt args d)"
  unfolding emit_def by (rule sim_out)

abbreviation rel_res :: "('a \<Rightarrow> 'b \<Rightarrow> bool) \<Rightarrow> 'a res \<Rightarrow> 'b res \<Rightarrow> bool" where
  "rel_res \<equiv> rel_sum (=)"

lemma rel_bind:
  assumes "rel_res A r s" and "\<And>x y. A x y \<Longrightarrow> rel_res B (f x) (g y)"
  shows "rel_res B (res_bind r f) (res_bind s g)"
  using assms by (cases r; cases s) simp_all

lemma rel_bind_same: "(\<And>x. rel_res B (f x) (g x)) \<Longrightarrow> rel_res B (res_bind r f) (res_bind r g)"
  by (cases r) simp_all

lemma ghostly_sim:
  assumes "ghostly f" and "sim k c d"
  shows "rel_res (sim k) (f c) (f d)"
proof -
  have "f d = map_sum id (ghost d) (f c)" using assms by (metis ghostly_def sim_def)
  moreover have "f c = map_sum id (ghost c) (f c)" using assms(1) by (metis ghostly_def ghost_self)
  ultimately show ?thesis
    using assms(2) by (cases "f c") (simp_all, metis ghost_ghost(1) sim_def timing_ghost)
qed

section \<open>Loads and stores\<close>

lemma mem_write_sim:
  assumes "sim k c d"
  shows "rel_res (sim k) (mem_write r c a bs) (mem_write r d a bs)"
proof (rule ghostly_sim [OF _ assms])
  show "ghostly (\<lambda>c. mem_write r c a bs)" by (simp add: ghostly_def mem_write_def map_sum_bind)
qed

lemma reg_poke_sim: "sim k c d \<Longrightarrow> sim k (reg_poke p bs c) (reg_poke p bs d)"
  by (erule sim_pure [where g = "reg_poke p bs"]) (cases p; simp)

lemma executeStore_sim:
  assumes "sim k c d"
  shows "rel_res (sim k) (executeStore c p a n) (executeStore d p a n)"
proof -
  have "reg_bytes d p m = reg_bytes c p m" for m using sim_sel [OF assms] by (intro reg_bytes_cong) simp_all
  then show ?thesis using assms sim_sel(1) [OF assms]
    by (auto simp: executeStore_def Let_def AX_IO_Write_def intro: mem_write_sim sim_emit)
qed

lemma executeLoad_sim:
  assumes "sim k c d"
  shows "rel_res (sim k) (executeLoad c p a n) (executeLoad d p a n)"
proof -
  have "rel_res (sim k) (AX_IO_Read c a) (AX_IO_Read d a)"
    using assms by (auto simp: AX_IO_Read_def Let_def intro: mem_write_sim sim_emit)
  then show ?thesis using assms sim_sel(1) [OF assms]
    unfolding executeLoad_def Let_def
    by (intro rel_bind [where A = "sim k"])
      (auto simp: mem_read_def sim_sel intro!: rel_bind_same reg_poke_sim)
qed

lemma lsu_sim: "sim k c d \<Longrightarrow> rel_res (sim k) (unit0A_lsu op ra rb rc sz opc c) (unit0A_lsu op ra rb rc sz opc d)"
  unfolding unit0A_lsu_spec lsu_spec_def lsu_addr_def
  by (simp add: sim_sel executeLoad_sim executeStore_sim)

lemma move_sim:
  assumes "sim k c d" and "k \<longrightarrow> op \<noteq> AX_EXE_ALU_MOVECYCLE"
  shows "rel_res (sim k) (unit0A_move op ra rb c) (unit0A_move op ra rb d)"
proof (cases "op = AX_EXE_ALU_MOVECYCLE")
  case True
  then have "cycle d = cycle c" using assms sim_cycle by (cases k) auto
  then show ?thesis using True assms(1) by (simp add: sim_pure [where g = "set_ireg ra (cycle c)"])
next
  case False
  then show ?thesis using ghostly_sim ghostly_move assms(1) by blast
qed

section \<open>The step\<close>

text \<open>The first slot of a bundle reads the cycle counter.\<close>

definition reads_cycle :: "u32 \<Rightarrow> bool" where
  "reads_cycle opcode \<longleftrightarrow> decode0 (op_unit opcode) = Some (S_ALU AX_EXE_ALU_MOVECYCLE)"

lemma rel_Ok [simp]: "rel_res A (Ok x) (Ok y) = A x y" "rel_res A (Fault e) (Fault f) = (e = f)"
  by simp_all

lemma unit0A_sim:
  assumes "sim k c d" and "k \<longrightarrow> decode0 unit \<noteq> Some (S_ALU AX_EXE_ALU_MOVECYCLE)"
  shows "rel_res (sim k) (AX_execute_unit0A E ra rb rc unit sz opc c) (AX_execute_unit0A E ra rb rc unit sz opc d)"
proof (cases "decode0 unit")
  case (Some s)
  note pure = sim_pure [OF assms(1), where g = "unit0A_other oth" for oth] sim_pure [OF assms(1), where g = "unit0A_bru unit"]
  show ?thesis
    using assms Some
    by (cases s) (auto simp: AX_execute_unit0A_def intro: move_sim lsu_sim pure
        ghostly_sim [OF ghostly_fcmp] ghostly_sim [OF ghostly_vfpu])
qed (simp add: AX_execute_unit0A_def assms(1))

lemma exec0_sim:
  assumes "sim k c d" and "k \<longrightarrow> \<not> reads_cycle opc"
  shows "rel_res (sim k) (exec0 E opc c) (exec0 E opc d)"
proof -
  have A: "rel_res (sim k) (AX_execute_unit0A E ra rb rc (op_unit opc) sz opc c) (AX_execute_unit0A E ra rb rc (op_unit opc) sz opc d)"
    for ra rb rc sz using assms by (intro unit0A_sim) (simp_all add: reads_cycle_def)
  have "sim k (unit0_bru b u opc c) (unit0_bru b u opc d)" for b u
    using assms(1) by (rule sim_pure) simp
  then show ?thesis using A assms(1) unfolding exec0_def AX_execute_unit0_def
    by (auto split: option.splits slot0.splits intro: ghostly_sim [OF ghostly_alu] ghostly_sim [OF ghostly_cmp])
qed

lemma exec1_sim: "sim k c d \<Longrightarrow> rel_res (sim k) (exec1 opc c) (exec1 opc d)"
  unfolding exec1_def AX_execute_unit1_def
  by (auto split: option.splits slot1.splits intro: ghostly_sim [OF ghostly_alu1])

lemma fetch_sim: "sim k c d \<Longrightarrow> fetch_word d i = fetch_word c i"
  by (simp add: fetch_word_def mem_read_def sim_sel)

lemma second_slot_sim:
  assumes "sim k c d"
  shows "rel_res (sim k) (second_slot opc c) (second_slot opc d)"
proof (cases "opc AND 1 = 0")
  case False
  define c1 d1 where "c1 = c\<lparr>instruction := instruction c + 1\<rparr>" and "d1 = d\<lparr>instruction := instruction d + 1\<rparr>"
  have s: "sim k c1 d1"
    unfolding c1_def d1_def by (rule sim_pure [OF assms, where g = "\<lambda>c. c\<lparr>instruction := instruction c + 1\<rparr>"]) simp
  have "sim k (c1\<lparr>opcode2 := w, pc := pc c1 + 1\<rparr>) (d1\<lparr>opcode2 := w, pc := pc d1 + 1\<rparr>)" for w
    by (rule sim_pure [OF s, where g = "\<lambda>c. c\<lparr>opcode2 := w, pc := pc c + 1\<rparr>"]) simp
  then have "rel_res (sim k) (res_bind (fetch_word c1 (pc c1 + 1)) (\<lambda>w. exec1 w (c1\<lparr>opcode2 := w, pc := pc c1 + 1\<rparr>)))
      (res_bind (fetch_word d1 (pc d1 + 1)) (\<lambda>w. exec1 w (d1\<lparr>opcode2 := w, pc := pc d1 + 1\<rparr>)))"
    unfolding fetch_sim [OF s] sim_sel(4) [OF s] by (intro rel_bind_same exec1_sim)
  then show ?thesis using False by (simp add: second_slot_def Let_def c1_def d1_def)
qed (simp add: second_slot_def assms)

lemma ghost_cycle: "ghost (d\<lparr>cycle := y\<rparr>) (c\<lparr>cycle := z\<rparr>) = (ghost d c)\<lparr>cycle := y\<rparr>"
  by (simp add: ghost_def)

lemma sim_add_cycle: "sim k c d \<Longrightarrow> sim k (c\<lparr>cycle := cycle c + x\<rparr>) (d\<lparr>cycle := cycle d + x\<rparr>)"
  unfolding sim_def ghost_cycle by (elim conjE) (auto simp: timing_def intro: arg_cong [where f = "\<lambda>z. z\<lparr>cycle := y\<rparr>" for y])

lemma decode_execute_sim:
  assumes "sim k c d" and "\<And>w. k \<Longrightarrow> fetch_word c (pc c) = Ok w \<Longrightarrow> \<not> reads_cycle w"
  shows "rel_res (sim k) (AX_decode_execute E c) (AX_decode_execute E d)"
proof -
  define c1 d1 where "c1 = c\<lparr>cycle := cycle c + 1, instruction := instruction c + 1\<rparr>"
    and "d1 = d\<lparr>cycle := cycle d + 1, instruction := instruction d + 1\<rparr>"
  have s: "sim k c1 d1"
    using sim_pure [OF sim_add_cycle [OF assms(1), of 1], where g = "\<lambda>c. c\<lparr>instruction := instruction c + 1\<rparr>"]
    by (simp add: c1_def d1_def)
  define c2 d2 where "c2 = (if delay c1 = 1 then executeDelayedInstruction c1 else c1)"
    and "d2 = (if delay d1 = 1 then executeDelayedInstruction d1 else d1)"
  have s2: "sim k c2 d2"
    using s sim_pure [OF s, where g = executeDelayedInstruction] by (simp add: c2_def d2_def sim_sel [OF s])
  have "sim k (c2\<lparr>opcode1 := w, pc := pc c2 + 1\<rparr>) (d2\<lparr>opcode1 := w, pc := pc d2 + 1\<rparr>)" for w
    by (rule sim_pure [OF s2, where g = "\<lambda>c. c\<lparr>opcode1 := w, pc := pc c + 1\<rparr>"]) simp
  note s3 = this
  have g: "k \<longrightarrow> \<not> reads_cycle w" if "fetch_word c1 (pc c1) = Ok w" for w
    using assms(2) [of w] that by (auto simp: c1_def fetch_word_def mem_read_def)
  have "rel_res (sim k)
      (res_bind (fetch_word c1 (pc c1)) (\<lambda>w. res_bind (exec0 E w (c2\<lparr>opcode1 := w, pc := pc c2 + 1\<rparr>)) (second_slot w)))
      (res_bind (fetch_word d1 (pc d1)) (\<lambda>w. res_bind (exec0 E w (d2\<lparr>opcode1 := w, pc := pc d2 + 1\<rparr>)) (second_slot w)))"
  proof (cases "fetch_word c1 (pc c1)")
    case (Inr w)
    then show ?thesis unfolding fetch_sim [OF s] sim_sel(4) [OF s]
      using exec0_sim [OF s3 g [OF Inr]] by (auto intro!: rel_bind second_slot_sim)
  qed (simp add: fetch_sim [OF s] sim_sel(4) [OF s])
  then show ?thesis unfolding AX_decode_execute_def Let_def c2_def d2_def c1_def d1_def .
qed

section \<open>System calls\<close>

abbreviation sim_vm :: "bool \<Rightarrow> 'w vm \<Rightarrow> 'w vm \<Rightarrow> bool" where
  "sim_vm k \<equiv> rel_prod (sim k) (=)"

lemma set_ireg_sim: "sim k c d \<Longrightarrow> sim k (set_ireg i v c) (set_ireg i v d)"
  by (erule sim_pure) simp

lemma c_printf_sim: "sim k c d \<Longrightarrow> rel_res (sim k) (c_printf fmt args c) (c_printf fmt args d)"
  by (auto simp: c_printf_def guard_res_def intro: sim_emit)

lemma guest_string_sim:
  assumes "sim k c d"
  shows "rel_res (rel_prod (sim k) (=)) (guest_string c a) (guest_string d a)"
proof -
  have "sim k (c\<lparr>iorw := x\<rparr>) (d\<lparr>iorw := x\<rparr>)" for x
    by (rule sim_pure [OF assms, where g = "\<lambda>c. c\<lparr>iorw := x\<rparr>"]) simp
  then show ?thesis
    using assms by (auto simp: guest_string_def AX_Memory_Map_def Let_def sim_sel [OF assms] intro!: rel_bind_same)
qed

lemma kernel1_sim:
  assumes "sim k c d"
  shows "rel_res (sim_vm k) (kernel1_call H n r1 r2 r3 (c, w)) (kernel1_call H n r1 r2 r3 (d, w))"
proof -
  note g = guest_string_sim
  have 1: "rel_res (sim_vm k) (res_bind (guest_string c r1) (\<lambda>(core1, s). res_bind (c_printf (map char_of_u8 s) [] core1) (\<lambda>core2. Ok (core2, w))))
      (res_bind (guest_string d r1) (\<lambda>(core1, s). res_bind (c_printf (map char_of_u8 s) [] core1) (\<lambda>core2. Ok (core2, w))))"
    by (rule rel_bind [OF g [OF assms]]) (auto intro!: rel_bind [OF c_printf_sim])
  have 8: "rel_res (sim_vm k)
      (res_bind (guest_string c r2) (\<lambda>(core1, adr). res_bind (guest_string core1 r3) (\<lambda>(core2, adr2).
        res_bind (h_fopen H adr adr2 w) (\<lambda>(file, w1). Ok (set_ireg 4 file core2, w1)))))
      (res_bind (guest_string d r2) (\<lambda>(core1, adr). res_bind (guest_string core1 r3) (\<lambda>(core2, adr2).
        res_bind (h_fopen H adr adr2 w) (\<lambda>(file, w1). Ok (set_ireg 4 file core2, w1)))))"
    by (rule rel_bind [OF g [OF assms]])
      (auto intro!: rel_bind [OF guest_string_sim] rel_bind_same set_ireg_sim split: prod.splits)
  show ?thesis using assms 1 8
    by (auto simp: kernel1_call_def intro!: rel_bind [OF c_printf_sim] rel_bind_same set_ireg_sim split: prod.splits)
qed

lemma syscall_sim:
  assumes "sim_vm k s t"
  shows "rel_res (sim_vm k) (AX_syscall_emul H s) (AX_syscall_emul H t)"
proof -
  obtain c d w where st: "s = (c, w)" "t = (d, w)" and cd: "sim k c d" using assms by (cases s; cases t) auto
  have u: "sim k (c'\<lparr>syscall := 0\<rparr>) (d'\<lparr>syscall := 0\<rparr>)" if "sim k c' d'" for c' d'
    by (rule sim_pure [OF that, where g = "\<lambda>c. c\<lparr>syscall := 0\<rparr>"]) simp
  show ?thesis using cd
    by (auto simp: st AX_syscall_emul_def Let_def sim_sel [OF cd] intro!: u rel_bind [OF kernel1_sim])
qed

section \<open>The debugger and the cycle model\<close>

lemma sim_FalseD:
  assumes "sim False c d"
  shows "d = c\<lparr>out := out d\<rparr>"
proof -
  have "ghost d c = c\<lparr>out := out d\<rparr>" using assms by (simp add: sim_def timing_def ghost_def)
  then show ?thesis using assms by (simp add: sim_def)
qed

lemma ghost_timing:
  "ghost (d\<lparr>bandwidth := x1\<rparr>) c = (ghost d c)\<lparr>bandwidth := x1\<rparr>"
  "ghost (d\<lparr>cycle := x2\<rparr>) c = (ghost d c)\<lparr>cycle := x2\<rparr>"
  "ghost (d\<lparr>icachemiss := x3\<rparr>) c = (ghost d c)\<lparr>icachemiss := x3\<rparr>"
  "ghost (d\<lparr>dcachemiss := x4\<rparr>) c = (ghost d c)\<lparr>dcachemiss := x4\<rparr>"
  "ghost (d\<lparr>icachemiss_cycle := x5\<rparr>) c = (ghost d c)\<lparr>icachemiss_cycle := x5\<rparr>"
  "ghost (d\<lparr>dcachemiss_cycle := x6\<rparr>) c = (ghost d c)\<lparr>dcachemiss_cycle := x6\<rparr>"
  "ghost (d\<lparr>busy_reg := x7\<rparr>) c = (ghost d c)\<lparr>busy_reg := x7\<rparr>"
  "ghost (d\<lparr>busy_vreg := x8\<rparr>) c = (ghost d c)\<lparr>busy_vreg := x8\<rparr>"
  "ghost (d\<lparr>busy_flag := x9\<rparr>) c = (ghost d c)\<lparr>busy_flag := x9\<rparr>"
  "ghost (d\<lparr>icache := y1\<rparr>) c = (ghost d c)\<lparr>icache := y1\<rparr>"
  "ghost (d\<lparr>dcache := y2\<rparr>) c = (ghost d c)\<lparr>dcache := y2\<rparr>"
  "ghost (d\<lparr>out := y3\<rparr>) c = (ghost d c)\<lparr>out := y3\<rparr>"
  by (simp_all add: ghost_def)

lemma sim_True_timing [simp]:
  assumes "sim True c d"
  shows "sim True c (d\<lparr>bandwidth := x1\<rparr>)" "sim True c (d\<lparr>cycle := x2\<rparr>)" "sim True c (d\<lparr>icachemiss := x3\<rparr>)"
    "sim True c (d\<lparr>dcachemiss := x4\<rparr>)" "sim True c (d\<lparr>icachemiss_cycle := x5\<rparr>)"
    "sim True c (d\<lparr>dcachemiss_cycle := x6\<rparr>)" "sim True c (d\<lparr>busy_reg := x7\<rparr>)" "sim True c (d\<lparr>busy_vreg := x8\<rparr>)"
    "sim True c (d\<lparr>busy_flag := x9\<rparr>)" "sim True c (d\<lparr>icache := y1\<rparr>)" "sim True c (d\<lparr>dcache := y2\<rparr>)"
    "sim True c (d\<lparr>out := y3\<rparr>)"
proof -
  have "ghost d c = d" using assms by (simp add: sim_def)
  then show "sim True c (d\<lparr>bandwidth := x1\<rparr>)" "sim True c (d\<lparr>cycle := x2\<rparr>)" "sim True c (d\<lparr>icachemiss := x3\<rparr>)"
    "sim True c (d\<lparr>dcachemiss := x4\<rparr>)" "sim True c (d\<lparr>icachemiss_cycle := x5\<rparr>)"
    "sim True c (d\<lparr>dcachemiss_cycle := x6\<rparr>)" "sim True c (d\<lparr>busy_reg := x7\<rparr>)" "sim True c (d\<lparr>busy_vreg := x8\<rparr>)"
    "sim True c (d\<lparr>busy_flag := x9\<rparr>)" "sim True c (d\<lparr>icache := y1\<rparr>)" "sim True c (d\<lparr>dcache := y2\<rparr>)"
    "sim True c (d\<lparr>out := y3\<rparr>)"
    by (simp_all add: sim_def ghost_timing)
qed

lemma cache_miss_timing: "AX_Cache_miss c = Ok c' \<Longrightarrow> sim True c c'"
  unfolding AX_Cache_miss_def icache_access_def dcache_access_def Let_def
  by (auto split: if_splits)

lemma stall_timing: "AX_Pipeline_stall c = Ok c' \<Longrightarrow> sim True c c'"
  by (auto simp: AX_Pipeline_stall_eq stall_slot_def stall_mark_def scoreboard_tick_def emit_def Let_def
      res_bind_eq_Ok split: if_splits)

lemma cycle_model_faults:
  "AX_Cache_miss c = Fault f \<Longrightarrow> f = Index_oob" "AX_Pipeline_stall c = Fault f \<Longrightarrow> f = Index_oob"
  by (auto simp: AX_Cache_miss_def dcache_access_def AX_Pipeline_stall_eq stall_slot_def Let_def
      res_bind_eq_Fault split: if_splits)

text \<open>Neither looks at what was printed.\<close>

lemma cache_miss_out:
  "AX_Cache_miss (c\<lparr>out := x\<rparr>) = map_sum id (\<lambda>c. c\<lparr>out := x\<rparr>) (AX_Cache_miss c)"
proof -
  have 1: "icache_access tag (c\<lparr>out := x\<rparr>) = (icache_access tag c)\<lparr>out := x\<rparr>" for tag
    by (simp add: icache_access_def Let_def)
  have 2: "dcache_access a (d\<lparr>out := x\<rparr>) = map_sum id (\<lambda>c. c\<lparr>out := x\<rparr>) (dcache_access a d)" for a d
    by (simp add: dcache_access_def Let_def)
  obtain d where d: "d = icache_access (drop_bit 8 (pc c)) c" by blast
  show ?thesis unfolding AX_Cache_miss_def by (simp add: 1 Let_def flip: d) (simp add: 2)
qed

lemma sim_out_cycle: "sim k (c\<lparr>out := y, cycle := z\<rparr>) (c\<lparr>out := x, cycle := z\<rparr>)"
proof -
  have "c\<lparr>out := v, cycle := z\<rparr> = c\<lparr>cycle := z, out := v\<rparr>" for v by simp
  then show ?thesis using sim_out [OF sim_refl [of k "c\<lparr>cycle := z\<rparr>"], of y x] by metis
qed

lemma stall_out:
  "rel_res (sim False) (AX_Pipeline_stall c) (AX_Pipeline_stall (c\<lparr>out := x\<rparr>))"
proof -
  have 1: "scoreboard_tick (c\<lparr>out := x\<rparr>) = (scoreboard_tick c)\<lparr>out := x\<rparr>" by (simp add: scoreboard_tick_def)
  have 2: "stall_mark i m p (c\<lparr>out := x\<rparr>) = (stall_mark i m p c)\<lparr>out := x\<rparr>" for i m p c
    by (simp add: stall_mark_def Let_def)
  have 3: "stall_wait i m p (c\<lparr>out := x\<rparr>) w = stall_wait i m p c w" for i m p c w
    by (simp add: stall_wait_def Let_def)
  show ?thesis
    unfolding AX_Pipeline_stall_eq stall_slot_def
    by (auto simp: 1 2 3 Let_def emit_def intro: sim_out_cycle)
qed

lemma sim_False_out [simp]: "sim k c (c\<lparr>out := x\<rparr>)"
  using sim_out [OF sim_refl [of k c], of "out c" x] by simp

lemma cycle_model_sim:
  assumes "sim False c d"
  shows "rel_res (sim False) (AX_Cache_miss c) (AX_Cache_miss d)"
    and "rel_res (sim False) (AX_Pipeline_stall c) (AX_Pipeline_stall d)"
proof -
  obtain x where d: "d = c\<lparr>out := x\<rparr>" using sim_FalseD [OF assms] by blast
  show "rel_res (sim False) (AX_Cache_miss c) (AX_Cache_miss d)"
    unfolding d cache_miss_out by (cases "AX_Cache_miss c") simp_all
  show "rel_res (sim False) (AX_Pipeline_stall c) (AX_Pipeline_stall d)"
    unfolding d by (rule stall_out)
qed

lemma debug_sim: "AX_debug E c = Ok c' \<Longrightarrow> sim k c c'"
  by (auto dest!: AX_debug_prints simp: only_prints_def)

lemma debug_faults: "AX_debug E c = Fault f \<Longrightarrow> f = Bad_format"
  by (auto simp: AX_debug_def AX_debug_core0_def AX_debug_core1_def dbg_print_def c_printf_def guard_res_def
      res_bind_eq_Fault split: if_splits option.splits prod.splits)

section \<open>Simulation of runs\<close>

text \<open>
  The states of a run, and a loop that follows another one. \<open>own\<close> are the faults that only the first loop
  has; \<open>good\<close> is what the states of its run have to satisfy.
\<close>

inductive loop_reaches :: "('w vm \<Rightarrow> 'w vm res) \<Rightarrow> 'w vm \<Rightarrow> 'w vm \<Rightarrow> bool" for step where
  start: "loop_reaches step s s"
| more: "error (fst s) = 0 \<Longrightarrow> step s = Ok s' \<Longrightarrow> loop_reaches step s' t \<Longrightarrow> loop_reaches step s t"

locale loop_sim =
  fixes step1 step2 :: "'w vm \<Rightarrow> 'w vm res" and R :: "'w vm \<Rightarrow> 'w vm \<Rightarrow> bool"
    and good :: "'w vm \<Rightarrow> bool" and own :: "fault \<Rightarrow> bool"
  assumes error_eq: "R s t \<Longrightarrow> error (fst s) = error (fst t)"
    and step_Ok: "R s t \<Longrightarrow> error (fst s) = 0 \<Longrightarrow> good s \<Longrightarrow> step1 s = Ok s' \<Longrightarrow> \<exists>t'. step2 t = Ok t' \<and> R s' t'"
    and step_Fault: "R s t \<Longrightarrow> error (fst s) = 0 \<Longrightarrow> good s \<Longrightarrow> step1 s = Fault f \<Longrightarrow> own f \<or> step2 t = Fault f"
begin

text \<open>How the result of the second loop follows that of the first.\<close>

fun follows :: "'w vm res option \<Rightarrow> 'w vm res option \<Rightarrow> bool" where
  "follows None q \<longleftrightarrow> q = None"
| "follows (Some (Inl f)) q \<longleftrightarrow> own f \<or> q = Some (Fault f)"
| "follows (Some (Inr s)) q \<longleftrightarrow> (\<exists>t. q = Some (Ok t) \<and> R s t)"

lemma fuel_follows:
  assumes "R s t" and "\<And>u. loop_reaches step1 s u \<Longrightarrow> good u"
  shows "run_fuel n step1 s = Some r \<Longrightarrow> follows (Some r) (run_fuel n step2 t)"
    and "run_fuel n step2 t = Some q \<Longrightarrow> \<exists>r. run_fuel n step1 s = Some r"
proof -
  have "(\<forall>r. run_fuel n step1 s = Some r \<longrightarrow> follows (Some r) (run_fuel n step2 t)) \<and>
      (\<forall>q. run_fuel n step2 t = Some q \<longrightarrow> (\<exists>r. run_fuel n step1 s = Some r))"
    using assms
  proof (induction n arbitrary: s t)
    case 0
    then show ?case using error_eq by auto
  next
    case (Suc n)
    note e = error_eq [OF Suc.prems(1)]
    show ?case
    proof (cases "error (fst s) = 0")
      case False
      then show ?thesis using e Suc.prems(1) by auto
    next
      case True
      have g: "good s" using Suc.prems(2) loop_reaches.start by blast
      show ?thesis
      proof (cases "step1 s")
        case (Inl f)
        then show ?thesis using True e step_Fault [OF Suc.prems(1) True g Inl] by auto
      next
        case (Inr s')
        from step_Ok [OF Suc.prems(1) True g Inr] obtain t' where t': "step2 t = Ok t'" "R s' t'" by blast
        have "\<And>u. loop_reaches step1 s' u \<Longrightarrow> good u"
          using Suc.prems(2) loop_reaches.more True Inr by blast
        from Suc.IH [OF t'(2) this] show ?thesis using True e Inr t'(1) by simp
      qed
    qed
  qed
  then show "run_fuel n step1 s = Some r \<Longrightarrow> follows (Some r) (run_fuel n step2 t)"
    and "run_fuel n step2 t = Some q \<Longrightarrow> \<exists>r. run_fuel n step1 s = Some r" by blast+
qed

lemma loop_follows:
  assumes "R s t" and "\<And>u. loop_reaches step1 s u \<Longrightarrow> good u"
  shows "follows (run_loop step1 s) (run_loop step2 t)"
proof (cases "run_loop step1 s")
  case None
  have "run_loop step2 t = None"
  proof (rule ccontr)
    assume "run_loop step2 t \<noteq> None"
    then obtain n q where "run_fuel n step2 t = Some q" by (auto simp: run_loop_iff_fuel)
    from fuel_follows(2) [OF assms this] None show False by (metis option.distinct(1) run_loop_iff_fuel)
  qed
  then show ?thesis by (simp add: None)
next
  case (Some r)
  then obtain n where n: "run_fuel n step1 s = Some r" by (auto simp: run_loop_iff_fuel)
  note f = fuel_follows(1) [OF assms n]
  show ?thesis
  proof (cases r)
    case (Inl e)
    then show ?thesis using f Some by (auto dest: run_fuel_run_loop)
  next
    case (Inr s')
    then show ?thesis using f Some by (auto dest: run_fuel_run_loop)
  qed
qed

end

section \<open>The modes follow one another\<close>

lemma on_core_rel:
  assumes "sim_vm k s t" and "rel_res (sim k') (f (fst s)) (g (fst t))"
  shows "rel_res (sim_vm k') (on_core f s) (on_core g t)"
  using assms by (cases s; cases t) (auto simp: on_core_def intro!: rel_bind)

lemma on_core_Ok: "on_core f s = Ok t \<longleftrightarrow> f (fst s) = Ok (fst t) \<and> snd t = snd s"
  by (cases s; cases t) (auto simp: on_core_def res_bind_eq_Ok)

lemma on_core_Fault: "on_core f s = Fault e \<longleftrightarrow> f (fst s) = Fault e"
  by (cases s) (auto simp: on_core_def res_bind_eq_Fault)

lemma rel_res_Ok: "rel_res A r q \<Longrightarrow> r = Ok x \<Longrightarrow> \<exists>y. q = Ok y \<and> A x y"
  by (cases q) auto

lemma rel_res_Fault: "rel_res A r q \<Longrightarrow> r = Fault f \<Longrightarrow> q = Fault f"
  by (cases q) auto

text \<open>Mode 1 without the debugger is mode 2.\<close>

lemma cycle_and_call_sim:
  assumes "sim_vm False s t"
  shows "rel_res (sim_vm False)
    (res_bind (on_core AX_Pipeline_stall s) (\<lambda>s3. res_bind (on_core AX_Cache_miss s3) (AX_syscall_emul H)))
    (res_bind (on_core AX_Pipeline_stall t) (\<lambda>s3. res_bind (on_core AX_Cache_miss s3) (AX_syscall_emul H)))"
proof -
  have "sim False (fst s) (fst t)" if "sim_vm False s t" for s t :: "'a vm" using that by (cases s; cases t) simp
  note c = cycle_model_sim [OF this]
  have "rel_res (sim_vm False) (on_core AX_Pipeline_stall s) (on_core AX_Pipeline_stall t)"
    using assms c(2) [OF assms] by (rule on_core_rel)
  moreover have "rel_res (sim_vm False) (on_core AX_Cache_miss u) (on_core AX_Cache_miss v)" if "sim_vm False u v" for u v :: "'a vm"
    using that c(1) [OF that] by (rule on_core_rel)
  ultimately show ?thesis by (blast intro: rel_bind syscall_sim)
qed

lemma decode_vm_sim:
  assumes "sim_vm k s t" and "\<And>w. k \<Longrightarrow> fetch_word (fst s) (pc (fst s)) = Ok w \<Longrightarrow> \<not> reads_cycle w"
  shows "rel_res (sim_vm k) (on_core (AX_decode_execute E) s) (on_core (AX_decode_execute E) t)"
  using assms by (intro on_core_rel decode_execute_sim) (cases s; cases t; auto)+

interpretation debug_mode: loop_sim "step_mode1 E H" "step_mode2 E H" "sim_vm False" "\<lambda>s. True" "\<lambda>f. f = Bad_format" for E H
proof
  fix s t s' :: "'a vm" and f
  assume st: "sim_vm False s t"
  show "error (fst s) = error (fst t)" using st sim_sel(5) by (cases s; cases t) auto
  note d = decode_vm_sim [OF st, of E]
  have after: "rel_res (sim_vm False)
      (res_bind (on_core AX_Pipeline_stall s2) (\<lambda>s3. res_bind (on_core AX_Cache_miss s3) (AX_syscall_emul H)))
      (res_bind (on_core AX_Pipeline_stall t1) (\<lambda>s3. res_bind (on_core AX_Cache_miss s3) (AX_syscall_emul H)))"
    if "sim_vm False s1 t1" "on_core (AX_debug E) s1 = Ok s2" for s1 s2 t1
    using that debug_sim [of E "fst s1" "fst s2" False]
    by (intro cycle_and_call_sim) (cases s1; cases s2; cases t1; auto simp: on_core_Ok dest: sim_sym intro: sim_trans)
  show "\<exists>t'. step_mode2 E H t = Ok t' \<and> sim_vm False s' t'" if 1: "step_mode1 E H s = Ok s'"
  proof -
    from 1 obtain s1 s2 where 1: "on_core (AX_decode_execute E) s = Ok s1" "on_core (AX_debug E) s1 = Ok s2"
      and r: "res_bind (on_core AX_Pipeline_stall s2) (\<lambda>s3. res_bind (on_core AX_Cache_miss s3) (AX_syscall_emul H)) = Ok s'"
      unfolding step_mode1_def res_bind_eq_Ok by blast
    from rel_res_Ok [OF d 1(1)] obtain t1 where t1: "on_core (AX_decode_execute E) t = Ok t1" "sim_vm False s1 t1" by auto
    from rel_res_Ok [OF after [OF t1(2) 1(2)] r] show ?thesis by (simp add: step_mode2_def t1(1))
  qed
  show "f = Bad_format \<or> step_mode2 E H t = Fault f" if 1: "step_mode1 E H s = Fault f"
  proof (cases "on_core (AX_decode_execute E) s")
    case (Inl e)
    then show ?thesis using 1 rel_res_Fault [OF d Inl] by (simp add: step_mode1_def step_mode2_def)
  next
    case s1: (Inr s1)
    from rel_res_Ok [OF d s1] obtain t1 where t1: "on_core (AX_decode_execute E) t = Ok t1" "sim_vm False s1 t1" by auto
    show ?thesis
    proof (cases "on_core (AX_debug E) s1")
      case (Inl e)
      then have "f = e" using 1 s1 by (simp add: step_mode1_def)
      then show ?thesis using Inl debug_faults by (simp add: on_core_Fault)
    next
      case (Inr s2)
      then show ?thesis
        using 1 s1 rel_res_Fault [OF after [OF t1(2) Inr], of f] by (simp add: step_mode1_def step_mode2_def t1(1))
    qed
  qed
qed

text \<open>Mode 2 without the cycle model is mode 0, as long as no instruction reads the cycle counter.\<close>

definition cycle_unread :: "'w vm \<Rightarrow> bool" where
  "cycle_unread s \<longleftrightarrow>
     (error (fst s) = 0 \<longrightarrow>
      (case fetch_word (fst s) (pc (fst s)) of Inl f \<Rightarrow> True | Inr w \<Rightarrow> \<not> reads_cycle w))"

lemma cycle_model_keeps_sim:
  assumes "on_core AX_Pipeline_stall s1 = Ok s2" and "on_core AX_Cache_miss s2 = Ok s3" and "sim_vm True s1 t1"
  shows "sim_vm True s3 t1"
  using assms stall_timing [of "fst s1" "fst s2"] cache_miss_timing [of "fst s2" "fst s3"]
  by (cases s1; cases s2; cases s3; cases t1) (auto simp: on_core_Ok dest: sim_sym intro: sim_trans)

interpretation cycle_mode: loop_sim "step_mode2 E H" "step_mode0 E H" "sim_vm True" cycle_unread "\<lambda>f. f = Index_oob" for E H
proof
  fix s t s' :: "'a vm" and f
  assume st: "sim_vm True s t"
  show "error (fst s) = error (fst t)" using st sim_sel(5) by (cases s; cases t) auto
  assume g: "error (fst s) = 0" "cycle_unread s"
  have d: "rel_res (sim_vm True) (on_core (AX_decode_execute E) s) (on_core (AX_decode_execute E) t)"
    using g by (intro decode_vm_sim [OF st]) (simp add: cycle_unread_def)
  show "\<exists>t'. step_mode0 E H t = Ok t' \<and> sim_vm True s' t'" if 1: "step_mode2 E H s = Ok s'"
  proof -
    from 1 obtain s1 s2 s3 where 1: "on_core (AX_decode_execute E) s = Ok s1"
      and 2: "on_core AX_Pipeline_stall s1 = Ok s2" "on_core AX_Cache_miss s2 = Ok s3" and r: "AX_syscall_emul H s3 = Ok s'"
      unfolding step_mode2_def res_bind_eq_Ok by blast
    from rel_res_Ok [OF d 1] obtain t1 where t1: "on_core (AX_decode_execute E) t = Ok t1" "sim_vm True s1 t1" by auto
    from rel_res_Ok [OF syscall_sim [OF cycle_model_keeps_sim [OF 2 t1(2)]] r]
    show ?thesis by (simp add: step_mode0_def t1(1))
  qed
  show "f = Index_oob \<or> step_mode0 E H t = Fault f" if 1: "step_mode2 E H s = Fault f"
  proof (cases "on_core (AX_decode_execute E) s")
    case (Inl e)
    then show ?thesis using 1 rel_res_Fault [OF d Inl] by (simp add: step_mode2_def step_mode0_def)
  next
    case (Inr s1)
    from rel_res_Ok [OF d Inr] obtain t1 where t1: "on_core (AX_decode_execute E) t = Ok t1" "sim_vm True s1 t1" by auto
    from 1 Inr have "on_core AX_Pipeline_stall s1 = Fault f \<or>
        (\<exists>s2. on_core AX_Pipeline_stall s1 = Ok s2 \<and> (on_core AX_Cache_miss s2 = Fault f \<or>
          (\<exists>s3. on_core AX_Cache_miss s2 = Ok s3 \<and> AX_syscall_emul H s3 = Fault f)))"
      by (auto simp: step_mode2_def res_bind_eq_Fault)
    then show ?thesis
      using cycle_model_faults rel_res_Fault [OF syscall_sim [OF cycle_model_keeps_sim [OF _ _ t1(2)]], of _ _ _ f]
      by (auto simp: on_core_Fault step_mode0_def t1(1))
  qed
qed

section \<open>What the modes return\<close>

lemma printinfo_prints: "\<exists>es. AX_exe_core_printinfo E c = c\<lparr>out := es\<rparr>"
  by (auto simp: AX_exe_core_printinfo_def Let_def emit_def)

text \<open>
  C5. The debugger does not change what a program does: mode 1, unless a line of the debugger is undefined,
  ends the way mode 2 does, with the same exit value, core and world, but for what was printed, or
  both run for ever.
\<close>
theorem debug_mode_transparent:
  "case AX_exe_core_mode1 E H (c, w) of
     None \<Rightarrow> AX_exe_core_mode2 E H (c, w) = None
   | Some (Inl f) \<Rightarrow> f = Bad_format \<or> AX_exe_core_mode2 E H (c, w) = Some (Fault f)
   | Some (Inr (e, c', w')) \<Rightarrow> \<exists>es. AX_exe_core_mode2 E H (c, w) = Some (Ok (e, c'\<lparr>out := es\<rparr>, w'))"
proof -
  let ?s = "(c\<lparr>error := 0\<rparr>, w)"
  have f: "debug_mode.follows (run_loop (step_mode1 E H) ?s) (run_loop (step_mode2 E H) ?s)"
    by (rule debug_mode.loop_follows) simp_all
  show ?thesis
  proof (cases "run_loop (step_mode1 E H) ?s")
    case None
    then show ?thesis using f by (simp add: AX_exe_core_mode1_def AX_exe_core_mode2_def run_mode_def)
  next
    case (Some r)
    show ?thesis
    proof (cases r)
      case (Inl e)
      then show ?thesis using f Some by (auto simp: AX_exe_core_mode1_def AX_exe_core_mode2_def run_mode_def)
    next
      case (Inr u)
      obtain c1 w1 where u: "u = (c1, w1)" by (cases u)
      then obtain d1 where d1: "run_loop (step_mode2 E H) ?s = Some (Ok (d1, w1))" "sim False c1 d1"
        using f Some Inr by auto
      obtain x where "d1 = c1\<lparr>out := x\<rparr>" using sim_FalseD [OF d1(2)] by blast
      moreover obtain y z where "AX_exe_core_printinfo E c1 = c1\<lparr>out := y\<rparr>" "AX_exe_core_printinfo E d1 = d1\<lparr>out := z\<rparr>"
        using printinfo_prints by blast
      ultimately show ?thesis using Some Inr d1(1)
        by (simp add: u AX_exe_core_mode1_def AX_exe_core_mode2_def run_mode_def Let_def) (metis Core.unfold_congs(3))
    qed
  qed
qed


text \<open>
  C6. The cycle model does not change what a program does either, when the program never executes
  \<open>MOVECYCLE\<close>: mode 2, unless an index of the cycle model is out of bounds, ends the way mode 0 does, with the
  same exit value, world, registers and memory, or both run for ever.
\<close>
theorem cycle_mode_transparent:
  assumes "\<And>s. loop_reaches (step_mode2 E H) (c\<lparr>error := 0\<rparr>, w) s \<Longrightarrow> cycle_unread s"
  shows "case AX_exe_core_mode2 E H (c, w) of
     None \<Rightarrow> AX_exe_core_mode0 E H (c, w) = None
   | Some (Inl f) \<Rightarrow> f = Index_oob \<or> AX_exe_core_mode0 E H (c, w) = Some (Fault f)
   | Some (Inr (e, c', w')) \<Rightarrow> \<exists>d. AX_exe_core_mode0 E H (c, w) = Some (Ok (e, d, w')) \<and> sim True c' d"
proof -
  let ?s = "(c\<lparr>error := 0\<rparr>, w)"
  have f: "cycle_mode.follows (run_loop (step_mode2 E H) ?s) (run_loop (step_mode0 E H) ?s)"
    by (rule cycle_mode.loop_follows) (simp_all add: assms)
  show ?thesis
  proof (cases "run_loop (step_mode2 E H) ?s")
    case None
    then show ?thesis using f by (simp add: AX_exe_core_mode2_def AX_exe_core_mode0_def run_mode_def)
  next
    case (Some r)
    show ?thesis
    proof (cases r)
      case (Inl e)
      then show ?thesis using f Some by (auto simp: AX_exe_core_mode2_def AX_exe_core_mode0_def run_mode_def)
    next
      case (Inr u)
      obtain c1 w1 where u: "u = (c1, w1)" by (cases u)
      then obtain d1 where d1: "run_loop (step_mode0 E H) ?s = Some (Ok (d1, w1))" "sim True c1 d1"
        using f Some Inr by auto
      obtain y z where "AX_exe_core_printinfo E c1 = c1\<lparr>out := y\<rparr>" "AX_exe_core_printinfo E d1 = d1\<lparr>out := z\<rparr>"
        using printinfo_prints by blast
      then show ?thesis using Some Inr d1(1) sim_out [OF d1(2)] sim_sel(5) [OF d1(2)]
        by (simp add: u AX_exe_core_mode2_def AX_exe_core_mode0_def run_mode_def Let_def)
    qed
  qed
qed

lemma mode2_error:
  assumes "step_mode2 E H (c, w) = Ok (c', w')" and "AX_decode_execute E c = Ok d"
  shows "error c' = error d"
  using assms
  by (auto simp: step_mode2_def on_core_def res_bind_eq_Ok call_keeps_def
      dest!: stall_timing cache_miss_timing AX_syscall_emul_keeps(1) sim_sel(5))

text \<open>The program \<open>ENDP\<close>.\<close>

theorem cycle_mode_transparent_witness:
  "case AX_exe_core_mode2 demo_env demo_host (demo_prog [0x90], ()) of
     None \<Rightarrow> False | Some (Inl f) \<Rightarrow> f = Index_oob | Some (Inr (e, c', w')) \<Rightarrow> e = 1"
proof -
  let ?p = "demo_prog [0x90]"
  have e0: "?p\<lparr>error := 0\<rparr> = ?p" by (simp add: demo_prog_def demo_core_def)
  have "cycle_unread t" if "loop_reaches (step_mode2 demo_env demo_host) (?p, ()) t" for t
    using that
  proof (cases rule: loop_reaches.cases)
    case start
    have "fetch_word ?p (pc ?p) = Ok 0x90" by (simp add: demo_step)
    then show ?thesis by (simp add: start cycle_unread_def reads_cycle_def op_unit_def decode0_def)
  next
    case (more s')
    have "error (fst s') = 1" using mode2_error [OF _ demo_endp_step] more(2) by (cases s') simp
    with more(3) have "t = s'" by (cases rule: loop_reaches.cases) auto
    then show ?thesis using \<open>error (fst s') = 1\<close> by (simp add: cycle_unread_def)
  qed
  then show ?thesis
    using cycle_mode_transparent [of demo_env demo_host ?p "()"] demo_endp_mode0
    by (auto simp: e0 split: option.splits sum.splits)
qed

end
