(* ===== verification/AX_Boot.thy ===== *)
theory AX_Boot
  imports AX_Modes
begin

text \<open>
  Setting a processor up (\<open>vm.c\<close>: \<open>AX_init_proc\<close>, \<open>AX_init_mem\<close>, \<open>AX_init_proc_mem\<close>,
  \<open>AX_load_prog\<close>, \<open>AX_add_core\<close>, \<open>AX_boot_rom\<close>) and the command line (\<open>main.c\<close>). What \<open>malloc\<close>
  returns is indeterminate: the contents of a fresh block and of a fresh \<open>Core\<close> are parameters.
  Allocation succeeds. The blocks of \<open>processor->mmap\<close> are the field \<open>pmem\<close>; a core takes them
  with its copy of \<open>mmap\<close>. \<open>program_booted\<close> says what the first step of a run finds.
\<close>

record Processor =
  p_core :: "Core list"
  p_mmap :: MMAP
  pmem :: "region \<Rightarrow> block"
  p_rom :: "u8 list option"
  p_ncore :: u32
  p_icore :: u32
  p_mode :: u32

definition AX_core_MAX :: nat where "AX_core_MAX = 64"

section \<open>Memory\<close>

text \<open>\<open>int\<close> multiplication: the product must be an \<open>int\<close>.\<close>

definition int_mul :: "int \<Rightarrow> int \<Rightarrow> int res" where
  "int_mul a b =
     guard_res (- (2 ^ 31) \<le> a * b \<and> a * b < 2 ^ 31) Int_overflow (a * b)"

definition AX_init_proc :: "Processor \<Rightarrow> Processor" where
  "AX_init_proc processor = processor\<lparr>p_icore := 0, p_ncore := 1, p_mode := 0\<rparr>"

definition AX_init_mem :: "Processor \<Rightarrow> int \<Rightarrow> int \<Rightarrow> int \<Rightarrow> int \<Rightarrow> int \<Rightarrow> Processor res" where
  "AX_init_mem processor mwram mvram msram mspmt mspm2 =
     res_bind (int_mul 0x100000 mwram) (\<lambda>nw.
     res_bind (int_mul 0x100000 mvram) (\<lambda>nv.
     res_bind (int_mul 0x100000 msram) (\<lambda>ns.
     res_bind (int_mul 0x400 mspmt) (\<lambda>nt.
     res_bind (int_mul 0x400 mspm2) (\<lambda>n2.
       Ok (processor\<lparr>p_mmap := (p_mmap processor)
             \<lparr>nwram := word_of_int nw, nvram := word_of_int nv, nspmram := word_of_int ns,
              nspmt := word_of_int nt, nspm2 := word_of_int n2\<rparr>\<rparr>))))))"

text \<open>\<open>malloc\<close>: a block of the size asked for, with any contents.\<close>

definition malloc :: "(nat \<Rightarrow> u8) \<Rightarrow> nat \<Rightarrow> block" where
  "malloc junk n = \<lparr>bsize = n, bdata = junk\<rparr>"

definition AX_init_proc_mem :: "(region \<Rightarrow> nat \<Rightarrow> u8) \<Rightarrow> Processor \<Rightarrow> Processor" where
  "AX_init_proc_mem junk processor =
     (let m = p_mmap processor
      in processor\<lparr>pmem := (pmem processor)
           (WRAM := malloc (junk WRAM) (unat (nwram m)),
            VRAM := malloc (junk VRAM) (unat (nvram m)),
            SRAM := malloc (junk SRAM) (unat (nspmram m)),
            SPMT := malloc (junk SPMT) (unat (nspmt m)),
            SPM2 := malloc (junk SPM2) (unat (nspm2 m)),
            IO := malloc (junk IO) 0x10000)\<rparr>)"

section \<open>The program\<close>

text \<open>
  The file is its contents, or \<open>None\<close> when it cannot be opened; then \<open>rom\<close> and \<open>nrom\<close> keep what
  they had, and the caller is told with 1.
\<close>

definition AX_load_prog :: "u8 list option \<Rightarrow> Processor \<Rightarrow> u32 \<times> Processor" where
  "AX_load_prog file processor =
     (case file of
        None \<Rightarrow> (1, processor)
      | Some bs \<Rightarrow>
          (0, processor\<lparr>p_rom := Some bs,
                p_mmap := (p_mmap processor)\<lparr>nrom := of_nat (length bs)\<rparr>,
                pmem := (pmem processor)
                  (ROM := \<lparr>bsize = length bs, bdata = (\<lambda>i. if i < length bs then bs ! i else 0)\<rparr>)\<rparr>))"

text \<open>
  \<open>AX_add_core\<close>: the guard lets \<open>icore\<close> be 64, one past the last element of \<open>core\<close>. The fields it
  does not set are those of the fresh allocation.
\<close>

definition fresh_core :: "Core \<Rightarrow> Processor \<Rightarrow> Core" where
  "fresh_core junk processor =
     junk\<lparr>mmap := p_mmap processor,
          mem := (pmem processor)(SPM := (mem junk SPM)\<lparr>bsize := AX_core_SPM_SIZE\<rparr>),
          syscall := 0,
          instruction := 0,
          cycle := 0,
          delay := 0,
          pc := 0x100 div 4,
          io := -1,
          iorw := 0,
          dcache := replicate (AR_core_DCACHE_SIZE * 2) 0,
          icache := replicate AR_core_ICACHE_SIZE 0,
          busy_reg := replicate AX_core_IREG_COUNT 0,
          busy_vreg := replicate AX_core_VREG_COUNT 0,
          icachemiss := 0,
          dcachemiss := 0,
          icachemiss_cycle := 0,
          dcachemiss_cycle := 0,
          bandwidth := 0\<rparr>"

definition AX_add_core :: "Core \<Rightarrow> Processor \<Rightarrow> (u32 \<times> Processor) res" where
  "AX_add_core junk processor =
     (if int AX_core_MAX < sint (p_icore processor) then Ok (1, processor)
      else if AX_core_MAX \<le> unat (p_icore processor) then Fault Index_oob
      else Ok (0, processor\<lparr>
             p_core := (p_core processor)[unat (p_icore processor) := fresh_core junk processor],
             p_icore := p_icore processor + 1\<rparr>))"

text \<open>\<open>memcpy\<close> of \<open>n\<close> bytes of the program to the start of \<open>wram\<close>.\<close>

definition AX_boot_rom :: "Core \<Rightarrow> u8 list \<Rightarrow> u32 \<Rightarrow> Core res" where
  "AX_boot_rom core rom n =
     (if length rom < unat n then Fault Mem_oob
      else mem_write WRAM core 0 (take (unat n) rom))"

section \<open>The command line\<close>

text \<open>\<open>atoi\<close>: blanks, a sign, digits; a value that no \<open>int\<close> holds is undefined.\<close>

fun digits_value :: "int \<Rightarrow> string \<Rightarrow> int" where
  "digits_value acc [] = acc"
| "digits_value acc (c # cs) =
     (if CHR ''0'' \<le> c \<and> c \<le> CHR ''9''
      then digits_value (10 * acc + (of_char c - of_char CHR ''0'')) cs else acc)"

definition is_space :: "char \<Rightarrow> bool" where
  "is_space c \<longleftrightarrow> c = CHR '' '' \<or> (9 \<le> (of_char c :: nat) \<and> (of_char c :: nat) \<le> 13)"

definition atoi :: "string \<Rightarrow> int res" where
  "atoi s =
     (let s1 = dropWhile is_space s;
          v = (case s1 of
                 [] \<Rightarrow> 0
               | c # cs \<Rightarrow>
                   if c = CHR ''-'' then - digits_value 0 cs
                   else if c = CHR ''+'' then digits_value 0 cs
                   else digits_value 0 s1)
      in guard_res (- (2 ^ 31) \<le> v \<and> v < 2 ^ 31) Int_overflow v)"

text \<open>The option a word names, and the state of the parser: \<open>arg\<close> and the processor.\<close>

definition option_arg :: "string \<Rightarrow> nat \<Rightarrow> nat" where
  "option_arg s arg =
     (if s = ''-ncore'' then 1
      else if s = ''-wram'' then 2
      else if s = ''-vram'' then 3
      else if s = ''-spmram'' then 4
      else if s = ''-spmt'' then 5
      else if s = ''-spm2'' then 6
      else if s = ''-mode'' then 7
      else arg)"

definition set_option :: "nat \<Rightarrow> u32 \<Rightarrow> Processor \<Rightarrow> Processor" where
  "set_option arg v p =
     (if arg = 1 then p\<lparr>p_ncore := v\<rparr>
      else if arg = 2 then p\<lparr>p_mmap := (p_mmap p)\<lparr>nwram := v\<rparr>\<rparr>
      else if arg = 3 then p\<lparr>p_mmap := (p_mmap p)\<lparr>nvram := v\<rparr>\<rparr>
      else if arg = 4 then p\<lparr>p_mmap := (p_mmap p)\<lparr>nspmram := v\<rparr>\<rparr>
      else if arg = 5 then p\<lparr>p_mmap := (p_mmap p)\<lparr>nspmt := v\<rparr>\<rparr>
      else if arg = 6 then p\<lparr>p_mmap := (p_mmap p)\<lparr>nspm2 := v\<rparr>\<rparr>
      else if arg = 7 then p\<lparr>p_mode := v\<rparr>
      else p)"

text \<open>
  One word of the command line. A word without an option before it is copied into the 500 bytes
  of \<open>address\<close>, which nothing reads.
\<close>

definition parse_word :: "string \<Rightarrow> nat \<times> Processor \<Rightarrow> (nat \<times> Processor) res" where
  "parse_word s = (\<lambda>(arg, p).
     (if s \<noteq> [] \<and> hd s = CHR ''-'' then Ok (option_arg s arg, p)
      else if arg = 0 then guard_res (length s < 500) Mem_oob (0, p)
      else res_bind (atoi s) (\<lambda>v. Ok (0, set_option arg (word_of_int v) p))))"

definition parse_args :: "string list \<Rightarrow> Processor \<Rightarrow> Processor res" where
  "parse_args args p = res_bind (fold_res parse_word args (0, p)) (\<lambda>(arg, q). Ok q)"

section \<open>main\<close>

text \<open>
  \<open>args\<close> is \<open>argv[1..]\<close>; \<open>junkp\<close> is the stack slot of \<open>processor\<close>, with a \<open>core\<close> array of 64
  pointers; \<open>rom\<close> of it is unset until a program is loaded. The mode picks the loop; any other leaves \<open>error\<close> unset.
\<close>

definition main_setup ::
    "(region \<Rightarrow> nat \<Rightarrow> u8) \<Rightarrow> Core \<Rightarrow> Processor \<Rightarrow> u8 list option \<Rightarrow> string list
       \<Rightarrow> (u32 \<times> Core) res" where
  "main_setup junk junkc junkp file args =
     res_bind (AX_init_mem ((AX_init_proc junkp)\<lparr>p_rom := None\<rparr>) 16 1 1 8 512) (\<lambda>p0.
     res_bind (parse_args args p0) (\<lambda>p1.
     let p2 = AX_init_proc_mem junk p1;
         (r, p3) = AX_load_prog file p2
     in res_bind (AX_add_core junkc p3) (\<lambda>(r', p4).
     res_bind (case p_rom p4 of
                 None \<Rightarrow> Fault Uninit
               | Some rom \<Rightarrow> AX_boot_rom (p_core p4 ! 0) rom (nrom (p_mmap p4))) (\<lambda>core.
     Ok (p_mode p4, core)))))"

definition mode_result :: "(u32 \<times> 'w vm) res option \<Rightarrow> u32 res option" where
  "mode_result r = map_option (\<lambda>x. res_bind x (\<lambda>(e, s). Ok e)) r"

text \<open>The value \<open>main\<close> has in \<open>error\<close> when the loop returns.\<close>

definition main_error ::
    "fenv \<Rightarrow> 'w host \<Rightarrow> 'w \<Rightarrow> (region \<Rightarrow> nat \<Rightarrow> u8) \<Rightarrow> Core \<Rightarrow> Processor \<Rightarrow> u8 list option
       \<Rightarrow> string list \<Rightarrow> u32 res option" where
  "main_error E H w junk junkc junkp file args =
     (case main_setup junk junkc junkp file args of
        Inl f \<Rightarrow> Some (Fault f)
      | Inr (mode, core) \<Rightarrow>
          if mode = 0 \<or> mode = 1 then mode_result (AX_exe_core_mode1 E H (core, w))
          else if mode = 2 then mode_result (AX_exe_core_mode2 E H (core, w))
          else if mode = 3 then mode_result (AX_exe_core_mode3 E core)
          else Some (Fault Uninit))"

section \<open>A processor that has been set up\<close>

lemma parse_keeps:
  assumes "parse_args args p = Ok q"
  shows "p_core q = p_core p \<and> p_icore q = p_icore p"
proof -
  from assms obtain arg where f: "fold_res parse_word args (0, p) = Ok (arg, q)"
    by (auto simp: parse_args_def res_bind_eq_Ok)
  have "case (arg, q) of (a, q) \<Rightarrow> p_core q = p_core p \<and> p_icore q = p_icore p"
  proof (rule fold_res_invariant [OF f, where P = "\<lambda>(a, q). p_core q = p_core p \<and> p_icore q = p_icore p"])
    fix s :: string and x y :: "nat \<times> Processor"
    assume "case x of (a, q) \<Rightarrow> p_core q = p_core p \<and> p_icore q = p_icore p" and "parse_word s x = Ok y"
    then show "case y of (a, q) \<Rightarrow> p_core q = p_core p \<and> p_icore q = p_icore p"
      by (cases x; cases y) (auto simp: parse_word_def res_bind_eq_Ok set_option_def split: if_splits)
  qed simp
  then show ?thesis by simp
qed

lemma add_core_first:
  "p_icore q = 0 \<Longrightarrow>
    AX_add_core junkc q = Ok (0, q\<lparr>p_core := (p_core q)[0 := fresh_core junkc q], p_icore := 1\<rparr>)"
  by (simp add: AX_add_core_def AX_core_MAX_def)

lemma main_setup_core:
  assumes "main_setup junk junkc junkp (Some bs) args = Ok (mode, core)"
    and "length (p_core junkp) = AX_core_MAX"
  obtains p where
    "mem_write WRAM (fresh_core junkc (snd (AX_load_prog (Some bs) (AX_init_proc_mem junk p)))) 0
       (take (unat (of_nat (length bs) :: u32)) bs) = Ok core"
proof -
  define prog where "prog q = snd (AX_load_prog (Some bs) q)" for q
  have prog: "AX_load_prog (Some bs) q = (0, prog q)" for q
    by (simp add: prog_def AX_load_prog_def)
  from assms(1) obtain p0 p1 r p4 where
    p0: "AX_init_mem ((AX_init_proc junkp)\<lparr>p_rom := None\<rparr>) 16 1 1 8 512 = Ok p0"
    and p1: "parse_args args p0 = Ok p1"
    and p4: "AX_add_core junkc (prog (AX_init_proc_mem junk p1)) = Ok (r, p4)"
    and c: "(case p_rom p4 of None \<Rightarrow> Fault Uninit | Some rom \<Rightarrow> AX_boot_rom (p_core p4 ! 0) rom (nrom (p_mmap p4))) = Ok core"
    by (auto simp: main_setup_def Let_def prog res_bind_eq_Ok)
  let ?q = "snd (AX_load_prog (Some bs) (AX_init_proc_mem junk p1))"
  have "p_icore p1 = 0" "length (p_core p1) = 64"
    using p0 parse_keeps [OF p1] assms(2)
    by (auto simp: AX_init_mem_def AX_init_proc_def res_bind_eq_Ok AX_core_MAX_def)
  then have q: "p_icore ?q = 0" "length (p_core ?q) = 64" "p_rom ?q = Some bs"
      "nrom (p_mmap ?q) = of_nat (length bs)"
    by (simp_all add: AX_load_prog_def AX_init_proc_mem_def Let_def)
  have "p4 = ?q\<lparr>p_core := (p_core ?q)[0 := fresh_core junkc ?q], p_icore := 1\<rparr>"
    using p4 add_core_first [OF q(1)] by (simp add: prog_def)
  then have "p_core p4 ! 0 = fresh_core junkc ?q" "p_rom p4 = Some bs" "nrom (p_mmap p4) = of_nat (length bs)"
    using q by simp_all
  then show thesis using c by (intro that [of p1]) (simp add: AX_boot_rom_def split: if_splits)
qed

lemma rd_block_part:
  assumes "rd_block b 0 (length bs) = Ok bs" "a + n \<le> length bs"
  shows "rd_block b a n = Ok (take n (drop a bs))"
proof -
  have b: "length bs \<le> bsize b" "map (bdata b) [0..<length bs] = bs"
    using assms(1) by (auto simp: rd_block_def guard_res_def split: if_splits)
  have "bdata b i = bs ! i" if "i < length bs" for i
    using arg_cong [OF b(2), of "\<lambda>xs. xs ! i"] that by simp
  then have "map (bdata b) [a..<a + n] = take n (drop a bs)"
    using assms(2) by (simp add: list_eq_iff_nth_eq)
  then show ?thesis using b(1) assms(2) by (simp add: rd_block_def guard_res_def)
qed

lemma io_device:
  fixes a :: u64
  assumes "0x10000 \<le> a AND 0x7FFFF"
  shows "(ucast (drop_bit 16 (a AND 0xF0000)) :: u32) \<noteq> 0"
proof
  assume z: "(ucast (drop_bit 16 (a AND 0xF0000)) :: u32) = 0"
  have mask: "0xF0000 = push_bit 16 (mask 4 :: u64)"
    by (simp add: mask_eq_exp_minus_1 push_bit_eq_mult)
  have "\<not> bit a i" if "16 \<le> i" "i < 19" for i
    using arg_cong [OF z [unfolded mask], of "\<lambda>w. bit w (i - 16)"] that
    by (auto simp: bit_ucast_iff bit_drop_bit_eq bit_and_iff bit_push_bit_iff bit_mask_iff)
  then have "a AND mask 19 = a AND mask 16"
    by (intro bit_word_eqI) (auto simp: bit_and_iff bit_mask_iff intro: ccontr)
  then have "a AND 0x7FFFF = a AND 0xFFFF" by (simp add: mask_numeral)
  moreover have "a AND 0xFFFF \<le> 0xFFFF" by (rule word_and_le1)
  ultimately show False using assms by (simp add: word_le_nat_alt)
qed

lemma io_load_oob:
  assumes "bsize (mem core IO) = 0x10000" "region_of a = IO" "0x10000 \<le> a AND 0x7FFFF" "0 < n"
  shows "executeLoad core p a n = Fault Mem_oob"
proof -
  have "0x10000 \<le> unat (a AND 0x7FFFF)" using assms(3) by (simp add: word_le_nat_alt)
  then show ?thesis using assms io_device [OF assms(3)]
    by (simp add: executeLoad_def AX_IO_Read_def Let_def region_off_def mem_read_def rd_block_def guard_res_def)
qed

text \<open>
  C7. When \<open>main\<close> has set the processor up, whatever the options: the program file lies at the start of
  WRAM, the core starts at byte \<open>0x100\<close> of it with no branch and no system call pending, and the blocks have
  the sizes that the address masks assume, except for the I/O block: it has 64 KiB and the mask 512 KiB, so that
  a load beyond is out of bounds.
\<close>
theorem program_booted:
  assumes "main_setup junk junkc junkp (Some bs) args = Ok (mode, core)"
    and "length (p_core junkp) = AX_core_MAX" and "length bs < 2 ^ 31"
  shows "pc core = 0x40 \<and> delay core = 0 \<and> syscall core = 0 \<and>
    (\<forall>a n. a + n \<le> length bs \<longrightarrow> mem_read WRAM core a n = Ok (take n (drop a bs))) \<and>
    (\<forall>r \<in> {WRAM, VRAM, SRAM, SPMT, SPM2, ROM}. ucast (of_nat (bsize (mem core r)) - 1 :: u32) = region_max (mmap core) r) \<and>
    (\<forall>a n p. region_of a = IO \<and> 0x10000 \<le> a AND 0x7FFFF \<and> 0 < n \<longrightarrow> executeLoad core p a n = Fault Mem_oob)"
proof -
  obtain p where w: "mem_write WRAM (fresh_core junkc (snd (AX_load_prog (Some bs) (AX_init_proc_mem junk p)))) 0
       (take (unat (of_nat (length bs) :: u32)) bs) = Ok core"
    using main_setup_core [OF assms(1,2)] by blast
  let ?c = "fresh_core junkc (snd (AX_load_prog (Some bs) (AX_init_proc_mem junk p)))"
  have "unat (of_nat (length bs) :: u32) = length bs"
    using assms(3) by (simp add: unat_of_nat take_bit_nat_eq_self)
  then have w: "mem_write WRAM ?c 0 bs = Ok core" using w by simp
  have size: "bsize (mem core r) = bsize (mem ?c r)" for r
    using core_keeps_mem_write [OF w core_keeps_refl] by (simp add: core_keeps_def)
  have core: "pc core = pc ?c" "delay core = delay ?c" "syscall core = syscall ?c" "mmap core = mmap ?c"
    using w by (auto simp: mem_write_eq_Ok)
  have "mem_read WRAM core a n = Ok (take n (drop a bs))" if "a + n \<le> length bs" for a n
    using region_mem.rd_wr [OF w] that by (auto simp: mem_read_def intro: rd_block_part)
  moreover have "\<forall>r \<in> {WRAM, VRAM, SRAM, SPMT, SPM2, ROM}. ucast (of_nat (bsize (mem core r)) - 1 :: u32) = region_max (mmap core) r"
    unfolding size core by (simp add: fresh_core_def AX_load_prog_def AX_init_proc_mem_def Let_def malloc_def)
  moreover have "executeLoad core p a n = Fault Mem_oob" if "region_of a = IO" "0x10000 \<le> a AND 0x7FFFF" "0 < n" for a n p
  proof -
    have "bsize (mem core IO) = 0x10000"
      unfolding size by (simp add: fresh_core_def AX_load_prog_def AX_init_proc_mem_def Let_def malloc_def)
    then show ?thesis using that by (rule io_load_oob)
  qed
  ultimately show ?thesis unfolding core
    by (simp add: fresh_core_def)
qed

definition demo_processor :: Processor where
  "demo_processor =
     \<lparr>p_core = replicate AX_core_MAX demo_core, p_mmap = mmap demo_core, pmem = mem demo_core,
      p_rom = None, p_ncore = 0, p_icore = 0, p_mode = 0\<rparr>"

theorem program_booted_witness:
  "\<exists>core. main_setup (\<lambda>r i. 0) demo_core demo_processor (Some [0x90, 0, 0, 0]) [''-wram'', ''8'', ''-mode'', ''2''] = Ok (2, core) \<and>
     pc core = 0x40 \<and> mem_read WRAM core 0 4 = Ok [0x90, 0, 0, 0] \<and>
     executeLoad core (IREG 0) (0x02010000 :: u64) 4 = Fault Mem_oob"
proof -
  have "\<exists>core. main_setup (\<lambda>r i. 0) demo_core demo_processor (Some [0x90, 0, 0, 0]) [''-wram'', ''8'', ''-mode'', ''2''] = Ok (2, core)"
    by (simp add: main_setup_def demo_processor_def AX_init_mem_def AX_init_proc_def AX_init_proc_mem_def
        AX_load_prog_def AX_add_core_def AX_boot_rom_def AX_core_MAX_def int_mul_def guard_res_def parse_args_def
        parse_word_def option_arg_def set_option_def atoi_def is_space_def fresh_core_def mem_write_def wr_block_def malloc_def Let_def)
  then obtain core where c: "main_setup (\<lambda>r i. 0) demo_core demo_processor (Some [0x90, 0, 0, 0]) [''-wram'', ''8'', ''-mode'', ''2''] = Ok (2, core)"
    by blast
  have len: "length (p_core demo_processor) = AX_core_MAX" by (simp add: demo_processor_def)
  have "region_of 0x02010000 = IO" by code_simp
  then show ?thesis using program_booted [OF c len] c by auto
qed


section \<open>The scoreboard of a booted core\<close>









end
