(* ===== verification/AX_Moves.thy ===== *)
theory AX_Moves
  imports AX_Efu
begin

text \<open>
  Moves of the floating-point unit (\<open>AX_execute_unit0A\<close>): where \<open>VFSHUFFLE\<close> puts the lanes of its source,
  and what \<open>FMOVEI\<close> leaves in a register.
\<close>

section \<open>Shuffles\<close>

text \<open>The lane of the destination that lane \<open>j\<close> of the source is written to: two bits of the word.\<close>

definition shuffle_sel :: "u32 \<Rightarrow> nat \<Rightarrow> nat" where
  "shuffle_sel opcode j = unat (drop_bit (10 + 2 * j) opcode AND 0x3)"

lemma shuffle_sel_less: "shuffle_sel opc j < 4"
proof -
  have "drop_bit (10 + 2 * j) opc AND 0x3 = take_bit 2 (drop_bit (10 + 2 * j) opc)"
    by (simp add: take_bit_eq_mask mask_eq_exp_minus_1)
  then show ?thesis using take_bit_nat_less_exp [of 2] by (simp add: shuffle_sel_def unsigned_take_bit_eq)
qed

lemma lane_cell: "k < 4 \<Longrightarrow> l < 4 \<Longrightarrow> r * 4 + k = s * 4 + l \<longleftrightarrow> r = s \<and> k = l" for r s k l :: nat
  by presburger

lemma lane_cell0: "k < 4 \<Longrightarrow> r * 4 + k = s * 4 \<longleftrightarrow> r = s \<and> k = 0" "k < 4 \<Longrightarrow> s * 4 = r * 4 + k \<longleftrightarrow> r = s \<and> k = 0"
  for r s k :: nat
  by presburger+

lemma shuffle_steps:
  "unit0A_vfpu E AX_EXE_VFPU_VFSHUFFLE rega regb regc sz opc c =
     Ok (fold (\<lambda>j c. set_vreg (rega * 4 + shuffle_sel opc j) (vreg c ! (regb * 4 + j)) c) [0, 1, 2, 3] c)"
proof -
  have "[0..<4] = [0, 1, 2, 3 :: nat]" by (simp add: upt_rec)
  then show ?thesis
    by (simp only: unit0A_vfpu_def vfpu_arith.simps if_False unit0A_vfpu_move.simps shuffle_sel_def)
qed

text \<open>
  C23. \<open>VFSHUFFLE\<close> scatters: lane \<open>j\<close> of the source goes to the lane of the destination that the word names, the last
  one wins, and lanes that are not named stay. The lanes are moved one after the other: with the same register as
  source and destination the exchange of lanes 0 and 1 leaves lane 0 in both.
\<close>
theorem vector_shuffle:
  assumes "wf_core c" and "rega < 64" and "regb < 64"
  shows "\<exists>d. unit0A_vfpu E AX_EXE_VFPU_VFSHUFFLE rega regb regc sz opc c = Ok d \<and>
    (let x = (\<lambda>j. vreg c ! (regb * 4 + j)); sel = shuffle_sel opc
     in (rega \<noteq> regb \<longrightarrow> (\<forall>r<64. \<forall>k<4. vreg d ! (r * 4 + k) =
           (if r \<noteq> rega then vreg c ! (r * 4 + k)
            else if sel 3 = k then x 3 else if sel 2 = k then x 2
            else if sel 1 = k then x 1 else if sel 0 = k then x 0 else vreg c ! (r * 4 + k)))) \<and>
        (rega = regb \<and> sel 0 = 1 \<and> sel 1 = 0 \<and> sel 2 = 2 \<and> sel 3 = 3 \<longrightarrow>
           vreg d ! (rega * 4) = x 0 \<and> vreg d ! (rega * 4 + 1) = x 0))"
proof -
  have len: "length (vreg c) = 256" using assms(1) by (simp add: wf_core_def core_sizes)
  have s: "shuffle_sel opc j < 4" for j by (rule shuffle_sel_less)
  have cell: "r < 64 \<Longrightarrow> k < 4 \<Longrightarrow> r * 4 + k < 256" for r k :: nat by simp
  show ?thesis
    by (intro exI conjI, rule shuffle_steps)
      (use assms(2,3) s in \<open>auto simp: Let_def set_vreg_def nth_list_update lane_cell lane_cell0 len cell
        simp del: One_nat_def add_2_eq_Suc add_2_eq_Suc' add_Suc_right\<close>)
qed

section \<open>Immediate moves\<close>

lemma f32_sub_0:
  assumes "unpack32 x = FFin s m e" and "0 < m"
  shows "unpack32 (f32_sub E 0 x) = FFin (\<not> s) m e"
proof -
  let ?b = "fmag 8 23 m e"
  have e: "emin 8 23 \<le> e" using funpack_emin [OF assms(1)] .
  have x: "unat x = fsign 8 23 s + ?b"
    using fpack_funpack [of "unat x" 8 23 0] assms(1) unsigned_less [of x, where 'a = nat] by (simp add: fpack_def)
  have "unat (f32_sub E 0 x) = fsign 8 23 (\<not> s) + ?b"
  proof -
    have "fmag 8 23 (m * 2 ^ nat (e - emin 8 23)) (emin 8 23) = ?b"
      using fmag_scale [of 8 23 m "nat (e - emin 8 23)" e] e by simp
    then show ?thesis using assms e
      by (auto simp: f32_sub_def unpack32_0 fv_sub_FFin Let_def fpack_def aligned_def sig_int_def nat_mult_distrib nat_power_eq mult_less_0_iff)
  qed
  moreover have "?b < 2 ^ (8 + 23)" by (rule fmag_less)
  note U = funpack_pack_sign [OF this]
  show ?thesis using assms(1) unfolding calculation x U by (auto simp: Let_def split: if_splits)
qed

lemma f32_sub_self:
  assumes "unpack32 x = FFin s m e"
  shows "f32_sub E x x = 0"
  using assms by (simp add: f32_sub_def fv_sub_FFin pack32_def fpack_def fsign_def)

text \<open>
  C25. \<open>FMOVEI\<close> does not move: it subtracts the immediate from what the register holds. A cleared register
  becomes the immediate with the opposite sign, and one that holds the immediate is cleared.
\<close>
theorem move_immediate_subtracts:
  assumes "wf_core c" and "rega < 64" and "sz < 4"
    and "unpack32 (HalftoFloat (imm16w opc)) = FFin s m e" and "0 < m"
  shows "\<exists>d. unit0A_vfpu E AX_EXE_VFPU_FMOVEI rega regb regc sz opc c = Ok d \<and>
    (vreg c ! (rega * 4 + sz) = 0 \<longrightarrow> unpack32 (vreg d ! (rega * 4 + sz)) = FFin (\<not> s) m e) \<and>
    (vreg c ! (rega * 4 + sz) = HalftoFloat (imm16w opc) \<longrightarrow> vreg d ! (rega * 4 + sz) = 0)"
proof -
  have "length (vreg c) = 256" using assms(1) by (simp add: wf_core_def core_sizes)
  then have "rega * 4 + sz < length (vreg c)" using assms(2,3) by simp
  then show ?thesis using f32_sub_0 [OF assms(4,5)] f32_sub_self [OF assms(4)]
    by (auto simp: Let_def set_vreg_def)
qed

section \<open>Examples\<close>

theorem vector_shuffle_witness:
  "\<forall>E. \<exists>d. unit0A_vfpu E AX_EXE_VFPU_VFSHUFFLE 1 2 0 0 0x2C400 (set_vreg 8 7 demo_core) = Ok d \<and> vreg d ! 5 = 7"
proof
  fix E
  let ?c = "set_vreg 8 7 demo_core"
  have wf: "wf_core ?c" by (simp add: set_vreg_def wf_core_def core_sizes demo_core_def)
  have sel: "shuffle_sel 0x2C400 0 = 1" "shuffle_sel 0x2C400 1 = 0" "shuffle_sel 0x2C400 2 = 3" "shuffle_sel 0x2C400 3 = 2"
    by (simp_all add: shuffle_sel_def)
  have v: "vreg ?c ! (2 * 4 + 0) = 7" by (simp add: set_vreg_def demo_core_def)
  from vector_shuffle [OF wf, of 1 2 E 0 0 "0x2C400"] obtain d
    where d: "unit0A_vfpu E AX_EXE_VFPU_VFSHUFFLE 1 2 0 0 0x2C400 ?c = Ok d"
      "\<forall>r<64. \<forall>k<4. vreg d ! (r * 4 + k) = (if r \<noteq> 1 then vreg ?c ! (r * 4 + k)
        else if shuffle_sel 0x2C400 3 = k then vreg ?c ! (2 * 4 + 3) else if shuffle_sel 0x2C400 2 = k then vreg ?c ! (2 * 4 + 2)
        else if shuffle_sel 0x2C400 1 = k then vreg ?c ! (2 * 4 + 1) else if shuffle_sel 0x2C400 0 = k then vreg ?c ! (2 * 4 + 0)
        else vreg ?c ! (r * 4 + k))"
    unfolding Let_def by auto
  have "vreg d ! (1 * 4 + 1) = 7" using d(2) [rule_format, of 1 1] unfolding sel v by simp
  then show "\<exists>d. unit0A_vfpu E AX_EXE_VFPU_VFSHUFFLE 1 2 0 0 0x2C400 ?c = Ok d \<and> vreg d ! 5 = 7"
    using d(1) by auto
qed

theorem move_immediate_subtracts_witness:
  "\<forall>E. \<exists>d. unit0A_vfpu E AX_EXE_VFPU_FMOVEI 1 0 0 2 0xF80000 demo_core = Ok d \<and>
     unpack32 (vreg d ! 6) = FFin True 0xC00000 (- 23)"
proof
  fix E
  have "imm16w 0xF80000 = 0x3E00" by (simp add: imm16w_def)
  moreover have "HalftoFloat 0x3E00 = 0x3FC00000" by code_simp
  ultimately have h: "unpack32 (HalftoFloat (imm16w 0xF80000)) = FFin False 0xC00000 (- 23)"
    by (simp add: funpack_def Let_def emin_def)
  have "vreg demo_core ! (1 * 4 + 2) = 0" by simp
  then show "\<exists>d. unit0A_vfpu E AX_EXE_VFPU_FMOVEI 1 0 0 2 0xF80000 demo_core = Ok d \<and>
     unpack32 (vreg d ! 6) = FFin True 0xC00000 (- 23)"
    using move_immediate_subtracts [OF wf_demo_core _ _ h, of 1 2 E 0 0] by auto
qed

end
