(* ===== verification/AX_AXS.thy ===== *)
theory AX_AXS
  imports AX_Exec
begin

text \<open>
  The front end of the AX-S sketch (\<open>src/AX-S/AXS.c\<close>): fetching four words, pairing them into bundles,
  cutting the window behind a branch, and the step \<open>AXS_decode_execute\<close>, which still runs the program
  the way \<open>AX_decode_execute\<close> does; its calls of \<open>Fetch\<close> and \<open>Decode\<close> are commented out. The static
  variables are a record. The lemmas compare \<open>PreDecode\<close> with greedy pairing and the two steps with
  each other.
\<close>

section \<open>State\<close>

text \<open>The signals, and the words before and behind \<open>PreDecode\<close>; the other fields of \<open>SWindow\<close> are never used.\<close>

record AXS =
  signal_Fetch :: u8
  signal_Decode :: u8
  signal_Window :: u8
  signal_DecodeDelay :: u8
  opcode_in :: "u32 list"
  opcode_out :: "u32 list"

definition AXS_start :: AXS where
  "AXS_start =
     \<lparr>signal_Fetch = 0, signal_Decode = 0, signal_Window = 0, signal_DecodeDelay = 0,
      opcode_in = replicate 4 0, opcode_out = replicate 8 0\<rparr>"

section \<open>Operations\<close>

text \<open>
  The words of a window that \<open>PreDecode\<close> chooses, and \<open>end\<close>; the cases are in the order of the code.
  No case is left over.
\<close>

definition PreDecode_window :: "u32 \<Rightarrow> u32 \<Rightarrow> u32 \<Rightarrow> u32 \<Rightarrow> u32 list \<times> nat" where
  "PreDecode_window w0 w1 w2 w3 =
     (let vliw0 = (w0 AND 1) OR push_bit 1 (w1 AND 1) OR push_bit 2 (w2 AND 1);
          vliw1 = vliw0 AND 5;
          vliw2 = vliw0 AND 3
      in if vliw0 = 0 then ([w0, 0, w1, 0, w2, 0, w3, 0], 1)
         else if vliw0 = 4 then ([w0, 0, w1, 0, w2, w3, 0, 0], 0)
         else if vliw2 = 2 then ([w0, 0, w1, w2, w3, 0, 0, 0], 2)
         else if vliw1 = 1 then ([w0, w1, w2, 0, w3, 0, 0, 0], 2)
         else ([w0, w1, w2, w3, 0, 0, 0, 0], 0))"

definition PreDecode :: "u32 list \<Rightarrow> Core \<Rightarrow> u32 list \<times> Core" where
  "PreDecode ws core =
     (let (win, e) = PreDecode_window (ws ! 0) (ws ! 1) (ws ! 2) (ws ! 3);
          vliw3 = ws ! 3 AND 1
      in if vliw3 \<noteq> 0
         then ((if e = 1 then win[6 := 0, 7 := 0] else win[4 := 0, 5 := 0]), core\<lparr>pc := pc core - 1\<rparr>)
         else (win, core))"

definition is_branch_word :: "u32 \<Rightarrow> bool" where
  "is_branch_word w \<longleftrightarrow> (let u = drop_bit 1 (w AND 0xFE) in 0x4C \<le> u \<and> u \<le> 0x5F)"

definition EliminateBranch :: "u32 list \<Rightarrow> AXS \<Rightarrow> Core \<Rightarrow> u32 list \<times> AXS \<times> Core" where
  "EliminateBranch win s core =
     (if is_branch_word (win ! 0)
      then (win[4 := 0, 5 := 0, 6 := 0, 7 := 0], s\<lparr>signal_DecodeDelay := 1\<rparr>, core)
      else if is_branch_word (win ! 2)
      then (win[6 := 0, 7 := 0], s\<lparr>signal_DecodeDelay := 1\<rparr>, core)
      else if is_branch_word (win ! 4)
      then (win, s\<lparr>signal_DecodeDelay := 1\<rparr>, core)
      else if is_branch_word (win ! 6)
      then (win[6 := 0, 7 := 0], s\<lparr>signal_DecodeDelay := 1\<rparr>, core\<lparr>pc := pc core - 1\<rparr>)
      else (win, s, core))"

text \<open>\<open>Decode\<close>, named after the unit to keep it apart from the decoders of the other parts.\<close>

definition AXS_Decode :: "AXS \<Rightarrow> Core \<Rightarrow> AXS \<times> Core" where
  "AXS_Decode s core =
     (if signal_DecodeDelay s = 1 then (s\<lparr>signal_DecodeDelay := 0\<rparr>, core)
      else if signal_Decode s = 0 then (s, core)
      else let (win, core1) = PreDecode (opcode_in s) core;
               (win2, s2, core2) = EliminateBranch win s core1
           in (s2\<lparr>opcode_out := win2, signal_Window := 1\<rparr>, core2))"

text \<open>\<open>Fetch\<close>, into \<open>opcode_in\<close>.\<close>

definition AXS_Fetch :: "AXS \<Rightarrow> Core \<Rightarrow> (AXS \<times> Core) res" where
  "AXS_Fetch s core =
     (if signal_Fetch s \<noteq> 0 then Ok (s, core)
      else res_bind (fetch_word core (pc core)) (\<lambda>w0.
           res_bind (fetch_word core (pc core + 1)) (\<lambda>w1.
           res_bind (fetch_word core (pc core + 2)) (\<lambda>w2.
           res_bind (fetch_word core (pc core + 3)) (\<lambda>w3.
           Ok (s\<lparr>opcode_in := [w0, w1, w2, w3], signal_Decode := 1\<rparr>, core\<lparr>pc := pc core + 4\<rparr>))))))"

definition AXS_decode_execute :: "fenv \<Rightarrow> Core \<Rightarrow> Core res" where
  "AXS_decode_execute E core0 =
     (let core = core0\<lparr>cycle := cycle core0 + 1\<rparr>
      in res_bind (fetch_word core (pc core)) (\<lambda>opcode.
         let core1 = (if delay core = 1 then executeDelayedInstruction core else core);
             core2 = core1\<lparr>opcode1 := opcode, pc := pc core1 + 1\<rparr>
         in res_bind (exec0 E opcode core2) (\<lambda>core3.
            if opcode AND 1 \<noteq> 0 then
              let core4 = core3\<lparr>instruction := instruction core3 + 1\<rparr>
              in res_bind (fetch_word core4 (pc core4 + 1)) (\<lambda>opcode'.
                 exec1 opcode' (core4\<lparr>opcode2 := opcode', pc := pc core4 + 1\<rparr>))
            else Ok core3)))"

section \<open>Greedy pairing\<close>

text \<open>
  The bundles of a list of words: a word with its low bit set takes the next one as its second word. The
  number is that of the words that are left, one if the last word starts a bundle.
\<close>

fun pair_words :: "u32 list \<Rightarrow> (u32 \<times> u32) list \<times> nat" where
  "pair_words [] = ([], 0)"
| "pair_words [a] = (if a AND 1 \<noteq> 0 then ([], 1) else ([(a, 0)], 0))"
| "pair_words (a # b # ws) =
     (if a AND 1 \<noteq> 0 then (let (ps, k) = pair_words ws in ((a, b) # ps, k))
      else (let (ps, k) = pair_words (b # ws) in ((a, 0) # ps, k)))"

fun flat_pairs :: "(u32 \<times> u32) list \<Rightarrow> u32 list" where
  "flat_pairs [] = []"
| "flat_pairs ((a, b) # ps) = a # b # flat_pairs ps"

definition pad8 :: "u32 list \<Rightarrow> u32 list" where
  "pad8 ws = ws @ replicate (8 - length ws) 0"

lemma low_bit: "(w :: u32) AND 1 = 0 \<or> w AND 1 = 1"
  by (simp add: and_one_eq mod2_eq_if)

lemma vliw_bits:
  assumes "b0 \<in> {0, 1}" "b1 \<in> {0, 1}" "b2 \<in> {0, 1 :: u32}"
  shows "b0 OR push_bit 1 b1 OR push_bit 2 b2 = 0 \<longleftrightarrow> b0 = 0 \<and> b1 = 0 \<and> b2 = 0"
    and "b0 OR push_bit 1 b1 OR push_bit 2 b2 = 4 \<longleftrightarrow> b0 = 0 \<and> b1 = 0 \<and> b2 = 1"
    and "(b0 OR push_bit 1 b1 OR push_bit 2 b2) AND 3 = 2 \<longleftrightarrow> b0 = 0 \<and> b1 = 1"
    and "(b0 OR push_bit 1 b1 OR push_bit 2 b2) AND 5 = 1 \<longleftrightarrow> b0 = 1 \<and> b2 = 0"
  using assms by (elim insertE emptyE; hypsubst; simp)+

lemma PreDecode_window_cases:
  "PreDecode_window w0 w1 w2 w3 =
    (if w0 AND 1 = 1 then
       if w2 AND 1 = 1 then ([w0, w1, w2, w3, 0, 0, 0, 0], 0) else ([w0, w1, w2, 0, w3, 0, 0, 0], 2)
     else if w1 AND 1 = 1 then ([w0, 0, w1, w2, w3, 0, 0, 0], 2)
     else if w2 AND 1 = 1 then ([w0, 0, w1, 0, w2, w3, 0, 0], 0)
     else ([w0, 0, w1, 0, w2, 0, w3, 0], 1))"
proof -
  have b: "w AND 1 \<in> {0, 1}" for w :: u32 using low_bit [of w] by simp
  show ?thesis using low_bit [of w0] low_bit [of w1] low_bit [of w2]
    by (simp only: PreDecode_window_def Let_def vliw_bits [OF b b b]) auto
qed

lemma upd_last2: "[a, b, c, d, e, f, g, h][6 := x, 7 := y] = [a, b, c, d, e, f, x, y]"
    "[a, b, c, d, e, f, g, h][4 := x, 5 := y] = [a, b, c, d, x, y, g, h]"
  by (simp_all add: eval_nat_numeral)

lemma PreDecode_cases:
  "PreDecode [w0, w1, w2, w3] core =
    (if w0 AND 1 = 1 then
       if w2 AND 1 = 1 then ([w0, w1, w2, w3, 0, 0, 0, 0], if w3 AND 1 = 1 then core\<lparr>pc := pc core - 1\<rparr> else core)
       else if w3 AND 1 = 1 then ([w0, w1, w2, 0, 0, 0, 0, 0], core\<lparr>pc := pc core - 1\<rparr>)
       else ([w0, w1, w2, 0, w3, 0, 0, 0], core)
     else if w1 AND 1 = 1 then
       if w3 AND 1 = 1 then ([w0, 0, w1, w2, 0, 0, 0, 0], core\<lparr>pc := pc core - 1\<rparr>)
       else ([w0, 0, w1, w2, w3, 0, 0, 0], core)
     else if w2 AND 1 = 1 then
       if w3 AND 1 = 1 then ([w0, 0, w1, 0, 0, 0, 0, 0], core\<lparr>pc := pc core - 1\<rparr>)
       else ([w0, 0, w1, 0, w2, w3, 0, 0], core)
     else if w3 AND 1 = 1 then ([w0, 0, w1, 0, w2, 0, 0, 0], core\<lparr>pc := pc core - 1\<rparr>)
     else ([w0, 0, w1, 0, w2, 0, w3, 0], core))"
proof -
  have i: "[w0, w1, w2, w3] ! 0 = w0" "[w0, w1, w2, w3] ! 1 = w1" "[w0, w1, w2, w3] ! 2 = w2"
    "[w0, w1, w2, w3] ! 3 = w3" by (simp_all add: eval_nat_numeral)
  have n: "w3 AND 1 \<noteq> 0 \<longleftrightarrow> w3 AND 1 = 1" using low_bit [of w3] by auto
  show ?thesis by (simp only: PreDecode_def i PreDecode_window_cases Let_def n) (simp add: upd_last2)
qed

text \<open>
  C39. \<open>PreDecode\<close> pairs four words greedily and steps the program counter back over a bundle that is not
  complete, unless the last word is a second word with its low bit set: then the counter goes back one word
  all the same, so that a second word is fetched as a first one, and if the bundle is the third of the
  window it is also lost.
\<close>
theorem predecode_pairs:
  assumes "ws = [w0, w1, w2, w3]" and "pair_words ws = (ps, k)"
  shows "if w3 AND 1 = 0 \<or> k = 1
    then PreDecode ws core = (pad8 (flat_pairs ps), if k = 1 then core\<lparr>pc := pc core - 1\<rparr> else core)
    else PreDecode ws core =
      (pad8 (flat_pairs (if length ps = 3 then butlast ps else ps)), core\<lparr>pc := pc core - 1\<rparr>)"
  using assms(2) low_bit [of w0] low_bit [of w1] low_bit [of w2] low_bit [of w3] unfolding assms(1)
  by (elim disjE) (simp_all add: PreDecode_cases pad8_def, (auto simp: eval_nat_numeral)?)

theorem predecode_pairs_witness:
  "\<forall>c. PreDecode [2, 4, 7, 6] c = ([2, 0, 4, 0, 7, 6, 0, 0], c) \<and>
     PreDecode [2, 4, 7, 9] c = ([2, 0, 4, 0, 0, 0, 0, 0], c\<lparr>pc := pc c - 1\<rparr>)"
proof
  fix c :: Core
  show "PreDecode [2, 4, 7, 6] c = ([2, 0, 4, 0, 7, 6, 0, 0], c) \<and>
     PreDecode [2, 4, 7, 9] c = ([2, 0, 4, 0, 0, 0, 0, 0], c\<lparr>pc := pc c - 1\<rparr>)"
    using predecode_pairs [of "[2, 4, 7, 6]" 2 4 7 6 "[(2, 0), (4, 0), (7, 6)]" 0 c, OF refl]
      predecode_pairs [of "[2, 4, 7, 9]" 2 4 7 9 "[(2, 0), (4, 0), (7, 9)]" 0 c, OF refl]
    by (simp add: pad8_def eval_nat_numeral)
qed

section \<open>The step\<close>

lemma second_slot_eq:
  "(\<lambda>core3. if opcode AND 1 \<noteq> 0 then
      let core4 = core3\<lparr>instruction := instruction core3 + 1\<rparr>
      in res_bind (fetch_word core4 (pc core4 + 1)) (\<lambda>opcode'.
         exec1 opcode' (core4\<lparr>opcode2 := opcode', pc := pc core4 + 1\<rparr>))
    else Ok core3) = second_slot opcode"
  by (simp add: second_slot_def fun_eq_iff)

text \<open>A step of AX-S is the step of the VM, except that it does not count its first instruction.\<close>

theorem axs_step_equals:
  "AXS_decode_execute E core = AX_decode_execute E (core\<lparr>instruction := instruction core - 1\<rparr>)"
  by (simp add: AXS_decode_execute_def AX_decode_execute_def second_slot_eq Let_def [where s = "_ :: Core"])

end
