(* ===== verification/AX_Perf.thy ===== *)
theory AX_Perf
  imports AX_Memory
begin

text \<open>
  The performance tests of \<open>test.c\<close>: two loops over an array of \<open>int\<close> and a decimal printer driven by
  a table of digit pairs, with the tests that call them. A C \<open>int\<close> is an \<open>int\<close> here, with the
  overflow of each addition as a fault; an array of indeterminate contents and the two readings of
  the time stamp counter are arguments. The lemmas say for which numbers each routine is defined and
  what it computes there.
\<close>

section \<open>The loops\<close>

definition INT_MAX :: int where "INT_MAX = 2147483647"

definition test_loop :: "int \<Rightarrow> int list \<Rightarrow> int list res" where
  "test_loop n =
     fold_res (\<lambda>i tab.
       if i < length tab
       then (if tab ! i + 5 \<le> INT_MAX then Ok (tab[i := tab ! i + 5]) else Fault Int_overflow)
       else Fault Mem_oob) [0..<nat n]"

definition loop2_body :: "nat \<Rightarrow> int \<times> int list \<Rightarrow> (int \<times> int list) res" where
  "loop2_body i = (\<lambda>(a, tab).
     if a + a \<le> INT_MAX
     then (if i < length tab then Ok (a + a, tab[i := a + a]) else Fault Mem_oob)
     else Fault Int_overflow)"

definition test_loop2 :: "int \<Rightarrow> int list \<Rightarrow> int list res" where
  "test_loop2 n tab = res_bind (fold_res loop2_body [0..<nat n] (n, tab)) (\<lambda>(a, tab'). Ok tab')"

section \<open>The decimal printer\<close>

definition digit_table :: "u8 list" where
  "digit_table =
     [0x30, 0x30, 0x30, 0x31, 0x30, 0x32, 0x30, 0x33, 0x30, 0x34,
      0x30, 0x35, 0x30, 0x36, 0x30, 0x37, 0x30, 0x38, 0x30, 0x39,
      0x31, 0x30, 0x31, 0x31, 0x31, 0x32, 0x31, 0x33, 0x31, 0x34,
      0x31, 0x35, 0x31, 0x36, 0x31, 0x37, 0x31, 0x38, 0x31, 0x39,
      0x32, 0x30, 0x32, 0x31, 0x32, 0x32, 0x32, 0x33, 0x32, 0x34,
      0x32, 0x35, 0x32, 0x36, 0x32, 0x37, 0x32, 0x38, 0x32, 0x39,
      0x33, 0x30, 0x33, 0x31, 0x33, 0x32, 0x33, 0x33, 0x33, 0x34,
      0x33, 0x35, 0x33, 0x36, 0x33, 0x37, 0x33, 0x38, 0x33, 0x39,
      0x34, 0x30, 0x34, 0x31, 0x34, 0x32, 0x34, 0x33, 0x34, 0x34,
      0x34, 0x35, 0x34, 0x36, 0x34, 0x37, 0x34, 0x38, 0x34, 0x39,
      0x35, 0x30, 0x35, 0x31, 0x35, 0x32, 0x35, 0x33, 0x35, 0x34,
      0x35, 0x35, 0x35, 0x36, 0x35, 0x37, 0x35, 0x38, 0x35, 0x39,
      0x36, 0x30, 0x36, 0x31, 0x36, 0x32, 0x36, 0x33, 0x36, 0x34,
      0x36, 0x35, 0x36, 0x36, 0x36, 0x37, 0x36, 0x38, 0x36, 0x39,
      0x37, 0x30, 0x37, 0x31, 0x37, 0x32, 0x37, 0x33, 0x37, 0x34,
      0x37, 0x35, 0x37, 0x36, 0x37, 0x37, 0x37, 0x38, 0x37, 0x39,
      0x38, 0x30, 0x38, 0x31, 0x38, 0x32, 0x38, 0x33, 0x38, 0x34,
      0x38, 0x35, 0x38, 0x36, 0x38, 0x37, 0x38, 0x38, 0x38, 0x39,
      0x39, 0x30, 0x39, 0x31, 0x39, 0x32, 0x39, 0x33, 0x39, 0x34,
      0x39, 0x35, 0x39, 0x36, 0x39, 0x37, 0x39, 0x38, 0x39, 0x39]"

definition copy_digits :: "nat \<Rightarrow> u64 \<Rightarrow> u8 list \<Rightarrow> u8 list res" where
  "copy_digits at k buf =
     (if 2 * unat k + 2 \<le> length digit_table
      then (if at + 2 \<le> length buf then Ok (splice at (take 2 (drop (2 * unat k) digit_table)) buf)
            else Fault Mem_oob)
      else Fault Index_oob)"

definition to_string_tree_table :: "u64 \<Rightarrow> u8 list \<Rightarrow> u8 list res" where
  "to_string_tree_table x buf0 =
     (let top = x div 100000000; bottom = x mod 100000000;
          toptop = top div 10000; topbottom = top mod 10000;
          bottomtop = bottom div 10000; bottombottom = bottom mod 10000;
          toptoptop = toptop div 100; toptopbottom = toptop mod 100;
          topbottomtop = topbottom div 100; topbottombottom = topbottom mod 100;
          bottomtoptop = bottomtop div 100; bottomtopbottom = bottomtop mod 100;
          bottombottomtop = bottombottom div 100; bottombottombottom = bottombottom mod 100
      in res_bind (copy_digits 0 toptoptop buf0) (\<lambda>buf.
         res_bind (copy_digits 2 toptopbottom buf) (\<lambda>buf.
         res_bind (copy_digits 4 topbottomtop buf) (\<lambda>buf.
         res_bind (copy_digits 6 topbottombottom buf) (\<lambda>buf.
         res_bind (copy_digits 8 bottomtoptop buf) (\<lambda>buf.
         res_bind (copy_digits 10 bottomtopbottom buf) (\<lambda>buf.
         res_bind (copy_digits 12 bottombottomtop buf) (\<lambda>buf.
         copy_digits 14 bottombottombottom buf))))))))"

section \<open>The tests\<close>

text \<open>
  The time stamp counter comes in two registers. \<open>test_perf\<close> gives the two numbers that it prints, the
  cycles per element and in all. \<open>test_perf2\<close> reads the counter of its loop, which has no initial
  value, right after the first conversion.
\<close>

definition rdtsc :: "u64 \<Rightarrow> u64 \<Rightarrow> u64" where
  "rdtsc a d = push_bit 32 d OR a"

definition test_perf :: "u64 \<times> u64 \<Rightarrow> u64 \<times> u64 \<Rightarrow> int list \<Rightarrow> (u64 \<times> u64) res" where
  "test_perf t0 t1 tab0 =
     (let n = 10000
      in res_bind (test_loop n tab0) (\<lambda>tab1.
         let beg = rdtsc (fst t0) (snd t0)
         in res_bind (test_loop2 n tab1) (\<lambda>tab2.
            let d = rdtsc (fst t1) (snd t1) - beg in Ok (d div of_int n, d))))"

definition test_perf2 :: "u8 list \<Rightarrow> (u64 \<times> u64) res" where
  "test_perf2 tab0 =
     (let n = 10000
      in res_bind (to_string_tree_table n tab0) (\<lambda>tab1. Fault Uninit))"

section \<open>What the loops compute\<close>

lemma loop2_Ok:
  assumes "a * 2 ^ k \<le> INT_MAX" and "0 \<le> a" and "k \<le> length tab"
  shows "fold_res loop2_body [0..<k] (a, tab) = Ok (a * 2 ^ k, map (\<lambda>j. a * 2 ^ Suc j) [0..<k] @ drop k tab)"
  using assms
proof (induction k)
  case 0
  then show ?case by simp
next
  case (Suc k)
  have "a * 2 ^ k \<le> a * 2 ^ Suc k" using Suc.prems(2) by (intro mult_left_mono) simp_all
  from order_trans [OF this Suc.prems(1)] Suc.prems
  have "fold_res loop2_body [0..<k] (a, tab) = Ok (a * 2 ^ k, map (\<lambda>j. a * 2 ^ Suc j) [0..<k] @ drop k tab)"
    by (intro Suc.IH) simp_all
  moreover have "loop2_body k (a * 2 ^ k, map (\<lambda>j. a * 2 ^ Suc j) [0..<k] @ drop k tab) =
      Ok (a * 2 ^ Suc k, map (\<lambda>j. a * 2 ^ Suc j) [0..<Suc k] @ drop (Suc k) tab)"
    using Suc.prems by (simp add: loop2_body_def list_update_append Cons_nth_drop_Suc [symmetric])
  ultimately show ?case by (simp add: fold_res_append)
qed

lemma upt_add_Suc: "[i..<i + Suc k] = i # [Suc i..<Suc i + k]"
  by (simp only: upt_conv_Cons less_add_Suc1 add_Suc_right add_Suc)

lemma loop2_overflow:
  assumes "INT_MAX < a * 2 ^ k" and "0 < a" and "a \<le> INT_MAX" and "i + k \<le> length tab"
  shows "fold_res loop2_body [i..<i + k] (a, tab) = Fault Int_overflow"
  using assms
proof (induction k arbitrary: a i tab)
  case 0
  then show ?case by simp
next
  case (Suc k)
  show ?case
  proof (cases "a + a \<le> INT_MAX")
    case True
    then have "loop2_body i (a, tab) = Ok (a + a, tab[i := a + a])" using Suc.prems by (simp add: loop2_body_def)
    moreover have "fold_res loop2_body [Suc i..<Suc i + k] (a + a, tab[i := a + a]) = Fault Int_overflow"
      by (rule Suc.IH) (use Suc.prems True in \<open>simp_all add: algebra_simps\<close>)
    ultimately show ?thesis unfolding upt_add_Suc by (simp only: fold_res.simps res_bind_simps)
  next
    case False
    then show ?thesis unfolding upt_add_Suc by (simp add: loop2_body_def)
  qed
qed

lemma pow_limit: "(n :: nat) \<le> 26 \<Longrightarrow> int n * 2 ^ n \<le> INT_MAX" "27 \<le> n \<Longrightarrow> INT_MAX < int n * 2 ^ n"
proof -
  assume "n \<le> 26"
  then have "int n * 2 ^ n \<le> 26 * 2 ^ 26" by (intro mult_mono power_increasing) simp_all
  then show "int n * 2 ^ n \<le> INT_MAX" by (simp add: INT_MAX_def)
next
  assume "27 \<le> n"
  then have "27 * 2 ^ 27 \<le> int n * (2 :: int) ^ n" by (intro mult_mono power_increasing) simp_all
  then show "INT_MAX < int n * 2 ^ n" by (simp add: INT_MAX_def)
qed

text \<open>
  \<open>test_loop2\<close> doubles its argument at every element. That is defined, and fills the array with
  \<open>n * 2, n * 4, ...\<close>, for \<open>n\<close> up to 26; from 27 on the doubling overflows before the loop ends.
\<close>
theorem test_loop2_overflow:
  assumes "n \<le> length tab" and "int n \<le> INT_MAX"
  shows "test_loop2 (int n) tab =
    (if n \<le> 26 then Ok (map (\<lambda>i. int n * 2 ^ Suc i) [0..<n] @ drop n tab) else Fault Int_overflow)"
proof (cases "n \<le> 26")
  case True
  then show ?thesis using loop2_Ok [OF pow_limit(1), of n tab] assms by (simp add: test_loop2_def)
next
  case False
  then show ?thesis using loop2_overflow [OF pow_limit(2), of n 0 tab] assms by (simp add: test_loop2_def)
qed

theorem test_loop2_overflow_witness:
  "test_loop2 2 [0, 0, 7] = Ok [4, 8, 7] \<and> test_loop2 10000 (replicate 100000 0) = Fault Int_overflow"
  using test_loop2_overflow [of 2 "[0, 0, 7]"] test_loop2_overflow [of 10000 "replicate 100000 0"]
  by (simp add: INT_MAX_def upt_rec)

lemma test_loop_length: "test_loop n tab = Ok tab' \<Longrightarrow> length tab' = length tab"
  unfolding test_loop_def
  by (rule fold_res_invariant [where P = "\<lambda>t. length t = length tab"]) (auto split: if_splits)

lemma test_loop_faults:
  assumes "fold_res (\<lambda>i tab. if i < length tab
       then (if tab ! i + 5 \<le> INT_MAX then Ok (tab[i := tab ! i + 5]) else Fault Int_overflow)
       else Fault Mem_oob) is tab = Fault e" and "\<forall>i \<in> set is. i < length tab"
  shows "e = Int_overflow"
  using assms by (induction "is" arbitrary: tab) (auto split: if_splits)

text \<open>The test of the loops is undefined for every array: 10000 elements are doubled.\<close>

lemma test_perf_undefined:
  assumes "length tab = 100000"
  shows "test_perf t0 t1 tab = Fault Int_overflow"
proof (cases "test_loop 10000 tab")
  case (Inl e)
  then have "e = Int_overflow" using assms by (intro test_loop_faults [of "[0..<10000]" tab]) (simp_all add: test_loop_def)
  then show ?thesis by (simp add: test_perf_def Inl)
next
  case (Inr tab1)
  then have "length tab1 = 100000" using assms test_loop_length by simp
  then have "test_loop2 (int 10000) tab1 = Fault Int_overflow"
    using loop2_overflow [OF pow_limit(2), of 10000 0 tab1] by (simp add: test_loop2_def INT_MAX_def)
  then show ?thesis by (simp add: test_perf_def Inr)
qed

section \<open>What the printer writes\<close>

lemma digit_table_eq: "digit_table = concat (map (\<lambda>k. [0x30 + of_nat (k div 10), 0x30 + of_nat (k mod 10)]) [0..<100])"
  by (simp add: digit_table_def upt_rec)

lemma length_digit_table: "length digit_table = 200"
  by (simp add: digit_table_def)

lemma concat_pairs: "k < n \<Longrightarrow> take 2 (drop (2 * k) (concat (map (\<lambda>k. [f k, g k]) [0..<n]))) = [f k, g k]"
proof -
  assume "k < n"
  then obtain m where m: "n = k + Suc m" using less_imp_Suc_add by fastforce
  have l: "length (concat (map (\<lambda>k. [f k, g k]) [0..<k])) = 2 * k" by (induction k) simp_all
  have "[0..<n] = [0..<k] @ k # [Suc k..<n]" 
    using upt_add_eq_append [of 0 k "Suc m"] by (simp add: m upt_conv_Cons del: upt_Suc)
  then show ?thesis using l by simp
qed

lemma copy_digits_Ok:
  assumes "unat k < 100" and "at + 2 \<le> length buf"
  shows "copy_digits at k buf =
    Ok (splice at [0x30 + of_nat (unat k div 10), 0x30 + of_nat (unat k mod 10)] buf)"
  using assms by (simp add: copy_digits_def length_digit_table) (simp add: digit_table_eq concat_pairs)

text \<open>Reading decimal digits back.\<close>

definition digits_value :: "u8 list \<Rightarrow> nat" where
  "digits_value = foldl (\<lambda>v d. 10 * v + (unat d - 0x30)) 0"

definition is_digit :: "u8 \<Rightarrow> bool" where
  "is_digit d \<longleftrightarrow> 0x30 \<le> d \<and> d \<le> 0x39"

lemma digit_byte: "d < 10 \<Longrightarrow> unat (0x30 + of_nat d :: u8) = 0x30 + d"
  by (simp add: unat_add_lem [THEN iffD1] unat_of_nat)

definition digit_pair :: "nat \<Rightarrow> u8 list" where
  "digit_pair k = [0x30 + of_nat (k div 10), 0x30 + of_nat (k mod 10)]"

lemma length_digit_pair [simp]: "length (digit_pair k) = 2"
  by (simp add: digit_pair_def)

lemma copy_digits_append:
  assumes "unat k < 100" and "length ds = at" and "2 \<le> length rest"
  shows "copy_digits at k (ds @ rest) = Ok ((ds @ digit_pair (unat k)) @ drop 2 rest)"
  using assms by (simp add: copy_digits_Ok splice_def digit_pair_def)

lemma digits_value_pair: "k < 100 \<Longrightarrow> digits_value (ds @ digit_pair k) = 100 * digits_value ds + k"
  by (simp add: digits_value_def digit_pair_def digit_byte)

lemma is_digit_pair:
  assumes "k < 100" shows "list_all is_digit (digit_pair k)"
proof -
  have "k div 10 \<le> 9" "k mod 10 \<le> 9" using assms by arith+
  then show ?thesis by (simp add: digit_pair_def is_digit_def word_le_nat_alt digit_byte)
qed

text \<open>The eight pairs of a number, the first one unbounded.\<close>

definition digit_pairs :: "u64 \<Rightarrow> u64 list" where
  "digit_pairs x =
     [x div 100000000 div 10000 div 100, x div 100000000 div 10000 mod 100,
      x div 100000000 mod 10000 div 100, x div 100000000 mod 10000 mod 100,
      x mod 100000000 div 10000 div 100, x mod 100000000 div 10000 mod 100,
      x mod 100000000 mod 10000 div 100, x mod 100000000 mod 10000 mod 100]"

lemma digit_pairs_bound: "x < 10000000000000000 \<Longrightarrow> k \<in> set (digit_pairs x) \<Longrightarrow> unat k < 100"
  by (auto simp: digit_pairs_def unat_div_distrib unat_mod_distrib word_less_nat_alt div_less_iff_less_mult less_mult_imp_div_less)

lemma copy_digits_first:
  "unat k < 100 \<Longrightarrow> 2 \<le> length buf \<Longrightarrow> copy_digits 0 k buf = Ok (digit_pair (unat k) @ drop 2 buf)"
  using copy_digits_append [of k "[]" 0 buf] by simp

lemma to_string_Ok:
  assumes "x < 10000000000000000" and "16 \<le> length buf"
  shows "to_string_tree_table x buf = Ok (concat (map (\<lambda>k. digit_pair (unat k)) (digit_pairs x)) @ drop 16 buf)"
proof -
  have b: "list_all (\<lambda>k. unat k < 100) (digit_pairs x)"
    using digit_pairs_bound [OF assms(1)] by (simp add: list_all_iff)
  have "to_string_tree_table x buf =
      Ok (foldl (\<lambda>ds k. ds @ digit_pair (unat k)) (digit_pair (unat (hd (digit_pairs x)))) (tl (digit_pairs x)) @ drop 16 buf)"
    using assms(2) b
    by (simp add: to_string_tree_table_def digit_pairs_def Let_def copy_digits_first copy_digits_append del: append_assoc)
  then show ?thesis by (simp add: digit_pairs_def)
qed

lemma to_string_oob:
  assumes "\<not> x < 10000000000000000"
  shows "to_string_tree_table x buf = Fault Index_oob"
proof -
  have "10000000000000000 div 100000000 div 10000 div 100 \<le> unat x div 100000000 div 10000 div 100"
    using assms by (intro div_le_mono) (simp add: word_le_nat_alt not_less)
  then have "copy_digits 0 (x div 100000000 div 10000 div 100) buf = Fault Index_oob"
    by (simp add: copy_digits_def length_digit_table unat_div_distrib)
  then show ?thesis by (simp add: to_string_tree_table_def Let_def)
qed

lemma digits_value_pairs:
  assumes "\<forall>k \<in> set ks. unat k < 100"
  shows "digits_value (ds @ concat (map (\<lambda>k. digit_pair (unat k)) ks)) =
    foldl (\<lambda>v k. 100 * v + unat k) (digits_value ds) ks"
  using assms
proof (induction ks arbitrary: ds)
  case (Cons k ks)
  have "digits_value (ds @ digit_pair (unat k) @ concat (map (\<lambda>k. digit_pair (unat k)) ks)) =
      foldl (\<lambda>v k. 100 * v + unat k) (digits_value (ds @ digit_pair (unat k))) ks"
    using Cons.IH [of "ds @ digit_pair (unat k)"] Cons.prems by simp
  then show ?case using Cons.prems by (simp add: digits_value_pair)
qed simp

lemma pairs_sum:
  "foldl (\<lambda>v k. 100 * v + unat k) 0 (digit_pairs x) = unat x"
proof -
  define n where "n = unat x"
  have u: "n = n div 100000000 * 100000000 + n mod 100000000" by simp
  define t b where "t = n div 100000000" and "b = n mod 100000000"
  have t: "t = ((t div 10000 div 100) * 100 + t div 10000 mod 100) * 10000 + (t mod 10000 div 100 * 100 + t mod 10000 mod 100)"
    by (metis div_mod_decomp)
  have b: "b = ((b div 10000 div 100) * 100 + b div 10000 mod 100) * 10000 + (b mod 10000 div 100 * 100 + b mod 10000 mod 100)"
    by (metis div_mod_decomp)
  show ?thesis
    using t b u by (simp add: digit_pairs_def unat_div_distrib unat_mod_distrib flip: n_def t_def b_def) 
qed

text \<open>
  C40. \<open>to_string_tree_table\<close> writes sixteen decimal digits that read back as the number, and no byte
  behind them, so no terminator; a number of more than sixteen digits indexes past the table.
\<close>
theorem to_string_roundtrip:
  assumes "16 \<le> length buf"
  shows "if x < 10000000000000000
    then \<exists>ds. to_string_tree_table x buf = Ok (ds @ drop 16 buf) \<and> length ds = 16 \<and> list_all is_digit ds \<and>
      digits_value ds = unat x
    else to_string_tree_table x buf = Fault Index_oob"
proof (cases "x < 10000000000000000")
  case True
  let ?ds = "concat (map (\<lambda>k. digit_pair (unat k)) (digit_pairs x))"
  have b: "\<forall>k \<in> set (digit_pairs x). unat k < 100" using digit_pairs_bound [OF True] by blast
  have "digits_value ?ds = unat x"
    using digits_value_pairs [OF b, of "[]"] pairs_sum [of x] by (simp add: digits_value_def)
  moreover have "length ?ds = 16" by (simp add: digit_pairs_def)
  moreover have "list_all is_digit ?ds"
    using b is_digit_pair by (auto simp: list_all_iff)
  ultimately show ?thesis using True to_string_Ok [OF True assms] by auto
next
  case False
  then show ?thesis by (simp add: to_string_oob)
qed

theorem to_string_roundtrip_witness:
  "\<exists>ds. to_string_tree_table 4294967295 (replicate 17 0) = Ok (ds @ [0]) \<and> length ds = 16 \<and> digits_value ds = 4294967295"
  using to_string_roundtrip [of "replicate 17 0" 4294967295] by auto

end
