(* ===== verification/GPU_Aldebaran.thy ===== *)
theory GPU_Aldebaran
  imports AX_Memory
begin

text \<open>
  The compute unit of the GPU (\<open>src/GPU/Aldebaran\<close>): its state (\<open>vm.h\<close>), the decoder of two-word
  bundles (\<open>processor_decode.c\<close>), delayed branches, transfers between local and external memory and
  the step (\<open>processor_execution.c\<close>, \<open>vm.c\<close>). The call of \<open>executeInstruction\<close> is commented out in the step;
  that function is in \<open>GPU_Execute\<close>. External memories are
  blocks; a decoded operation keeps the fields that its decoding does not set. The lemmas show where the
  program counter goes: straight on, because no branch is ever armed, and where an armed branch would go.
\<close>

section \<open>State\<close>

definition CU_Z_MASK :: u16 where "CU_Z_MASK = 0x02"
definition CU_S_MASK :: u16 where "CU_S_MASK = 0x04"
definition CU_U_MASK :: u16 where "CU_U_MASK = 0x08"

definition AR_SUCCESS :: u32 where "AR_SUCCESS = 1"
definition AR_ERROR_ILLEGAL_INSTRUCTION :: u32 where "AR_ERROR_ILLEGAL_INSTRUCTION = - 1"
definition AR_PROCESSOR_ISRAM_SIZE :: nat where "AR_PROCESSOR_ISRAM_SIZE = 0x20000"
definition AR_PROCESSOR_DSRAM_SIZE :: nat where "AR_PROCESSOR_DSRAM_SIZE = 0x20000"

definition MEMORY_MAP_1TSRAM_BEGIN :: u64 where "MEMORY_MAP_1TSRAM_BEGIN = 0x100000000"
definition MEMORY_MAP_SPM2_BEGIN :: u64 where "MEMORY_MAP_SPM2_BEGIN = 0x200000000"
definition MEMORY_MAP_VRAM_BEGIN :: u64 where "MEMORY_MAP_VRAM_BEGIN = 0x400000000"
definition MEMORY_MAP_RAM_BEGIN :: u64 where "MEMORY_MAP_RAM_BEGIN = 0x800000000"

text \<open>\<open>ArExecute_T\<close>: \<open>fimm\<close> holds the bits of its \<open>float\<close>, \<open>dimm\<close> those of its \<open>double\<close>.\<close>

record ArExecute =
  ex_unit1 :: u32
  ex_unit2 :: u32
  ex_size :: u32
  ex_id :: u32
  ex_imm :: u32
  ex_immf :: u32
  ex_rA :: u32
  ex_rB :: u32
  ex_rC :: u32
  ex_fimm :: u32
  ex_dimm :: u64

text \<open>The pointers \<open>ireg\<close> and \<open>dreg\<close>, which only \<open>executeInstruction\<close> follows, are not fields, nor are
  \<open>rom\<close> and \<open>io\<close>, which nothing reads.\<close>

record ComputeUnit =
  cu_operations :: "ArExecute list"
  cu_instruction :: u64
  cu_cycle :: u64
  cu_ireg2 :: "u32 list"
  cu_vreg :: "u32 list"
  cu_opcodes :: "u32 list"
  cu_delay :: u16
  cu_delayop :: u16
  cu_imm :: u16
  cu_pc :: u16
  cu_br :: u16
  cu_lr :: u16
  cu_flags :: u16
  cu_dsram :: block
  cu_isram :: block
  cu_ram :: block
  cu_tsram :: block
  cu_spm2 :: block

section \<open>Operations\<close>

definition AK1_EXE_ALU :: u32 where "AK1_EXE_ALU = 0"
definition AK1_EXE_LSU :: u32 where "AK1_EXE_LSU = 1"
definition AK1_EXE_BRU :: u32 where "AK1_EXE_BRU = 2"
definition AK1_EXE_CMP :: u32 where "AK1_EXE_CMP = 3"
definition AK1_EXE_VFPU :: u32 where "AK1_EXE_VFPU = 4"
definition AK1_EXE_DMA :: u32 where "AK1_EXE_DMA = 5"
definition AK1_EXE_OTHER :: u32 where "AK1_EXE_OTHER = 6"
definition AK1_EXE_NOP :: u32 where "AK1_EXE_NOP = 7"

definition AK1_OPCODE_MOVE :: u32 where "AK1_OPCODE_MOVE = 0x10"
definition AK1_OPCODE_MOVESP :: u32 where "AK1_OPCODE_MOVESP = 0x11"
definition AK1_OPCODE_CMP :: u32 where "AK1_OPCODE_CMP = 0"
definition AK1_OPCODE_FMOVE :: u32 where "AK1_OPCODE_FMOVE = 0"
definition AK1_OPCODE_VFMOVE :: u32 where "AK1_OPCODE_VFMOVE = 1"
definition AK1_OPCODE_ENDP :: u32 where "AK1_OPCODE_ENDP = 1"
definition AK1_OPCODE_RET :: u32 where "AK1_OPCODE_RET = 0x10"

text \<open>The branches, with the numbers of the enumeration.\<close>

datatype gpu_bru =
    AK1_BNE | AK1_BEQ | AK1_BL | AK1_BLE | AK1_BG | AK1_BGE | AK1_BLS | AK1_BLES
  | AK1_BGS | AK1_BGES | AK1_BRA | AK1_JMP | AK1_JMPBR | AK1_CALL | AK1_CALLBR | AK1_RET

definition gpu_bru_ops :: "gpu_bru list" where
  "gpu_bru_ops =
    [AK1_BNE, AK1_BEQ, AK1_BL, AK1_BLE, AK1_BG, AK1_BGE, AK1_BLS, AK1_BLES,
     AK1_BGS, AK1_BGES, AK1_BRA, AK1_JMP, AK1_JMPBR, AK1_CALL, AK1_CALLBR]"

definition gpu_bru_of :: "u16 \<Rightarrow> gpu_bru option" where
  "gpu_bru_of d =
     (if unat d < length gpu_bru_ops then Some (gpu_bru_ops ! unat d)
      else if d = 0x10 then Some AK1_RET else None)"

section \<open>Helpers of the decoder\<close>

definition cu_extendSign :: "u32 \<Rightarrow> nat \<Rightarrow> u64" where
  "cu_extendSign value bits =
     (if push_bit (bits - 1) 1 < value then ucast (push_bit bits 0xFFFFFFFF OR value) else ucast value)"

definition readbits :: "u32 \<Rightarrow> nat \<Rightarrow> nat \<Rightarrow> u32" where
  "readbits buffer index n = drop_bit index buffer AND (push_bit n 1 - 1)"

definition convertImmFloat :: "u32 \<Rightarrow> u32" where
  "convertImmFloat im =
     (let ex = drop_bit 3 (im AND 0x3C00);
          ex1 = (if im AND 0x4000 \<noteq> 0 then ex OR 0x4000
                 else if ex \<noteq> 0 then ex OR 0x3800 else ex);
          ex2 = push_bit 16 ex1;
          xval = push_bit 16 (im AND 0x8000);
          xval1 = xval + push_bit 13 (im AND 0x03FF)
      in xval1 + ex2)"

definition upd_op :: "nat \<Rightarrow> (ArExecute \<Rightarrow> ArExecute) \<Rightarrow> ComputeUnit \<Rightarrow> ComputeUnit" where
  "upd_op i f p = p\<lparr>cu_operations := (cu_operations p)[i := f (cu_operations p ! i)]\<rparr>"

section \<open>The decoder\<close>

text \<open>\<open>output\<close> is \<open>operations[id]\<close>; the number returned is the error count.\<close>

definition decodeBRU :: "nat \<Rightarrow> u32 \<Rightarrow> u32 \<Rightarrow> ComputeUnit \<Rightarrow> nat \<times> ComputeUnit" where
  "decodeBRU i unit im p =
     (0, (upd_op i (\<lambda>x. x\<lparr>ex_unit1 := AK1_EXE_BRU, ex_unit2 := unit\<rparr>) p)
           \<lparr>cu_delayop := ucast unit, cu_delay := 0, cu_imm := ucast (push_bit 1 (im AND 0xFFFF))\<rparr>)"

definition decodeCMP :: "nat \<Rightarrow> u32 \<Rightarrow> u64 \<Rightarrow> ComputeUnit \<Rightarrow> nat \<times> ComputeUnit" where
  "decodeCMP i unit im p =
     (if unit = 0 then (0, upd_op i (\<lambda>x. x\<lparr>ex_unit1 := AK1_EXE_CMP, ex_unit2 := AK1_OPCODE_CMP\<rparr>) p)
      else if unit = 1 then (0, upd_op i (\<lambda>x. x\<lparr>ex_unit1 := AK1_EXE_OTHER, ex_unit2 := AK1_OPCODE_ENDP\<rparr>) p)
      else if unit = 2 then
        (0, (upd_op i (\<lambda>x. x\<lparr>ex_unit1 := AK1_EXE_BRU, ex_unit2 := AK1_OPCODE_RET\<rparr>) p)
              \<lparr>cu_delayop := ucast AK1_OPCODE_RET, cu_delay := 0\<rparr>)
      else if unit = 3 then (0, p)
      else (1, p))"

definition decodeALU :: "nat \<Rightarrow> u32 \<Rightarrow> u32 \<Rightarrow> u64 \<Rightarrow> ComputeUnit \<Rightarrow> nat \<times> ComputeUnit" where
  "decodeALU i unit1 unit2 im p0 =
     (let p = upd_op i (\<lambda>x. x\<lparr>ex_unit1 := AK1_EXE_ALU\<rparr>) p0
      in (0, upd_op i (\<lambda>x.
            if unit1 = 0 then x\<lparr>ex_unit2 := unit2\<rparr>
            else if unit1 = 1
            then x\<lparr>ex_unit2 := unit2, ex_imm := ucast (cu_extendSign (ucast im) 10), ex_immf := 1\<rparr>
            else if unit1 = 2 then
              (if unit2 = 0 then x\<lparr>ex_unit1 := AK1_EXE_NOP\<rparr>
               else if unit2 AND 0xF \<noteq> 0 then x\<lparr>ex_unit2 := AK1_OPCODE_MOVESP\<rparr>
               else x\<lparr>ex_unit2 := AK1_OPCODE_MOVE\<rparr>)
            else x\<lparr>ex_unit2 := AK1_OPCODE_MOVE, ex_imm := ucast (cu_extendSign (ucast im) 20), ex_immf := 1\<rparr>) p))"

definition decodeLSU :: "nat \<Rightarrow> u32 \<Rightarrow> u32 \<Rightarrow> u64 \<Rightarrow> ComputeUnit \<Rightarrow> nat \<times> ComputeUnit" where
  "decodeLSU i unit1 unit2 im p0 =
     (let p = upd_op i (\<lambda>x. x\<lparr>ex_unit1 := AK1_EXE_LSU\<rparr>) p0
      in if unit1 = 0 then
           (0, upd_op i (\<lambda>x. let y = x\<lparr>ex_unit2 := unit2 AND 0x7\<rparr>
                            in if unit2 AND 0x8 \<noteq> 0
                               then y\<lparr>ex_imm := ucast (im AND 0x3FF), ex_immf := 1\<rparr> else y) p)
         else if unit1 = 1 then
           (let q = upd_op i (\<lambda>x. x\<lparr>ex_unit2 := unit2\<rparr>) p
            in if unit2 AND 0x8 \<noteq> 0 then
                 if unit2 AND 0x4 \<noteq> 0 then (1, q)
                 else if unit2 AND 0x2 = 0
                 then (0, upd_op i (\<lambda>x. x\<lparr>ex_imm := ucast (im AND 0xFFFF), ex_immf := 1\<rparr>) q)
                 else (0, q)
               else (0, upd_op i (\<lambda>x. x\<lparr>ex_imm := ucast (im AND 0xFFFF),
                                       ex_rC := (if unit2 AND 0x2 \<noteq> 0 then 1 else 0)\<rparr>) q))
         else (1, p))"

definition decodeDMA :: "nat \<Rightarrow> u32 \<Rightarrow> u64 \<Rightarrow> ComputeUnit \<Rightarrow> nat \<times> ComputeUnit" where
  "decodeDMA i unit2 im p =
     (0, upd_op i (\<lambda>x. let y = x\<lparr>ex_unit1 := AK1_EXE_DMA, ex_unit2 := unit2 AND 0x7\<rparr>
                      in if unit2 AND 0x8 \<noteq> 0
                         then y\<lparr>ex_imm := ucast (im AND 0x3FF), ex_immf := 1\<rparr> else y) p)"

definition decodeVFPU :: "nat \<Rightarrow> u32 \<Rightarrow> u32 \<Rightarrow> u64 \<Rightarrow> ComputeUnit \<Rightarrow> nat \<times> ComputeUnit" where
  "decodeVFPU i unit1 unit2 im p =
     (0, upd_op i (\<lambda>x.
        let u = unit2 + push_bit 4 unit1;
            y = x\<lparr>ex_unit1 := AK1_EXE_VFPU, ex_unit2 := u\<rparr>
        in if u = 0x0F then y\<lparr>ex_imm := ucast (im AND 0x3FF)\<rparr>
           else if u = 0x12
           then y\<lparr>ex_fimm := convertImmFloat (ucast im), ex_unit2 := AK1_OPCODE_FMOVE + push_bit 4 unit1, ex_immf := 1\<rparr>
           else if u = 0x13
           then y\<lparr>ex_fimm := convertImmFloat (ucast im), ex_unit2 := AK1_OPCODE_VFMOVE + push_bit 4 unit1, ex_immf := 1\<rparr>
           else y) p)"

definition gpu_decode :: "nat \<Rightarrow> ComputeUnit \<Rightarrow> nat \<times> ComputeUnit" where
  "gpu_decode i p0 =
     (let opcode = cu_opcodes p0 ! i;
          compute_unit = readbits opcode 0 2;
          im = readbits opcode 10 16 + push_bit 16 (readbits opcode 4 4);
          unit1 = readbits opcode 2 2;
          unit2 = readbits opcode 4 4;
          p1 = upd_op i (\<lambda>x. x\<lparr>ex_size := readbits opcode 8 2, ex_id := readbits opcode 10 2,
                 ex_rA := readbits opcode 26 6, ex_rB := readbits opcode 20 6,
                 ex_rC := readbits opcode 14 6, ex_immf := 0\<rparr>) p0;
          p = (if opcode AND 0xFF \<noteq> 0x0A then p1\<lparr>cu_instruction := cu_instruction p1 + 1\<rparr> else p1)
      in if compute_unit = 0 then
           if i = 0 then
             if unit1 = 0 then decodeCMP i unit2 (ucast im) p
             else if unit1 = 1 then decodeBRU i unit2 im p
             else if unit1 = 2 then (1, p)
             else (0, upd_op i (\<lambda>x. x\<lparr>ex_unit1 := AK1_EXE_CMP, ex_unit2 := AK1_OPCODE_CMP,
                                     ex_imm := ucast (cu_extendSign im 20), ex_immf := 1\<rparr>) p)
           else decodeDMA i unit2 (ucast im) p
         else if compute_unit = 1 then decodeLSU i unit1 unit2 (ucast im) p
         else if compute_unit = 2 then decodeALU i unit1 unit2 (ucast im) p
         else decodeVFPU i unit1 unit2 (ucast im) p)"

text \<open>\<open>Aldebaran_DecodeInstruction\<close>: the two words at \<open>pc\<close>, in \<open>isram\<close>.\<close>

definition Aldebaran_DecodeInstruction :: "ComputeUnit \<Rightarrow> (u32 \<times> ComputeUnit) res" where
  "Aldebaran_DecodeInstruction p0 =
     res_bind (rd_block (cu_isram p0) (4 * unat (cu_pc p0)) 8) (\<lambda>bs.
       let p1 = p0\<lparr>cu_opcodes := words_of_bytes bs\<rparr>;
           (e0, p2) = gpu_decode 0 p1;
           (e1, p3) = gpu_decode 1 p2;
           p4 = p3\<lparr>cu_pc := cu_pc p3 + 2\<rparr>
       in Ok (if e0 + e1 \<noteq> 0 then 0 else AR_SUCCESS, p4))"

section \<open>Delayed branches\<close>

fun gpu_take :: "gpu_bru \<Rightarrow> u16 \<Rightarrow> ComputeUnit \<Rightarrow> ComputeUnit" where
  "gpu_take AK1_BNE im p = (if cu_flags p AND CU_Z_MASK \<noteq> 0 then p\<lparr>cu_pc := cu_pc p + im\<rparr> else p)"
| "gpu_take AK1_BEQ im p = (if cu_flags p AND CU_Z_MASK = 0 then p\<lparr>cu_pc := cu_pc p + im\<rparr> else p)"
| "gpu_take AK1_BL im p = (if cu_flags p AND CU_U_MASK \<noteq> 0 then p\<lparr>cu_pc := cu_pc p + im\<rparr> else p)"
| "gpu_take AK1_BLE im p =
     (if cu_flags p AND CU_U_MASK \<noteq> 0 \<or> cu_flags p AND CU_Z_MASK = 0 then p\<lparr>cu_pc := cu_pc p + im\<rparr> else p)"
| "gpu_take AK1_BG im p = (if cu_flags p AND CU_U_MASK = 0 then p\<lparr>cu_pc := cu_pc p + im\<rparr> else p)"
| "gpu_take AK1_BGE im p =
     (if cu_flags p AND CU_U_MASK = 0 \<or> cu_flags p AND CU_Z_MASK = 0 then p\<lparr>cu_pc := cu_pc p + im\<rparr> else p)"
| "gpu_take AK1_BLS im p = (if cu_flags p AND CU_S_MASK \<noteq> 0 then p\<lparr>cu_pc := cu_pc p + im\<rparr> else p)"
| "gpu_take AK1_BLES im p =
     (if cu_flags p AND CU_S_MASK \<noteq> 0 \<or> cu_flags p AND CU_Z_MASK = 0 then p\<lparr>cu_pc := cu_pc p + im\<rparr> else p)"
| "gpu_take AK1_BGS im p = (if cu_flags p AND CU_S_MASK = 0 then p\<lparr>cu_pc := cu_pc p + im\<rparr> else p)"
| "gpu_take AK1_BGES im p =
     (if cu_flags p AND CU_S_MASK = 0 \<or> cu_flags p AND CU_Z_MASK = 0 then p\<lparr>cu_pc := cu_pc p + im\<rparr> else p)"
| "gpu_take AK1_BRA im p = p\<lparr>cu_pc := cu_pc p + im\<rparr>"
| "gpu_take AK1_JMP im p = p\<lparr>cu_pc := im\<rparr>"
| "gpu_take AK1_CALL im p = p\<lparr>cu_lr := cu_pc p, cu_pc := im\<rparr>"
| "gpu_take AK1_JMPBR im p = p\<lparr>cu_pc := cu_br p + im\<rparr>"
| "gpu_take AK1_CALLBR im p = p\<lparr>cu_lr := cu_pc p, cu_pc := cu_br p + im\<rparr>"
| "gpu_take AK1_RET im p = p\<lparr>cu_pc := cu_lr p\<rparr>"

definition gpu_executeDelayed :: "u16 \<Rightarrow> ComputeUnit \<Rightarrow> u32 \<times> ComputeUnit" where
  "gpu_executeDelayed im p =
     (case gpu_bru_of (cu_delayop p) of
        None \<Rightarrow> (AR_ERROR_ILLEGAL_INSTRUCTION, p)
      | Some b \<Rightarrow> (AR_SUCCESS, (gpu_take b im p)\<lparr>cu_delay := 0\<rparr>))"

section \<open>Transfers\<close>

text \<open>
  \<open>executeLS\<close> between external memory and an object, given by its bytes. With \<open>store\<close> the object takes
  the bytes of memory. An offset in video memory moves nothing; one that is none of the areas leaves
  \<open>address\<close> unset.
\<close>

definition executeLS :: "u8 list \<Rightarrow> u64 \<Rightarrow> bool \<Rightarrow> ComputeUnit \<Rightarrow> (u8 list \<times> ComputeUnit) res" where
  "executeLS obj offset store p =
     (if offset AND MEMORY_MAP_RAM_BEGIN \<noteq> 0 then
        (let off = unat (offset AND 0x7FFFFFFFF)
         in if store then res_bind (rd_block (cu_ram p) off (length obj)) (\<lambda>bs. Ok (bs, p))
            else res_bind (wr_block (cu_ram p) off obj) (\<lambda>b. Ok (obj, p\<lparr>cu_ram := b\<rparr>)))
      else if offset AND MEMORY_MAP_VRAM_BEGIN \<noteq> 0 then Ok (obj, p)
      else if offset = MEMORY_MAP_SPM2_BEGIN then
        (let off = unat (offset AND 0xFFFFFFF)
         in if store then res_bind (rd_block (cu_spm2 p) off (length obj)) (\<lambda>bs. Ok (bs, p))
            else res_bind (wr_block (cu_spm2 p) off obj) (\<lambda>b. Ok (obj, p\<lparr>cu_spm2 := b\<rparr>)))
      else if offset = MEMORY_MAP_1TSRAM_BEGIN then
        (let off = unat (offset AND 0x7FFFFFFF)
         in if store then res_bind (rd_block (cu_tsram p) off (length obj)) (\<lambda>bs. Ok (bs, p))
            else res_bind (wr_block (cu_tsram p) off obj) (\<lambda>b. Ok (obj, p\<lparr>cu_tsram := b\<rparr>)))
      else Fault Uninit)"

section \<open>The step\<close>

definition Aldebaran_ExcecuteInstruction :: "ComputeUnit \<Rightarrow> u32 \<times> ComputeUnit" where
  "Aldebaran_ExcecuteInstruction p =
     (let (r, p1) = (if cu_delay p = 1 then gpu_executeDelayed (cu_imm p) p else (AR_SUCCESS, p))
      in if r \<noteq> AR_SUCCESS then (r, p1) else (AR_SUCCESS, p1\<lparr>cu_cycle := cu_cycle p1 + 1\<rparr>))"

text \<open>\<open>Aldebaran_VM_CU_Exe\<close>: what the two calls return is not looked at.\<close>

definition Aldebaran_VM_CU_Exe :: "ComputeUnit \<Rightarrow> (u32 \<times> ComputeUnit) res" where
  "Aldebaran_VM_CU_Exe p =
     res_bind (Aldebaran_DecodeInstruction p) (\<lambda>(r, p1).
       let (r', p2) = Aldebaran_ExcecuteInstruction p1 in Ok (0, p2))"

section \<open>The program counter\<close>

text \<open>
  What the decoder leaves alone: everything but the operations, the counter and the branch state.
  \<open>cu_data\<close> are the registers, the link and branch registers, the flags and all memories.
\<close>

definition cu_data :: "ComputeUnit \<Rightarrow> u32 list \<times> u32 list \<times> u16 \<times> u16 \<times> u16 \<times> block list" where
  "cu_data p = (cu_ireg2 p, cu_vreg p, cu_flags p, cu_lr p, cu_br p,
     [cu_dsram p, cu_isram p, cu_ram p, cu_tsram p, cu_spm2 p])"

definition gpu_frame :: "ComputeUnit \<Rightarrow> ComputeUnit \<Rightarrow> bool" where
  "gpu_frame p q \<longleftrightarrow> cu_pc q = cu_pc p \<and> cu_cycle q = cu_cycle p \<and> cu_data q = cu_data p \<and>
     length (cu_operations q) = length (cu_operations p) \<and> cu_delay q \<in> {0, cu_delay p}"

lemma gpu_frame_refl [simp]: "gpu_frame p p"
  by (simp add: gpu_frame_def)

lemma gpu_frame_trans: "gpu_frame p q \<Longrightarrow> gpu_frame q r \<Longrightarrow> gpu_frame p r"
  by (auto simp: gpu_frame_def)

lemma gpu_frame_upd [simp]:
  "gpu_frame p (upd_op i f q) = gpu_frame p q" "gpu_frame p (q\<lparr>cu_delayop := d\<rparr>) = gpu_frame p q"
  "gpu_frame p (q\<lparr>cu_imm := m\<rparr>) = gpu_frame p q" "gpu_frame p (q\<lparr>cu_instruction := n\<rparr>) = gpu_frame p q"
  "gpu_frame p (q\<lparr>cu_opcodes := ws\<rparr>) = gpu_frame p q" "gpu_frame p q \<Longrightarrow> gpu_frame p (q\<lparr>cu_delay := 0\<rparr>)"
  by (simp_all add: gpu_frame_def cu_data_def upd_op_def)

lemmas gpu_decoders = decodeBRU_def decodeCMP_def decodeALU_def decodeLSU_def decodeDMA_def decodeVFPU_def

lemma gpu_decode_frame: "gpu_frame p (snd (gpu_decode i p))"
  by (simp add: gpu_decode_def gpu_decoders Let_def)

lemma DecodeInstruction_frame:
  assumes "Aldebaran_DecodeInstruction p = Ok (r, q)"
  shows "gpu_frame p (q\<lparr>cu_pc := cu_pc p\<rparr>)" and "cu_pc q = cu_pc p + 2"
proof -
  obtain bs where q: "q = (let p3 = snd (gpu_decode 1 (snd (gpu_decode 0 (p\<lparr>cu_opcodes := words_of_bytes bs\<rparr>))))
      in p3\<lparr>cu_pc := cu_pc p3 + 2\<rparr>)"
    using assms by (auto simp: Aldebaran_DecodeInstruction_def res_bind_eq_Ok Let_def case_prod_unfold)
  have "gpu_frame p (p\<lparr>cu_opcodes := words_of_bytes bs\<rparr>)" by simp
  from gpu_frame_trans [OF gpu_frame_trans [OF this gpu_decode_frame] gpu_decode_frame]
  have "gpu_frame p (snd (gpu_decode 1 (snd (gpu_decode 0 (p\<lparr>cu_opcodes := words_of_bytes bs\<rparr>)))))" .
  then show "gpu_frame p (q\<lparr>cu_pc := cu_pc p\<rparr>)" "cu_pc q = cu_pc p + 2" by (simp_all add: q Let_def gpu_frame_def cu_data_def)
qed

lemma VM_CU_Exe_step:
  assumes "Aldebaran_VM_CU_Exe p = Ok (r, q)" and "cu_delay p \<noteq> 1"
  shows "cu_pc q = cu_pc p + 2" "cu_delay q \<noteq> 1" "cu_cycle q = cu_cycle p + 1" "cu_data q = cu_data p"
proof -
  obtain r1 p1 where d: "Aldebaran_DecodeInstruction p = Ok (r1, p1)" "q = snd (Aldebaran_ExcecuteInstruction p1)"
    using assms(1) by (auto simp: Aldebaran_VM_CU_Exe_def res_bind_eq_Ok Let_def case_prod_unfold)
  note f = DecodeInstruction_frame [OF d(1)]
  have "cu_delay p1 \<noteq> 1" using f(1) assms(2) by (auto simp: gpu_frame_def)
  then have "q = p1\<lparr>cu_cycle := cu_cycle p1 + 1\<rparr>" by (simp add: d(2) Aldebaran_ExcecuteInstruction_def)
  then show "cu_pc q = cu_pc p + 2" "cu_delay q \<noteq> 1" "cu_cycle q = cu_cycle p + 1" "cu_data q = cu_data p"
    using f \<open>cu_delay p1 \<noteq> 1\<close> by (simp_all add: gpu_frame_def cu_data_def)
qed

lemma VM_CU_Exe_fetch:
  "(\<exists>q. Aldebaran_VM_CU_Exe p = Ok (0, q)) \<longleftrightarrow> 4 * unat (cu_pc p) + 8 \<le> bsize (cu_isram p)"
  "\<not> 4 * unat (cu_pc p) + 8 \<le> bsize (cu_isram p) \<Longrightarrow> Aldebaran_VM_CU_Exe p = Fault Mem_oob"
  by (auto simp: Aldebaran_VM_CU_Exe_def Aldebaran_DecodeInstruction_def rd_block_def guard_res_def Let_def
      split: prod.splits)

text \<open>\<open>n\<close> steps.\<close>

fun gpu_steps :: "nat \<Rightarrow> ComputeUnit \<Rightarrow> ComputeUnit res" where
  "gpu_steps 0 p = Ok p"
| "gpu_steps (Suc n) p = res_bind (Aldebaran_VM_CU_Exe p) (\<lambda>(r, q). gpu_steps n q)"

lemma gpu_steps_straight:
  assumes "cu_delay p \<noteq> 1" and "bsize (cu_isram p) = AR_PROCESSOR_ISRAM_SIZE" and "unat (cu_pc p) + 2 * n \<le> 0x8000"
  shows "\<exists>q. gpu_steps n p = Ok q \<and> cu_delay q \<noteq> 1 \<and> unat (cu_pc q) = unat (cu_pc p) + 2 * n \<and>
    cu_cycle q = cu_cycle p + of_nat n \<and> cu_data q = cu_data p"
  using assms
proof (induction n arbitrary: p)
  case 0
  then show ?case by simp
next
  case (Suc n)
  have "4 * unat (cu_pc p) + 8 \<le> bsize (cu_isram p)" using Suc.prems by (simp add: AR_PROCESSOR_ISRAM_SIZE_def)
  then obtain q where q: "Aldebaran_VM_CU_Exe p = Ok (0, q)" using VM_CU_Exe_fetch(1) by blast
  note s = VM_CU_Exe_step [OF q Suc.prems(1)]
  have isram: "cu_isram q = cu_isram p" using s(4) by (simp add: cu_data_def)
  have pc: "unat (cu_pc q) = unat (cu_pc p) + 2" using Suc.prems(3)
    unfolding s(1) by (subst unat_add_lem [THEN iffD1]) simp_all
  have "\<exists>r. gpu_steps n q = Ok r \<and> cu_delay r \<noteq> 1 \<and> unat (cu_pc r) = unat (cu_pc q) + 2 * n \<and>
    cu_cycle r = cu_cycle q + of_nat n \<and> cu_data r = cu_data q"
    by (rule Suc.IH) (use s(2) pc isram Suc.prems in simp_all)
  then show ?case using s pc by (auto simp: q)
qed

text \<open>
  C35. The compute unit never branches, as long as \<open>delay\<close> is not 1 to begin with: a branch only takes
  effect when it is, the decoder sets it to 0 for every branch word, and the one assignment of 1 is in a
  function that the step does not call. (\<open>Aldebaran_VM_CU_Init\<close> is empty, so that the first value is that of
  the allocation.) From an even address on, whatever the program, it steps straight through the 128 KiB of
  \<open>isram\<close>: the integer and vector registers, the flags, the link and branch registers and all memories
  stay as they are; then it reads past the end of \<open>isram\<close>.
\<close>
theorem gpu_runs_off:
  assumes "cu_delay p \<noteq> 1" and "bsize (cu_isram p) = AR_PROCESSOR_ISRAM_SIZE"
    and "even (unat (cu_pc p))" and "unat (cu_pc p) \<le> 0x8000"
  shows "(\<forall>n. unat (cu_pc p) + 2 * n \<le> 0x8000 \<longrightarrow>
      (\<exists>q. gpu_steps n p = Ok q \<and> unat (cu_pc q) = unat (cu_pc p) + 2 * n \<and> cu_cycle q = cu_cycle p + of_nat n \<and>
        cu_ireg2 q = cu_ireg2 p \<and> cu_vreg q = cu_vreg p \<and> cu_flags q = cu_flags p \<and> cu_lr q = cu_lr p \<and>
        cu_br q = cu_br p \<and> cu_dsram q = cu_dsram p \<and> cu_isram q = cu_isram p \<and> cu_ram q = cu_ram p \<and>
        cu_tsram q = cu_tsram p \<and> cu_spm2 q = cu_spm2 p)) \<and>
    (\<exists>q. gpu_steps ((0x8000 - unat (cu_pc p)) div 2) p = Ok q \<and> Aldebaran_VM_CU_Exe q = Fault Mem_oob)"
proof (intro conjI allI impI)
  fix n assume "unat (cu_pc p) + 2 * n \<le> 0x8000"
  from gpu_steps_straight [OF assms(1,2) this]
  show "\<exists>q. gpu_steps n p = Ok q \<and> unat (cu_pc q) = unat (cu_pc p) + 2 * n \<and> cu_cycle q = cu_cycle p + of_nat n \<and>
        cu_ireg2 q = cu_ireg2 p \<and> cu_vreg q = cu_vreg p \<and> cu_flags q = cu_flags p \<and> cu_lr q = cu_lr p \<and>
        cu_br q = cu_br p \<and> cu_dsram q = cu_dsram p \<and> cu_isram q = cu_isram p \<and> cu_ram q = cu_ram p \<and>
        cu_tsram q = cu_tsram p \<and> cu_spm2 q = cu_spm2 p" by (auto simp: cu_data_def)
next
  let ?n = "(0x8000 - unat (cu_pc p)) div 2"
  have n: "unat (cu_pc p) + 2 * ?n = 0x8000" using assms(3,4) by (simp add: even_diff_nat)
  then obtain q where q: "gpu_steps ?n p = Ok q" "cu_data q = cu_data p" "unat (cu_pc q) = 0x8000"
    using gpu_steps_straight [OF assms(1,2), of ?n] by auto
  then have "Aldebaran_VM_CU_Exe q = Fault Mem_oob"
    using VM_CU_Exe_fetch(2) [of q] assms(2) by (simp add: AR_PROCESSOR_ISRAM_SIZE_def cu_data_def)
  then show "\<exists>q. gpu_steps ?n p = Ok q \<and> Aldebaran_VM_CU_Exe q = Fault Mem_oob" using q(1) by blast
qed

definition demo_cu :: ComputeUnit where
  "demo_cu =
     (let b = \<lparr>bsize = AR_PROCESSOR_ISRAM_SIZE, bdata = (\<lambda>i. 0)\<rparr>;
          x = \<lparr>ex_unit1 = 0, ex_unit2 = 0, ex_size = 0, ex_id = 0, ex_imm = 0, ex_immf = 0, ex_rA = 0, ex_rB = 0,
                ex_rC = 0, ex_fimm = 0, ex_dimm = 0\<rparr>
      in \<lparr>cu_operations = [x, x], cu_instruction = 0, cu_cycle = 0, cu_ireg2 = replicate 64 0,
          cu_vreg = replicate 4096 0, cu_opcodes = [0, 0], cu_delay = 0, cu_delayop = 0, cu_imm = 0, cu_pc = 0x7FFE,
          cu_br = 0, cu_lr = 0, cu_flags = 0, cu_dsram = b, cu_isram = b, cu_ram = b, cu_tsram = b, cu_spm2 = b\<rparr>)"

theorem gpu_runs_off_witness:
  "\<exists>q. gpu_steps 1 demo_cu = Ok q \<and> Aldebaran_VM_CU_Exe q = Fault Mem_oob"
proof -
  have "cu_delay demo_cu = 0" "bsize (cu_isram demo_cu) = AR_PROCESSOR_ISRAM_SIZE" "cu_pc demo_cu = 0x7FFE"
    by (simp_all add: demo_cu_def Let_def)
  then show ?thesis using gpu_runs_off [of demo_cu, THEN conjunct2] by simp
qed

section \<open>Conditions of branches\<close>

text \<open>
  Where a delayed branch goes when the flags record the comparison of \<open>x\<close> with \<open>y\<close> as the comment on
  \<open>flags\<close> says, Z for not equal, S and U for less. All conditions are right but \<open>BG\<close> and \<open>BGS\<close>, which are
  taken on equality, and the delayed branch is disarmed in every case.
\<close>
theorem gpu_branch_conditions:
  assumes "cu_flags p AND CU_Z_MASK \<noteq> 0 \<longleftrightarrow> x \<noteq> (y :: u32)"
    and "cu_flags p AND CU_S_MASK \<noteq> 0 \<longleftrightarrow> sint x < sint y" and "cu_flags p AND CU_U_MASK \<noteq> 0 \<longleftrightarrow> x < y"
    and "gpu_bru_of (cu_delayop p) = Some b" and "unat (cu_delayop p) < 10"
  shows "(case gpu_executeDelayed im p of (r, q) \<Rightarrow>
      r = AR_SUCCESS \<and> cu_delay q = 0 \<and>
      (let taken = (case b of AK1_BNE \<Rightarrow> x \<noteq> y | AK1_BEQ \<Rightarrow> x = y | AK1_BL \<Rightarrow> x < y | AK1_BLE \<Rightarrow> x \<le> y
          | AK1_BG \<Rightarrow> y \<le> x | AK1_BGE \<Rightarrow> y \<le> x | AK1_BLS \<Rightarrow> sint x < sint y | AK1_BLES \<Rightarrow> sint x \<le> sint y
          | AK1_BGS \<Rightarrow> sint y \<le> sint x | AK1_BGES \<Rightarrow> sint y \<le> sint x | _ \<Rightarrow> False)
       in cu_pc q = (if taken then cu_pc p + im else cu_pc p)))"
proof -
  have m: "b \<in> {AK1_BNE, AK1_BEQ, AK1_BL, AK1_BLE, AK1_BG, AK1_BGE, AK1_BLS, AK1_BLES, AK1_BGS, AK1_BGES}"
    using assms(4,5) by (auto simp: gpu_bru_of_def gpu_bru_ops_def nth_Cons' split: if_splits)
  have f: "cu_flags p AND CU_Z_MASK = 0 \<longleftrightarrow> x = y" "cu_flags p AND CU_S_MASK = 0 \<longleftrightarrow> \<not> sint x < sint y"
    "cu_flags p AND CU_U_MASK = 0 \<longleftrightarrow> \<not> x < y"
    using assms(1-3) by blast+
  have s: "sint x = sint y \<longleftrightarrow> x = y" by (auto intro: signed_word_eqI)
  show ?thesis using m s
    by (auto simp: gpu_executeDelayed_def assms(4) f Let_def order_le_less not_less)
qed

theorem gpu_branch_conditions_witness:
  "case gpu_executeDelayed 6 (demo_cu\<lparr>cu_delayop := 4\<rparr>) of (r, q) \<Rightarrow> cu_pc q = 0x8004"
proof -
  let ?p = "demo_cu\<lparr>cu_delayop := 4\<rparr>"
  have "cu_flags ?p = 0" "cu_pc ?p = 0x7FFE" by (simp_all add: demo_cu_def Let_def)
  moreover have "gpu_bru_of (cu_delayop ?p) = Some AK1_BG" by (simp add: gpu_bru_of_def gpu_bru_ops_def)
  ultimately show ?thesis using gpu_branch_conditions [of ?p 0 0 AK1_BG 6] by (auto split: prod.splits)
qed

end
