(* ===== verification/GPU_Execute.thy ===== *)
theory GPU_Execute
  imports GPU_Aldebaran
begin

text \<open>
  The instructions of the GPU compute unit (\<open>executeInstruction\<close> of \<open>processor_execution.c\<close>), which decoded
  operations are written for; its call is commented out. The pointer \<open>ireg\<close> is the list \<open>regs\<close> of the
  registers it points to. Some cases of the function name variables or fields that are declared nowhere
  (\<open>opA\<close>, \<open>fopB\<close> of an operation and the like): they have the value \<open>None\<close>. These are the vector and
  double-precision cases, \<open>INT\<close>, \<open>STDMACL\<close> and \<open>DMAI\<close>. Register numbers are those of six bits that the
  decoder sets, and \<open>regs\<close> has 64 elements. The lemmas show what the immediates of decoded ALU words are,
  which branches are taken after a comparison, and which transfers are defined, and in which direction they go.
\<close>

section \<open>Opcodes\<close>

datatype gpu_alu_op =
    AK1_ADD | AK1_SUB | AK1_XOR | AK1_OR | AK1_AND | AK1_LSL | AK1_ASR | AK1_LSR | AK1_MOVE | AK1_MOVESP

definition gpu_alu_ops :: "gpu_alu_op list" where
  "gpu_alu_ops = [AK1_ADD, AK1_SUB, AK1_XOR, AK1_OR, AK1_AND, AK1_LSL, AK1_ASR, AK1_LSR]"

definition gpu_alu_of :: "u32 \<Rightarrow> gpu_alu_op option" where
  "gpu_alu_of u =
     (if unat u < length gpu_alu_ops then Some (gpu_alu_ops ! unat u)
      else if u = AK1_OPCODE_MOVE then Some AK1_MOVE
      else if u = AK1_OPCODE_MOVESP then Some AK1_MOVESP else None)"

definition AK1_OPCODE_FCMP :: u32 where "AK1_OPCODE_FCMP = 4"

datatype gpu_lsu_op = AK1_LDM | AK1_STM | AK1_LDC | AK1_PREFETCH | AK1_FLUSH

definition gpu_lsu_of :: "u32 \<Rightarrow> gpu_lsu_op option" where
  "gpu_lsu_of u =
     (if unat u < 5 then Some ([AK1_LDM, AK1_STM, AK1_LDC, AK1_PREFETCH, AK1_FLUSH] ! unat u) else None)"

datatype gpu_dma_op = AK1_LDDMA | AK1_STDMA | AK1_LDDMACL | AK1_STDMACL | AK1_DMAI | AK1_WAIT

definition gpu_dma_of :: "u32 \<Rightarrow> gpu_dma_op option" where
  "gpu_dma_of u =
     (if unat u < 5 then Some ([AK1_LDDMA, AK1_STDMA, AK1_LDDMACL, AK1_STDMACL, AK1_DMAI] ! unat u)
      else if u = 7 then Some AK1_WAIT else None)"

definition AK1_OPCODE_INT :: u32 where "AK1_OPCODE_INT = 0"
definition AR_END_OF_CODE :: u32 where "AR_END_OF_CODE = 2"

section \<open>Operands\<close>

text \<open>\<open>opB\<close> and \<open>opC\<close> are of type \<open>int32_t\<close>; their arithmetic is undefined when it leaves that type.\<close>

definition int_result :: "int \<Rightarrow> u32 res" where
  "int_result v = guard_res (- (2 ^ 31) \<le> v \<and> v < 2 ^ 31) Int_overflow (word_of_int v)"

definition gpu_opC :: "ArExecute \<Rightarrow> u32 list \<Rightarrow> u32" where
  "gpu_opC x regs = (if ex_immf x = 0 then regs ! unat (ex_rC x) else ex_imm x)"

section \<open>Cases\<close>

text \<open>
  The value for \<open>ireg[rA]\<close>. A shift of a signed number by a negative count or by 32 and more is
  undefined, a left shift also when its result is not representable; a right shift is arithmetic.
\<close>

fun gpu_alu :: "gpu_alu_op \<Rightarrow> u32 \<Rightarrow> u32 \<Rightarrow> u32 res" where
  "gpu_alu AK1_ADD b c = int_result (sint b + sint c)"
| "gpu_alu AK1_SUB b c = int_result (sint b - sint c)"
| "gpu_alu AK1_XOR b c = Ok (b XOR c)"
| "gpu_alu AK1_OR b c = Ok (b OR c)"
| "gpu_alu AK1_AND b c = Ok (b AND c)"
| "gpu_alu AK1_LSL b c =
     (if 32 \<le> unat c then Fault Shift_range
      else if sint b < 0 then Fault Int_overflow else int_result (sint b * 2 ^ unat c))"
| "gpu_alu AK1_LSR b c = (if 32 \<le> unat c then Fault Shift_range else Ok (signed_drop_bit (unat c) b))"
| "gpu_alu AK1_ASR b c = (if 32 \<le> unat c then Fault Shift_range else Ok (signed_drop_bit (unat c) b))"
| "gpu_alu AK1_MOVE b c = Ok b"
| "gpu_alu AK1_MOVESP b c = Ok 0"

text \<open>The four cells of vector register \<open>rA\<close>, as bytes.\<close>

definition cu_vbytes :: "ComputeUnit \<Rightarrow> nat \<Rightarrow> u8 list" where
  "cu_vbytes p r = bytes_of_words (take 4 (drop (r * 4) (cu_vreg p)))"

definition cu_vpoke :: "nat \<Rightarrow> u8 list \<Rightarrow> ComputeUnit \<Rightarrow> ComputeUnit" where
  "cu_vpoke r bs p = p\<lparr>cu_vreg := splice (r * 4) (words_of_bytes bs) (cu_vreg p)\<rparr>"

fun gpu_lsu :: "gpu_lsu_op \<Rightarrow> nat \<Rightarrow> u64 \<Rightarrow> ComputeUnit \<Rightarrow> ComputeUnit res" where
  "gpu_lsu AK1_LDM r offset p =
     res_bind (rd_block (cu_dsram p) (unat (offset AND 0x1FFFF)) 16) (\<lambda>bs. Ok (cu_vpoke r bs p))"
| "gpu_lsu AK1_STM r offset p =
     res_bind (wr_block (cu_dsram p) (unat (offset AND 0x1FFFF)) (cu_vbytes p r)) (\<lambda>b. Ok (p\<lparr>cu_dsram := b\<rparr>))"
| "gpu_lsu AK1_LDC r offset p =
     res_bind (executeLS (cu_vbytes p r) offset False p) (\<lambda>(bs, q). Ok (cu_vpoke r bs q))"
| "gpu_lsu AK1_PREFETCH r offset p = Ok p"
| "gpu_lsu AK1_FLUSH r offset p = Ok p"

text \<open>
  \<open>CMP\<close> takes \<open>opC\<close> from \<open>ireg[rA]\<close>; both operands are signed in all three comparisons. \<open>FCMP\<close> reads
  through pointers that nothing has set.
\<close>

definition cmp_flags :: "u16 \<Rightarrow> bool \<Rightarrow> bool \<Rightarrow> bool \<Rightarrow> u16" where
  "cmp_flags f z s u =
     (f AND NOT (CU_Z_MASK OR CU_S_MASK OR CU_U_MASK))
       OR push_bit 1 (of_bool z) OR push_bit 2 (of_bool s) OR push_bit 3 (of_bool u)"

definition gpu_cmp :: "u32 \<Rightarrow> u32 \<Rightarrow> u32 \<Rightarrow> ComputeUnit \<Rightarrow> (u32 \<times> ComputeUnit) res" where
  "gpu_cmp unit2 b c p =
     (if unit2 = AK1_OPCODE_CMP then
        Ok (AR_SUCCESS, p\<lparr>cu_flags := cmp_flags (cu_flags p) (b \<noteq> c) (sint b < sint c) (sint b < sint c)\<rparr>)
      else if unit2 = AK1_OPCODE_FCMP then Fault Uninit
      else Ok (AR_ERROR_ILLEGAL_INSTRUCTION, p))"

text \<open>
  A transfer of \<open>n\<close> bytes between external memory and \<open>dsram\<close> from \<open>a\<close> on. An offset in video memory moves
  nothing.
\<close>

definition gpu_dma_move :: "nat \<Rightarrow> u64 \<Rightarrow> nat \<Rightarrow> bool \<Rightarrow> ComputeUnit \<Rightarrow> ComputeUnit res" where
  "gpu_dma_move a offset n store p =
     (if offset AND MEMORY_MAP_RAM_BEGIN = 0 \<and> offset AND MEMORY_MAP_VRAM_BEGIN \<noteq> 0 then Ok p
      else res_bind (rd_block (cu_dsram p) a n) (\<lambda>obj.
           res_bind (executeLS obj offset store p) (\<lambda>(bs, q).
           res_bind (wr_block (cu_dsram q) a bs) (\<lambda>b. Ok (q\<lparr>cu_dsram := b\<rparr>)))))"

text \<open>
  The address in \<open>dsram\<close> is formed first, for every opcode: past the end of the array that is undefined.
  The number of bytes is the product \<open>opC * 64\<close> of \<open>int\<close>, converted to \<open>uint32_t\<close>.
\<close>

definition gpu_dma :: "gpu_dma_op option \<Rightarrow> u32 \<Rightarrow> u32 \<Rightarrow> u32 \<Rightarrow> ComputeUnit \<Rightarrow> (u32 \<times> ComputeUnit) res option" where
  "gpu_dma op a b c p =
     (if bsize (cu_dsram p) < unat a then Some (Fault Mem_oob)
      else case op of
          None \<Rightarrow> Some (Ok (AR_ERROR_ILLEGAL_INSTRUCTION, p))
        | Some AK1_LDDMA \<Rightarrow> Some (res_bind (int_result (sint c * 64)) (\<lambda>n.
            res_bind (gpu_dma_move (unat a) (ucast a) (unat n) True p) (\<lambda>q. Ok (AR_SUCCESS, q))))
        | Some AK1_STDMA \<Rightarrow> Some (res_bind (int_result (sint c * 64)) (\<lambda>n.
            res_bind (gpu_dma_move (unat a) (scast b) (unat n) False p) (\<lambda>q. Ok (AR_SUCCESS, q))))
        | Some AK1_LDDMACL \<Rightarrow> Some (Ok (AR_SUCCESS, p))
        | Some AK1_WAIT \<Rightarrow> Some (Ok (AR_SUCCESS, p))
        | _ \<Rightarrow> None)"

definition gpu_other :: "u32 \<Rightarrow> ComputeUnit \<Rightarrow> (u32 \<times> ComputeUnit) res option" where
  "gpu_other unit2 p =
     (if unit2 = AK1_OPCODE_INT then None
      else if unit2 = AK1_OPCODE_ENDP then Some (Ok (AR_END_OF_CODE, p))
      else Some (Ok (AR_ERROR_ILLEGAL_INSTRUCTION, p)))"

section \<open>The instruction\<close>

definition gpu_executeInstruction ::
    "ArExecute \<Rightarrow> u32 list \<times> ComputeUnit \<Rightarrow> (u32 \<times> u32 list \<times> ComputeUnit) res option" where
  "gpu_executeInstruction x = (\<lambda>(regs, p).
     (let unit1 = ex_unit1 x; unit2 = ex_unit2 x; rA = unat (ex_rA x);
          b = regs ! unat (ex_rB x); c = gpu_opC x regs;
          keep = (\<lambda>r. res_bind r (\<lambda>(e, q). Ok (e, regs, q)))
      in if unit1 = AK1_EXE_ALU then
           Some (case gpu_alu_of unit2 of
               None \<Rightarrow> Ok (AR_ERROR_ILLEGAL_INSTRUCTION, regs, p)
             | Some op \<Rightarrow> res_bind (gpu_alu op b c) (\<lambda>v. Ok (AR_SUCCESS, regs[rA := v], p)))
         else if unit1 = AK1_EXE_LSU then
           Some (res_bind (int_result (sint b + sint c)) (\<lambda>offset.
             case gpu_lsu_of unit2 of
               None \<Rightarrow> Ok (AR_ERROR_ILLEGAL_INSTRUCTION, regs, p)
             | Some op \<Rightarrow> res_bind (gpu_lsu op rA (scast offset) p) (\<lambda>q. Ok (AR_SUCCESS, regs, q))))
         else if unit1 = AK1_EXE_CMP then Some (keep (gpu_cmp unit2 b (regs ! rA) p))
         else if unit1 = AK1_EXE_BRU then Some (Ok (AR_SUCCESS, regs, p\<lparr>cu_delay := 1\<rparr>))
         else if unit1 = AK1_EXE_DMA then map_option keep (gpu_dma (gpu_dma_of unit2) (regs ! rA) b c p)
         else if unit1 = AK1_EXE_OTHER then map_option keep (gpu_other unit2 p)
         else if unit1 = AK1_EXE_VFPU then None
         else if unit1 = AK1_EXE_NOP then Some (Ok (AR_SUCCESS, regs, p))
         else Some (Ok (AR_ERROR_ILLEGAL_INSTRUCTION, regs, p))))"

section \<open>Immediates\<close>

lemma readbits_eq: "readbits w j n = take_bit n (drop_bit j w)"
  by (simp add: readbits_def take_bit_eq_mask mask_eq_exp_minus_1 push_bit_eq_mult)

lemma unat_readbits: "unat (readbits w j n) = (unat w div 2 ^ j) mod 2 ^ n"
proof -
  have "unat (drop_bit j w) = unat w div 2 ^ j"
    using take_bit_nat_eq_self [of "unat w" 32] unsigned_less [of w, where 'a = nat]
    by (simp only: unsigned_drop_bit_eq) (simp add: drop_bit_eq_div)
  then show ?thesis by (simp only: readbits_eq unsigned_take_bit_eq) (simp add: take_bit_eq_mod)
qed

text \<open>The immediate field of 20 bits: bits 10 to 25 of the word, with bits 4 to 7 above them.\<close>

definition imm20 :: "u32 \<Rightarrow> u32" where
  "imm20 opcode = readbits opcode 10 16 + push_bit 16 (readbits opcode 4 4)"

lemma unat_imm20:
  "unat (imm20 w) = unat (readbits w 10 10) + 1024 * unat (readbits w 20 6) + 65536 * unat (readbits w 4 4)"
proof -
  have lo: "unat (readbits w 10 16) = unat (readbits w 10 10) + 1024 * unat (readbits w 20 6)"
  proof -
    have "unat w div 2 ^ 20 = unat w div 2 ^ 10 div 2 ^ 10" by (simp flip: div_mult2_eq)
    then show ?thesis
      unfolding unat_readbits using mod_mult2_eq [of "unat w div 2 ^ 10" "2 ^ 10" "2 ^ 6"] by simp
  qed
  have "unat (readbits w 4 4) < 16" "unat (readbits w 10 16) < 65536" by (simp_all add: unat_readbits)
  moreover have "unat (push_bit 16 (readbits w 4 4)) = 65536 * unat (readbits w 4 4)"
  proof -
    have "push_bit 16 (readbits w 4 4) = (of_nat (65536 * unat (readbits w 4 4)) :: u32)"
      by (simp add: push_bit_eq_mult)
    then show ?thesis using calculation(1) by (simp add: unat_of_nat take_bit_nat_eq_self del: of_nat_mult)
  qed
  ultimately show ?thesis unfolding imm20_def using lo by (simp add: unat_word_ariths)
qed

text \<open>The sign extension of the decoder looks at the whole field and keeps its low 10 bits.\<close>

lemma ucast_wide [simp]: "ucast (ucast w :: u64) = w" for w :: u32
  by (rule bit_word_eqI) (auto simp: bit_simps)

lemma extend_imm20:
  fixes v l :: u32
  assumes "unat v = unat l + 1024 * k" and "unat l < 1024" and "unat v < 2 ^ 20"
  shows "ucast (cu_extendSign v 10) = (if k = 0 \<and> l \<le> 0x200 then l else l - 0x400)"
proof (cases "0x200 < v")
  case False
  then have "unat v \<le> 512" by (simp add: word_le_nat_alt not_less)
  then have "k = 0" "unat l = unat v" using assms(1) by simp_all
  then show ?thesis using False by (simp add: cu_extendSign_def word_less_nat_alt word_le_nat_alt word_unat_eq_iff)
next
  case True
  have "unat (take_bit 10 v) = unat l"
    unfolding unsigned_take_bit_eq using assms(1,2) by (simp add: take_bit_eq_mod)
  then have l: "l = take_bit 10 v" by (simp add: word_unat_eq_iff)
  have m: "(0xFFFFFC00 :: u32) = NOT (mask 10)" by (simp add: mask_eq_exp_minus_1)
  have "0xFFFFFC00 OR v = 0xFFFFFC00 OR l"
    unfolding l m by (rule bit_word_eqI) (auto simp: bit_simps)
  also have "\<dots> = 0xFFFFFC00 + l"
    unfolding l m by (rule disjunctive_add [symmetric]) (auto simp: bit_simps)
  also have "\<dots> = l - 0x400" by simp
  finally have or: "0xFFFFFC00 OR v = l - 0x400" .
  have "(push_bit 10 0xFFFFFFFF :: u32) = 0xFFFFFC00" by code_simp
  then have "cu_extendSign v 10 = ucast (0xFFFFFC00 OR v)" using True by (simp only: cu_extendSign_def) simp
  then have "ucast (cu_extendSign v 10) = l - 0x400" by (simp only: or ucast_wide)
  moreover have "\<not> (k = 0 \<and> l \<le> 0x200)"
    using True assms(1) by (auto simp: word_less_nat_alt word_le_nat_alt)
  ultimately show ?thesis by simp
qed

lemma decode_ALU_immediate:
  assumes "i < length (cu_operations p)" and "readbits (cu_opcodes p ! i) 0 2 = 2" and "readbits (cu_opcodes p ! i) 2 2 = 1"
  shows "(let x = cu_operations (snd (gpu_decode i p)) ! i; w = cu_opcodes p ! i
    in ex_unit1 x = AK1_EXE_ALU \<and> ex_unit2 x = readbits w 4 4 \<and> ex_immf x = 1 \<and>
       ex_rA x = readbits w 26 6 \<and> ex_rB x = readbits w 20 6 \<and>
       ex_imm x = ucast (cu_extendSign (imm20 w) 10))"
  using assms by (simp add: gpu_decode_def decodeALU_def Let_def upd_op_def imm20_def)

text \<open>
  C37. Immediates of ALU instructions with a register and a number. The field is ten bits wide, but the decoder
  extends it together with the register and opcode fields above it: it is the number only in an \<open>ADD\<close>
  that has register 0, up to 512; in all other words 1024 is subtracted, and a shift by it is undefined.
\<close>
theorem gpu_alu_immediate:
  assumes "i < length (cu_operations p)" and "w = cu_opcodes p ! i"
    and "readbits w 0 2 = 2" and "readbits w 2 2 = 1"
  shows "(let x = cu_operations (snd (gpu_decode i p)) ! i; n = readbits w 10 10;
      c = (if readbits w 4 4 = 0 \<and> readbits w 20 6 = 0 \<and> n \<le> 0x200 then n else n - 0x400)
    in gpu_opC x regs = c \<and>
       (readbits w 4 4 = 0 \<longrightarrow> gpu_executeInstruction x (regs, q) =
          Some (res_bind (int_result (sint (regs ! unat (readbits w 20 6)) + sint c))
            (\<lambda>v. Ok (AR_SUCCESS, regs[unat (readbits w 26 6) := v], q)))) \<and>
       (readbits w 4 4 \<in> {5, 6, 7} \<longrightarrow> gpu_executeInstruction x (regs, q) = Some (Fault Shift_range)))"
proof -
  let ?x = "cu_operations (snd (gpu_decode i p)) ! i"
  let ?n = "readbits w 10 10"
  let ?c = "if readbits w 4 4 = 0 \<and> readbits w 20 6 = 0 \<and> ?n \<le> 0x200 then ?n else ?n - 0x400"
  have n: "unat ?n < 1024" "unat (readbits w 20 6) < 64" "unat (readbits w 4 4) < 16"
    by (simp_all add: unat_readbits)
  note x = decode_ALU_immediate [OF assms(1), folded assms(2), OF assms(3,4), unfolded Let_def]
  obtain k where k: "unat (imm20 w) = unat ?n + 1024 * k" "unat (imm20 w) < 2 ^ 20"
    and k0: "k = 0 \<longleftrightarrow> readbits w 4 4 = 0 \<and> readbits w 20 6 = 0"
  proof
    let ?k = "unat (readbits w 20 6) + 64 * unat (readbits w 4 4)"
    show eq: "unat (imm20 w) = unat ?n + 1024 * ?k" using unat_imm20 [of w] by simp
    show "unat (imm20 w) < 2 ^ 20" unfolding eq using n by simp
    show "?k = 0 \<longleftrightarrow> readbits w 4 4 = 0 \<and> readbits w 20 6 = 0" by (auto simp: unat_eq_zero)
  qed
  have c: "gpu_opC ?x regs = ?c"
    using x extend_imm20 [OF k(1) n(1) k(2)] k0 by (simp add: gpu_opC_def)
  have "gpu_executeInstruction ?x (regs, q) = Some (case gpu_alu_of (readbits w 4 4) of
      None \<Rightarrow> Ok (AR_ERROR_ILLEGAL_INSTRUCTION, regs, q)
    | Some op \<Rightarrow> res_bind (gpu_alu op (regs ! unat (readbits w 20 6)) (gpu_opC ?x regs))
        (\<lambda>v. Ok (AR_SUCCESS, regs[unat (readbits w 26 6) := v], q)))"
    using x by (simp add: gpu_executeInstruction_def Let_def)
  note alu = this [unfolded c]
  have big: "32 \<le> unat (?n - 0x400)"
  proof -
    have "?n - 0x400 = ?n + 0xFFFFFC00" by simp
    then show ?thesis using n(1) by (simp only:) (simp add: unat_word_ariths)
  qed
  have op: "gpu_alu_of 0 = Some AK1_ADD" "gpu_alu_of 5 = Some AK1_LSL" "gpu_alu_of 6 = Some AK1_ASR" "gpu_alu_of 7 = Some AK1_LSR"
    by (simp_all add: gpu_alu_of_def gpu_alu_ops_def)
  have "gpu_executeInstruction ?x (regs, q) = Some (Fault Shift_range)" if "readbits w 4 4 \<in> {5, 6, 7}"
  proof -
    from that have "?c = ?n - 0x400" by auto
    then have "32 \<le> unat ?c" using big by (simp only:)
    then show ?thesis using that unfolding alu by (elim insertE emptyE) (simp_all only: op option.case gpu_alu.simps if_True res_bind_simps)
  qed
  moreover have "readbits w 4 4 = 0 \<longrightarrow> gpu_executeInstruction ?x (regs, q) =
      Some (res_bind (int_result (sint (regs ! unat (readbits w 20 6)) + sint ?c))
        (\<lambda>v. Ok (AR_SUCCESS, regs[unat (readbits w 26 6) := v], q)))"
    unfolding alu by (intro impI) (simp only: op option.case gpu_alu.simps)
  ultimately show ?thesis using c unfolding Let_def by blast
qed

section \<open>Comparisons\<close>

lemma and_power: "w AND 2 ^ n = 0 \<longleftrightarrow> \<not> bit w n" for w :: "'a :: len word"
  by (rule and_exp_eq_0_iff_not_bit)

lemma cmp_flags_masks [simp]:
  "cmp_flags f z s u AND CU_Z_MASK = 0 \<longleftrightarrow> \<not> z"
  "cmp_flags f z s u AND CU_S_MASK = 0 \<longleftrightarrow> \<not> s"
  "cmp_flags f z s u AND CU_U_MASK = 0 \<longleftrightarrow> \<not> u"
proof -
  have m: "CU_Z_MASK = 2 ^ 1" "CU_S_MASK = 2 ^ 2" "CU_U_MASK = 2 ^ 3"
    by (simp_all add: CU_Z_MASK_def CU_S_MASK_def CU_U_MASK_def)
  show "cmp_flags f z s u AND CU_Z_MASK = 0 \<longleftrightarrow> \<not> z"
    "cmp_flags f z s u AND CU_S_MASK = 0 \<longleftrightarrow> \<not> s"
    "cmp_flags f z s u AND CU_U_MASK = 0 \<longleftrightarrow> \<not> u"
    unfolding cmp_flags_def m and_power
    by (simp_all only: bit_or_iff bit_and_iff bit_not_iff bit_exp_iff bit_push_bit_iff bit_of_bool_iff) simp_all
qed

text \<open>
  C36. Where a branch goes after \<open>CMP\<close>, from the instruction to the delayed branch. \<open>BL\<close>, \<open>BLE\<close>, \<open>BG\<close> and
  \<open>BGE\<close>, the branches on unsigned order, follow the signed one; \<open>BG\<close> and \<open>BGS\<close> are taken on equality. The
  compare with an immediate compares the two registers all the same.
\<close>
theorem gpu_compare_and_branch:
  assumes "ex_unit1 x = AK1_EXE_CMP" and "ex_unit2 x = AK1_OPCODE_CMP"
    and "gpu_bru_of (cu_delayop p) = Some b" and "unat (cu_delayop p) < 10"
  shows "\<exists>q. gpu_executeInstruction x (regs, p) = Some (Ok (AR_SUCCESS, regs, q)) \<and>
    (case gpu_executeDelayed im q of (r, d) \<Rightarrow> r = AR_SUCCESS \<and> cu_delay d = 0 \<and>
      (let u = sint (regs ! unat (ex_rB x)); v = sint (regs ! unat (ex_rA x));
           taken = (case b of AK1_BNE \<Rightarrow> u \<noteq> v | AK1_BEQ \<Rightarrow> u = v
             | AK1_BL \<Rightarrow> u < v | AK1_BLS \<Rightarrow> u < v | AK1_BLE \<Rightarrow> u \<le> v | AK1_BLES \<Rightarrow> u \<le> v
             | AK1_BG \<Rightarrow> v \<le> u | AK1_BGS \<Rightarrow> v \<le> u | AK1_BGE \<Rightarrow> v \<le> u | AK1_BGES \<Rightarrow> v \<le> u | _ \<Rightarrow> False)
       in cu_pc d = (if taken then cu_pc p + im else cu_pc p)))"
proof -
  let ?u = "regs ! unat (ex_rB x)" and ?v = "regs ! unat (ex_rA x)"
  let ?q = "p\<lparr>cu_flags := cmp_flags (cu_flags p) (?u \<noteq> ?v) (sint ?u < sint ?v) (sint ?u < sint ?v)\<rparr>"
  have q: "gpu_executeInstruction x (regs, p) = Some (Ok (AR_SUCCESS, regs, ?q))"
    using assms(1,2) by (simp add: gpu_executeInstruction_def gpu_cmp_def Let_def
        AK1_EXE_CMP_def AK1_EXE_ALU_def AK1_EXE_LSU_def)
  have b: "b \<in> {AK1_BNE, AK1_BEQ, AK1_BL, AK1_BLE, AK1_BG, AK1_BGE, AK1_BLS, AK1_BLES, AK1_BGS, AK1_BGES}"
    using assms(3,4) by (auto simp: gpu_bru_of_def gpu_bru_ops_def nth_Cons' split: if_splits)
  have s: "sint ?u = sint ?v \<longleftrightarrow> ?u = ?v" by (auto intro: signed_word_eqI)
  show ?thesis
    by (intro exI [of _ ?q] conjI q) (use b s in \<open>auto simp: gpu_executeDelayed_def assms(3) Let_def order_le_less not_less\<close>)
qed

section \<open>External memory\<close>

lemma scast_nonneg: "0 \<le> sint b \<Longrightarrow> (scast b :: u64) = ucast b" for b :: u32
proof (rule bit_word_eqI)
  fix n assume "0 \<le> sint b" and "n < LENGTH(64)"
  then have "\<not> bit b 31" using bit_last_iff [of b] by simp
  then show "bit (scast b :: u64) n \<longleftrightarrow> bit (ucast b :: u64) n"
    using bit_imp_le_length [of b n] by (cases "n < 31"; cases "n = 31") (auto simp: bit_signed_iff bit_unsigned_iff min_def)
qed

lemma ram_vram_ucast:
  "(ucast a :: u64) AND MEMORY_MAP_RAM_BEGIN = 0" "(ucast a :: u64) AND MEMORY_MAP_VRAM_BEGIN = 0" for a :: u32
proof -
  have "\<not> bit (ucast a :: u64) n" if "32 \<le> n" for n using that bit_imp_le_length [of a n] by (auto simp: bit_unsigned_iff)
  then show "(ucast a :: u64) AND MEMORY_MAP_RAM_BEGIN = 0" "(ucast a :: u64) AND MEMORY_MAP_VRAM_BEGIN = 0"
    using and_power [of "ucast a :: u64" 35] and_power [of "ucast a :: u64" 34]
    by (simp_all add: MEMORY_MAP_RAM_BEGIN_def MEMORY_MAP_VRAM_BEGIN_def)
qed

lemma executeLS_ucast: "executeLS obj (ucast a) st p = Fault Uninit" for a :: u32
proof -
  have "unat (ucast a :: u64) < 2 ^ 32" using unsigned_less [of a, where 'a = nat] by (simp add: unsigned_ucast_eq take_bit_nat_eq_self)
  then have "(ucast a :: u64) \<noteq> MEMORY_MAP_SPM2_BEGIN" "(ucast a :: u64) \<noteq> MEMORY_MAP_1TSRAM_BEGIN"
    by (auto simp: MEMORY_MAP_SPM2_BEGIN_def MEMORY_MAP_1TSRAM_BEGIN_def)
  then show ?thesis by (simp add: executeLS_def ram_vram_ucast)
qed

lemma res_fault: "(\<And>x. \<exists>f. k x = Fault f) \<Longrightarrow> \<exists>f. res_bind r k = Fault f"
  by (cases r) auto

lemma dma_move_ucast: "\<exists>f. res_bind r (\<lambda>n. res_bind (gpu_dma_move a (ucast x) (unat n) st p) k) = Fault f"
  for x :: u32 and r :: "u32 res"
proof (rule res_fault)
  fix n :: u32
  show "\<exists>f. res_bind (gpu_dma_move a (ucast x) (unat n) st p) k = Fault f"
    by (cases "rd_block (cu_dsram p) a (unat n)") (simp_all add: gpu_dma_move_def ram_vram_ucast executeLS_ucast)
qed

lemma cu_vpoke_vbytes:
  assumes "r * 4 + 4 \<le> length (cu_vreg p)" and "cu_vreg q = cu_vreg p"
  shows "cu_vpoke r (cu_vbytes p r) q = q"
proof -
  have "splice (r * 4) (take 4 (drop (r * 4) (cu_vreg p))) (cu_vreg p) = cu_vreg p"
    using assms(1) by (intro nth_equalityI) (auto simp: nth_splice)
  then have "cu_vpoke r (cu_vbytes p r) q = q\<lparr>cu_vreg := cu_vreg p\<rparr>"
    by (simp only: cu_vpoke_def cu_vbytes_def words_of_bytes_of_words assms(2))
  also have "\<dots> = q" unfolding assms(2) [symmetric] by simp
  finally show ?thesis .
qed

text \<open>
  C38. No register holds the address of an external memory but the main one. A load by DMA takes the address in
  local memory for the external one, in 32 bits, and is always undefined. The other transfers extend the sign
  of their address, so that they are undefined for a positive number; for a negative one the load
  instruction \<open>LDC\<close> writes its register to main memory and loads nothing.
\<close>
theorem gpu_external_memory:
  "(\<exists>f. gpu_dma (Some AK1_LDDMA) a b c p = Some (Fault f)) \<and>
   (0 \<le> sint b \<longrightarrow> (\<exists>f. gpu_dma (Some AK1_STDMA) a b c p = Some (Fault f)) \<and>
      gpu_lsu AK1_LDC r (scast b) p = Fault Uninit) \<and>
   (sint b < 0 \<and> gpu_lsu AK1_LDC r (scast b) p = Ok q \<and> r * 4 + 4 \<le> length (cu_vreg p) \<longrightarrow>
      (\<exists>m. wr_block (cu_ram p) (unat (scast b AND 0x7FFFFFFFF :: u64)) (cu_vbytes p r) = Ok m \<and> q = p\<lparr>cu_ram := m\<rparr>))"
proof (intro conjI impI)
  show "\<exists>f. gpu_dma (Some AK1_LDDMA) a b c p = Some (Fault f)"
    by (simp add: gpu_dma_def dma_move_ucast)
next
  assume "0 \<le> sint b"
  then show "\<exists>f. gpu_dma (Some AK1_STDMA) a b c p = Some (Fault f)"
    by (simp add: scast_nonneg gpu_dma_def dma_move_ucast)
next
  assume "0 \<le> sint b"
  then show "gpu_lsu AK1_LDC r (scast b) p = Fault Uninit"
    by (simp add: scast_nonneg executeLS_ucast)
next
  assume *: "sint b < 0 \<and> gpu_lsu AK1_LDC r (scast b) p = Ok q \<and> r * 4 + 4 \<le> length (cu_vreg p)"
  then have "bit (scast b :: u64) 35"
    by (simp add: bit_signed_iff bit_last_iff [of b, symmetric])
  then have "(scast b :: u64) AND MEMORY_MAP_RAM_BEGIN \<noteq> 0"
    using and_power [of "scast b :: u64" 35] by (simp add: MEMORY_MAP_RAM_BEGIN_def)
  then show "\<exists>m. wr_block (cu_ram p) (unat (scast b AND 0x7FFFFFFFF :: u64)) (cu_vbytes p r) = Ok m \<and> q = p\<lparr>cu_ram := m\<rparr>"
    using * by (auto simp: executeLS_def res_bind_eq_Ok cu_vpoke_vbytes Let_def)
qed

section \<open>Examples\<close>

theorem gpu_alu_immediate_witness:
  "gpu_opC (cu_operations (snd (gpu_decode 0 (demo_cu\<lparr>cu_opcodes := [0x1406, 0]\<rparr>))) ! 0) [] = 5 \<and>
   gpu_executeInstruction (cu_operations (snd (gpu_decode 0 (demo_cu\<lparr>cu_opcodes := [0x1456, 0]\<rparr>))) ! 0)
     (replicate 64 1, demo_cu) = Some (Fault Shift_range)"
proof -
  have len: "0 < length (cu_operations (demo_cu\<lparr>cu_opcodes := [w, 0]\<rparr>))" for w
    by (simp add: demo_cu_def Let_def)
  have w: "w = cu_opcodes (demo_cu\<lparr>cu_opcodes := [w, 0]\<rparr>) ! 0" for w by simp
  have f: "readbits 0x1406 0 2 = 2" "readbits 0x1406 2 2 = 1" "readbits 0x1406 4 4 = 0" "readbits 0x1406 20 6 = 0"
    "readbits 0x1406 10 10 = 5" "readbits 0x1456 0 2 = 2" "readbits 0x1456 2 2 = 1" "readbits 0x1456 4 4 = 5"
    by (simp_all add: readbits_def)
  show ?thesis
    using gpu_alu_immediate [OF len w f(1,2), of "[]" demo_cu]
      gpu_alu_immediate [OF len w f(6,7), of "replicate 64 1" demo_cu]
    unfolding Let_def f by simp
qed

definition demo_cmp :: ArExecute where
  "demo_cmp =
     \<lparr>ex_unit1 = AK1_EXE_CMP, ex_unit2 = AK1_OPCODE_CMP, ex_size = 0, ex_id = 0, ex_imm = 7, ex_immf = 1,
      ex_rA = 0, ex_rB = 1, ex_rC = 0, ex_fimm = 0, ex_dimm = 0\<rparr>"

theorem gpu_compare_and_branch_witness:
  "\<exists>q. gpu_executeInstruction demo_cmp ([0, - 1], demo_cu\<lparr>cu_delayop := 2\<rparr>) = Some (Ok (AR_SUCCESS, [0, - 1], q)) \<and>
     cu_pc (snd (gpu_executeDelayed 8 q)) = 0x8006"
proof -
  let ?p = "demo_cu\<lparr>cu_delayop := 2\<rparr>"
  have x: "ex_unit1 demo_cmp = AK1_EXE_CMP" "ex_unit2 demo_cmp = AK1_OPCODE_CMP" by (simp_all add: demo_cmp_def)
  have b: "gpu_bru_of (cu_delayop ?p) = Some AK1_BL" "unat (cu_delayop ?p) < 10"
    by (simp_all add: gpu_bru_of_def gpu_bru_ops_def)
  have "cu_pc ?p = 0x7FFE" by (simp add: demo_cu_def Let_def)
  moreover have "ex_rA demo_cmp = 0" "ex_rB demo_cmp = 1" by (simp_all add: demo_cmp_def)
  ultimately show ?thesis
    using gpu_compare_and_branch [OF x b, of "[0, - 1]" 8] by (auto simp: Let_def case_prod_unfold)
qed

definition demo_big :: ComputeUnit where
  "demo_big = demo_cu\<lparr>cu_ram := \<lparr>bsize = 0x800000000, bdata = (\<lambda>i. 0)\<rparr>\<rparr>"

theorem gpu_external_memory_witness:
  "(\<exists>f. gpu_dma (Some AK1_STDMA) 0 0x1000 1 demo_cu = Some (Fault f)) \<and>
   (\<exists>m q. gpu_lsu AK1_LDC 1 (scast (0x80000000 :: u32)) demo_big = Ok q \<and> q = demo_big\<lparr>cu_ram := m\<rparr>)"
proof
  show "\<exists>f. gpu_dma (Some AK1_STDMA) 0 0x1000 1 demo_cu = Some (Fault f)"
    using gpu_external_memory [of 0 "0x1000" 1 demo_cu] by simp
  have a: "unat (scast (0x80000000 :: u32) AND 0x7FFFFFFFF :: u64) = 0x780000000"
    and ram: "(scast (0x80000000 :: u32) :: u64) AND MEMORY_MAP_RAM_BEGIN \<noteq> 0"
    unfolding MEMORY_MAP_RAM_BEGIN_def by code_simp+
  have len: "length (cu_vreg demo_big) = 4096" "bsize (cu_ram demo_big) = 0x800000000"
    by (simp_all add: demo_big_def demo_cu_def Let_def)
  then have "length (cu_vbytes demo_big 1) = 16" by (simp add: cu_vbytes_def)
  then obtain q where q: "gpu_lsu AK1_LDC 1 (scast (0x80000000 :: u32)) demo_big = Ok q"
    using ram by (simp add: executeLS_def wr_block_def guard_res_def a len Let_def)
  have "sint (0x80000000 :: u32) < 0" by simp
  then have "\<exists>m. q = demo_big\<lparr>cu_ram := m\<rparr>"
    using gpu_external_memory [of 0 "0x80000000" 0 demo_big 1 q] q len(1) by auto
  then show "\<exists>m q. gpu_lsu AK1_LDC 1 (scast (0x80000000 :: u32)) demo_big = Ok q \<and> q = demo_big\<lparr>cu_ram := m\<rparr>"
    using q by auto
qed

end
