(* ===== verification/V2_Opcode.thy ===== *)
theory V2_Opcode
  imports AX_Memory
begin

text \<open>
  The instruction words of the second version of the VM (\<open>src/VM/altairx_v2\<close>): the accessors of
  \<open>AxOpcode\<close> in \<open>opcode.hpp\<close> and its enumeration of operations, one datatype per unit. Constructors
  are the enumerators without their prefix \<open>AX_EXE\<close>; the position in each list is the value modulo 16
  (32 for the two integer units).
\<close>

section \<open>Fields\<close>

definition ax_opcode :: "u32 \<Rightarrow> u32" where "ax_opcode v = drop_bit 1 v AND 0x0F"
definition ax_unit :: "u32 \<Rightarrow> u32" where "ax_unit v = drop_bit 5 v AND 0x07"
definition ax_operation :: "u32 \<Rightarrow> u32" where "ax_operation v = drop_bit 1 v AND 0x7F"
definition ax_size :: "u32 \<Rightarrow> nat" where "ax_size v = unat (drop_bit 8 v AND 0x03)"
definition sext_insize :: "u32 \<Rightarrow> nat" where "sext_insize v = unat (drop_bit 11 v AND 0x03)"
definition bru_other_index :: "u32 \<Rightarrow> u32" where "bru_other_index v = drop_bit 8 v AND 0x0F"
definition reg_c :: "u32 \<Rightarrow> nat" where "reg_c v = unat (drop_bit 14 v AND 0x3F)"
definition reg_b :: "u32 \<Rightarrow> nat" where "reg_b v = unat (drop_bit 20 v AND 0x3F)"
definition reg_a :: "u32 \<Rightarrow> nat" where "reg_a v = unat (drop_bit 26 v AND 0x3F)"
definition alu_has_imm :: "u32 \<Rightarrow> bool" where "alu_has_imm v \<longleftrightarrow> v AND 0x0400 \<noteq> 0"
definition alu_shift :: "u32 \<Rightarrow> nat" where "alu_shift v = unat (drop_bit 11 v AND 0x07)"
definition alu_imm9 :: "u32 \<Rightarrow> u64" where "alu_imm9 v = ucast (drop_bit 11 v AND 0x01FF)"
definition ext_ins_imm1 :: "u32 \<Rightarrow> nat" where "ext_ins_imm1 v = unat (drop_bit 8 v AND 0x3F)"
definition ext_ins_imm2 :: "u32 \<Rightarrow> nat" where "ext_ins_imm2 v = unat (drop_bit 14 v AND 0x3F)"
definition alu_move_imm :: "u32 \<Rightarrow> u64" where "alu_move_imm v = ucast (drop_bit 8 v AND 0x0003FFFF)"
definition mdu_pq :: "u32 \<Rightarrow> nat" where "mdu_pq v = unat (drop_bit 11 v AND 0x03)"
definition lsu_shift :: "u32 \<Rightarrow> nat" where "lsu_shift v = unat (drop_bit 11 v AND 0x07)"
definition lsu_imm10 :: "u32 \<Rightarrow> u64" where "lsu_imm10 v = ucast (drop_bit 10 v AND 0x03FF)"
definition lsu_imm16 :: "u32 \<Rightarrow> u64" where "lsu_imm16 v = ucast (drop_bit 10 v AND 0x0FFFF)"
definition moveix_imm24 :: "u32 \<Rightarrow> u64" where "moveix_imm24 v = ucast (drop_bit 8 v AND 0x00FFFFFF)"
definition bru_imm24 :: "u32 \<Rightarrow> u64" where "bru_imm24 v = ucast (drop_bit 8 v AND 0x00FFFFFF)"
definition is_package :: "u32 \<Rightarrow> bool" where "is_package v \<longleftrightarrow> v AND 1 \<noteq> 0"
definition is_moveix :: "u32 \<Rightarrow> bool" where "is_moveix v \<longleftrightarrow> v AND 0xFE = 0"

lemmas opcode_defs =
  ax_opcode_def ax_unit_def ax_operation_def ax_size_def sext_insize_def bru_other_index_def
  reg_a_def reg_b_def reg_c_def alu_has_imm_def alu_shift_def alu_imm9_def ext_ins_imm1_def
  ext_ins_imm2_def alu_move_imm_def mdu_pq_def lsu_shift_def lsu_imm10_def lsu_imm16_def
  moveix_imm24_def bru_imm24_def is_package_def is_moveix_def

section \<open>Operations\<close>

text \<open>Units 0 and 1. \<open>RTL\<close> and \<open>ADC\<close> are both 10, \<open>RTR\<close> and \<open>SBC\<close> both 11.\<close>

datatype alu2_op =
    ALU_MOVEIX | ALU_COP | ALU_EXT | ALU_INS | ALU_MOVEI | ALU_MOVEN | ALU_UNK0 | ALU_MOVEUP
  | ALU_UNK1 | ALU_SEXT | ALU_RTL | ALU_RTR | ALU_CMP | ALU_TEST | ALU_TESTFR | ALU_CMPBIT
  | ALU_ADD | ALU_SUB | ALU_XOR | ALU_OR | ALU_AND | ALU_LSL | ALU_ASR | ALU_LSR
  | ALU_SE | ALU_SEN | ALU_SLTS | ALU_SLTU | ALU_SAND | ALU_SBIT | ALU_CMOVEN | ALU_CMOVE

definition alu2_ops :: "alu2_op list" where
  "alu2_ops =
    [ALU_MOVEIX, ALU_COP, ALU_EXT, ALU_INS, ALU_MOVEI, ALU_MOVEN, ALU_UNK0, ALU_MOVEUP,
     ALU_UNK1, ALU_SEXT, ALU_RTL, ALU_RTR, ALU_CMP, ALU_TEST, ALU_TESTFR, ALU_CMPBIT,
     ALU_ADD, ALU_SUB, ALU_XOR, ALU_OR, ALU_AND, ALU_LSL, ALU_ASR, ALU_LSR,
     ALU_SE, ALU_SEN, ALU_SLTS, ALU_SLTU, ALU_SAND, ALU_SBIT, ALU_CMOVEN, ALU_CMOVE]"

text \<open>Unit 2.\<close>

datatype lsu2_op =
    LSU_LD | LSU_ST | LSU_FLD | LSU_FST | LSU_LDI | LSU_STI | LSU_FLDI | LSU_FSTI
  | LSU_LDSP | LSU_STSP | LSU_FLDSP | LSU_FSTSP | LSU_LDC | LSU_STC | LSU_FLDC | LSU_FSTC

definition lsu2_ops :: "lsu2_op list" where
  "lsu2_ops =
    [LSU_LD, LSU_ST, LSU_FLD, LSU_FST, LSU_LDI, LSU_STI, LSU_FLDI, LSU_FSTI,
     LSU_LDSP, LSU_STSP, LSU_FLDSP, LSU_FSTSP, LSU_LDC, LSU_STC, LSU_FLDC, LSU_FSTC]"

text \<open>Unit 3.\<close>

datatype fpu2_op =
    FPU_FADD | FPU_FSUB | FPU_FMUL | FPU_FNMUL | FPU_HTOF | FPU_FTOH | FPU_ITOF | FPU_FTOI
  | FPU_FNEG | FPU_FABS | FPU_FMIN | FPU_FMAX | FPU_FMOVE | FPU_FCMP | FPU_FMOVEI | FPU_FCMPI

definition fpu2_ops :: "fpu2_op list" where
  "fpu2_ops =
    [FPU_FADD, FPU_FSUB, FPU_FMUL, FPU_FNMUL, FPU_HTOF, FPU_FTOH, FPU_ITOF, FPU_FTOI,
     FPU_FNEG, FPU_FABS, FPU_FMIN, FPU_FMAX, FPU_FMOVE, FPU_FCMP, FPU_FMOVEI, FPU_FCMPI]"

text \<open>Unit 6; the other ten values have no name of their own.\<close>

datatype mdu2_op = MDU_DIV | MDU_DIVU | MDU_MUL | MDU_MULU | MDU_MOVETO | MDU_MOVEFROM | MDU_UNK

definition mdu2_ops :: "mdu2_op list" where
  "mdu2_ops = [MDU_DIV, MDU_DIVU, MDU_MUL, MDU_MULU, MDU_MOVETO, MDU_MOVEFROM] @ replicate 10 MDU_UNK"

text \<open>Unit 7; \<open>OTHER\<close> has the index of the operation in another field.\<close>

datatype bru2_op =
    BRU_BNE | BRU_BEQ | BRU_BL | BRU_BLE | BRU_BG | BRU_BGE | BRU_BLS | BRU_BLES
  | BRU_BGS | BRU_BGES | BRU_BRA | BRU_LOOP | BRU_JUMP | BRU_CALL | BRU_CALLR | BRU_OTHER

definition bru2_ops :: "bru2_op list" where
  "bru2_ops =
    [BRU_BNE, BRU_BEQ, BRU_BL, BRU_BLE, BRU_BG, BRU_BGE, BRU_BLS, BRU_BLES,
     BRU_BGS, BRU_BGES, BRU_BRA, BRU_LOOP, BRU_JUMP, BRU_CALL, BRU_CALLR, BRU_OTHER]"

definition BRU_OTHER_JUMPBR_ID :: u32 where "BRU_OTHER_JUMPBR_ID = 0x01"
definition BRU_OTHER_CALLBR_ID :: u32 where "BRU_OTHER_CALLBR_ID = 0x09"
definition BRU_OTHER_RET_ID :: u32 where "BRU_OTHER_RET_ID = 0x02"
definition BRU_OTHER_RETI_ID :: u32 where "BRU_OTHER_RETI_ID = 0x03"
definition BRU_OTHER_SYSCALL_ID :: u32 where "BRU_OTHER_SYSCALL_ID = 0x04"

lemmas bru_other_ids =
  BRU_OTHER_JUMPBR_ID_def BRU_OTHER_CALLBR_ID_def BRU_OTHER_RET_ID_def BRU_OTHER_RETI_ID_def
  BRU_OTHER_SYSCALL_ID_def

text \<open>The operation of a word, for the unit that the word names.\<close>

definition alu2_of :: "u32 \<Rightarrow> alu2_op" where "alu2_of v = alu2_ops ! (unat (ax_operation v) mod 32)"
definition lsu2_of :: "u32 \<Rightarrow> lsu2_op" where "lsu2_of v = lsu2_ops ! unat (ax_opcode v)"
definition fpu2_of :: "u32 \<Rightarrow> fpu2_op" where "fpu2_of v = fpu2_ops ! unat (ax_opcode v)"
definition mdu2_of :: "u32 \<Rightarrow> mdu2_op" where "mdu2_of v = mdu2_ops ! unat (ax_opcode v)"
definition bru2_of :: "u32 \<Rightarrow> bru2_op" where "bru2_of v = bru2_ops ! unat (ax_opcode v)"

section \<open>Bounds of the fields\<close>

lemma and_less: "m < n \<Longrightarrow> x AND m < n" for x m n :: "'a::len word"
  by (metis le_less_trans word_and_le1)

lemma reg_bounds [simp]: "reg_a v < 64" "reg_b v < 64" "reg_c v < 64"
  using unat_mono [OF and_less [of "0x3F" "64" "drop_bit 26 v"]]
    unat_mono [OF and_less [of "0x3F" "64" "drop_bit 20 v"]]
    unat_mono [OF and_less [of "0x3F" "64" "drop_bit 14 v"]]
  by (simp_all add: reg_a_def reg_b_def reg_c_def)

lemma size_bounds [simp]: "ax_size v < 4" "sext_insize v < 4" "mdu_pq v < 4"
  using unat_mono [OF and_less [of "0x03" "4" "drop_bit 8 v"]]
    unat_mono [OF and_less [of "0x03" "4" "drop_bit 11 v"]]
  by (simp_all add: ax_size_def sext_insize_def mdu_pq_def)

lemma shift_bounds [simp]: "alu_shift v < 8" "lsu_shift v < 8" "ext_ins_imm1 v < 64" "ext_ins_imm2 v < 64"
  using unat_mono [OF and_less [of "0x07" "8" "drop_bit 11 v"]]
    unat_mono [OF and_less [of "0x3F" "64" "drop_bit 8 v"]]
    unat_mono [OF and_less [of "0x3F" "64" "drop_bit 14 v"]]
  by (simp_all add: alu_shift_def lsu_shift_def ext_ins_imm1_def ext_ins_imm2_def)

text \<open>The unit and the operation within it are the two parts of \<open>operation()\<close>.\<close>

lemma ax_operation_split: "ax_operation v = push_bit 4 (ax_unit v) OR ax_opcode v"
proof -
  have m: "(0x7F :: u32) = mask 7" "(0x0F :: u32) = mask 4" "(0x07 :: u32) = mask 3"
    by (simp_all add: mask_eq_exp_minus_1)
  show ?thesis unfolding ax_operation_def ax_unit_def ax_opcode_def m
    by (rule bit_word_eqI) (auto simp: bit_simps; presburger)
qed

end
