(* ===== verification/V2_Memory.thy ===== *)
theory V2_Memory
  imports V2_Opcode
begin

text \<open>
  State and memory of the second version (\<open>core.hpp\<close>, \<open>memory.hpp\<close>, \<open>memory.cpp\<close>). \<open>AxMemory\<close> and the
  scratchpad \<open>m_spm\<close> of the core are the blocks of the areas of the address space; a pointer that
  \<open>AxMemory::map\<close> returns is an area and an offset. Floating-point registers hold the bits of their
  \<open>double\<close>. Blocks are allocated as vectors of 64-bit words, zeroed; allocation succeeds.
\<close>

section \<open>State\<close>

datatype area = A_SPM | A_IO | A_ROM | A_SPMT | A_SPM2 | A_WRAM

record RegisterSet =
  r_lr :: u32
  r_br :: u32
  r_lc :: u32
  r_fr :: u32
  r_pc :: u32
  r_ir :: u32
  r_cc :: u32
  r_ic :: u32
  gpi :: "u64 list"
  gpf :: "u64 list"
  mdu :: "u64 list"
  efu_q :: u32
  efu_qd :: u64

record AxCore =
  blocks :: "area \<Rightarrow> block"
  m_spmt_mask :: u64
  m_spm2_mask :: u64
  m_wram_mask :: u64
  m_regs :: RegisterSet
  m_error :: u32
  m_cycle :: u32
  m_instruction :: u32
  m_syscall :: u32
  x_out :: "out_event list"

definition REG_ZERO :: nat where "REG_ZERO = 63"

definition SPM_SIZE :: nat where "SPM_SIZE = 0x4000"

fun area_begin :: "area \<Rightarrow> u64" where
  "area_begin A_SPM = 0x00000000"
| "area_begin A_IO = 0x08000000"
| "area_begin A_ROM = 0x10000000"
| "area_begin A_SPMT = 0x20000000"
| "area_begin A_SPM2 = 0x40000000"
| "area_begin A_WRAM = 0x80000000"

definition regs_zero :: RegisterSet where
  "regs_zero = \<lparr>r_lr = 0, r_br = 0, r_lc = 0, r_fr = 0, r_pc = 0, r_ir = 0, r_cc = 0, r_ic = 0,
     gpi = replicate 64 0, gpf = replicate 64 0, mdu = replicate 4 0, efu_q = 0, efu_qd = 0\<rparr>"

section \<open>Construction\<close>

text \<open>
  \<open>std::vector<uint64_t>::resize\<close> to a number of words computed in \<open>uint64_t\<close>; beyond
  \<open>max_size()\<close> it throws.
\<close>

definition words_block :: "u64 \<Rightarrow> block res" where
  "words_block n = guard_res (unat n < 2 ^ 60) Panic \<lparr>bsize = 8 * unat n, bdata = (\<lambda>i. 0)\<rparr>"

definition byte_size :: "block \<Rightarrow> u64" where
  "byte_size b = word_of_nat (bsize b)"

text \<open>\<open>AltairX::AltairX\<close>: the memory, then a core with all its members at their initial values.\<close>

definition AxMemory_init :: "u64 \<Rightarrow> u64 \<Rightarrow> u64 \<Rightarrow> AxCore res" where
  "AxMemory_init nw nt n2 =
     res_bind (words_block (512 * 1024 div 8)) (\<lambda>io.
     res_bind (words_block (16 * 1024 * 1024 div 8)) (\<lambda>rom.
     res_bind (words_block (0x100000 * nw div 8)) (\<lambda>wram.
     res_bind (words_block (0x400 * nt div 8)) (\<lambda>spmt.
     res_bind (words_block (0x400 * n2 div 8)) (\<lambda>spm2.
     Ok \<lparr>blocks = (\<lambda>a. case a of A_SPM \<Rightarrow> \<lparr>bsize = SPM_SIZE, bdata = (\<lambda>i. 0)\<rparr>
            | A_IO \<Rightarrow> io | A_ROM \<Rightarrow> rom | A_SPMT \<Rightarrow> spmt | A_SPM2 \<Rightarrow> spm2 | A_WRAM \<Rightarrow> wram),
         m_spmt_mask = byte_size spmt - 1,
         m_spm2_mask = byte_size spm2 - 1,
         m_wram_mask = byte_size wram - 1,
         m_regs = regs_zero,
         m_error = 0, m_cycle = 0, m_instruction = 0, m_syscall = 0, x_out = []\<rparr>)))))"

section \<open>Address decoding\<close>

definition area_of :: "u64 \<Rightarrow> area" where
  "area_of addr =
     (if addr AND area_begin A_WRAM \<noteq> 0 then A_WRAM
      else if addr AND area_begin A_SPM2 \<noteq> 0 then A_SPM2
      else if addr AND area_begin A_SPMT \<noteq> 0 then A_SPMT
      else if addr AND area_begin A_ROM \<noteq> 0 then A_ROM
      else if addr AND area_begin A_IO \<noteq> 0 then A_IO
      else A_SPM)"

fun area_mask :: "AxCore \<Rightarrow> area \<Rightarrow> u64" where
  "area_mask s A_WRAM = m_wram_mask s"
| "area_mask s A_SPM2 = m_spm2_mask s"
| "area_mask s A_SPMT = m_spmt_mask s"
| "area_mask s A_ROM = 0xFFFFFF"
| "area_mask s A_IO = 0x7FFFF"
| "area_mask s A_SPM = 0x3FFF"

text \<open>\<open>AxMemory::map\<close>.\<close>

definition ax_map :: "AxCore \<Rightarrow> u64 \<Rightarrow> area \<times> nat" where
  "ax_map s addr = (let a = area_of addr in (a, unat (addr AND area_mask s a)))"

section \<open>Transfers\<close>

definition x_read :: "area \<Rightarrow> AxCore \<Rightarrow> nat \<Rightarrow> nat \<Rightarrow> u8 list res" where
  "x_read a s off n = rd_block (blocks s a) off n"

definition x_write :: "area \<Rightarrow> AxCore \<Rightarrow> nat \<Rightarrow> u8 list \<Rightarrow> AxCore res" where
  "x_write a s off bs = res_bind (wr_block (blocks s a) off bs) (\<lambda>b. Ok (s\<lparr>blocks := (blocks s)(a := b)\<rparr>))"

text \<open>\<open>AxMemory::load\<close> and \<open>AxMemory::store\<close>: \<open>memcpy\<close> from and to the mapped address.\<close>

definition ax_load :: "AxCore \<Rightarrow> u64 \<Rightarrow> nat \<Rightarrow> u8 list res" where
  "ax_load s addr n = (let (a, off) = ax_map s addr in x_read a s off n)"

definition ax_store :: "AxCore \<Rightarrow> u64 \<Rightarrow> u8 list \<Rightarrow> AxCore res" where
  "ax_store s addr bs = (let (a, off) = ax_map s addr in x_write a s off bs)"

text \<open>A register of 64 bits whose low bytes a transfer replaces.\<close>

definition poke64 :: "u8 list \<Rightarrow> u64 \<Rightarrow> u64" where
  "poke64 bs old = of_bytes (bs @ drop (length bs) (bytes_of 8 old))"

section \<open>Properties of memory\<close>

text \<open>The shape of a state: register files of their sizes, blocks and the masks that bound them.\<close>

definition wf2 :: "AxCore \<Rightarrow> bool" where
  "wf2 s \<longleftrightarrow> length (gpi (m_regs s)) = 64 \<and> length (gpf (m_regs s)) = 64 \<and> length (mdu (m_regs s)) = 4 \<and>
     (\<forall>a. bsize (blocks s a) < 2 ^ 63 \<and> 8 dvd bsize (blocks s a)) \<and>
     bsize (blocks s A_SPM) = 0x4000 \<and> bsize (blocks s A_ROM) = 0x1000000 \<and> bsize (blocks s A_IO) = 0x80000 \<and>
     m_wram_mask s = byte_size (blocks s A_WRAM) - 1 \<and>
     m_spm2_mask s = byte_size (blocks s A_SPM2) - 1 \<and>
     m_spmt_mask s = byte_size (blocks s A_SPMT) - 1"

lemma words_block_Ok: "words_block n = Ok b \<longleftrightarrow> unat n < 2 ^ 60 \<and> b = \<lparr>bsize = 8 * unat n, bdata = (\<lambda>i. 0)\<rparr>"
  by (auto simp: words_block_def)

lemma wf2_init: "AxMemory_init nw nt n2 = Ok s \<Longrightarrow> wf2 s"
proof -
  assume "AxMemory_init nw nt n2 = Ok s"
  then show ?thesis
    by (auto simp: AxMemory_init_def res_bind_eq_Ok words_block_Ok wf2_def regs_zero_def SPM_SIZE_def
        split: area.splits)
qed

interpretation area_mem: byte_store "x_read a" "x_write a" for a
proof unfold_locales
  fix m m' :: AxCore and i j n :: nat and bs :: "u8 list"
  show "x_read a m i n = Ok bs \<Longrightarrow> length bs = n"
    by (simp add: x_read_def rd_block_eq_Ok)
  show "x_write a m i bs = Ok m' \<Longrightarrow> x_read a m' i (length bs) = Ok bs"
    by (auto simp: x_read_def x_write_def res_bind_eq_Ok rd_block_wr_block)
  show "x_write a m i bs = Ok m' \<Longrightarrow> i + length bs \<le> j \<or> j + n \<le> i \<Longrightarrow> x_read a m' j n = x_read a m j n"
    by (auto simp: x_read_def x_write_def res_bind_eq_Ok rd_block_wr_block_other)
  show "(\<exists>m'. x_write a m i bs = Ok m') \<longleftrightarrow> (\<exists>bs'. x_read a m i (length bs) = Ok bs')"
    by (auto simp: x_read_def x_write_def res_bind_eq_Ok wr_block_def rd_block_eq_Ok)
qed

lemma x_write_eq_Ok:
  "x_write a s off bs = Ok s' \<longleftrightarrow>
     (\<exists>b. wr_block (blocks s a) off bs = Ok b \<and> s' = s\<lparr>blocks := (blocks s)(a := b)\<rparr>)"
  by (auto simp: x_write_def res_bind_eq_Ok)

lemma x_write_Ok_iff: "(\<exists>s'. x_write a s off bs = Ok s') \<longleftrightarrow> off + length bs \<le> bsize (blocks s a)"
  by (auto simp: x_write_eq_Ok wr_block_def)

lemma x_read_Ok_iff: "(\<exists>bs. x_read a s off n = Ok bs) \<longleftrightarrow> off + n \<le> bsize (blocks s a)"
  by (auto simp: x_read_def rd_block_eq_Ok)

text \<open>What a write to memory leaves as it is.\<close>

lemma x_write_frame:
  assumes "x_write a s off bs = Ok s'"
  shows "m_regs s' = m_regs s" "m_error s' = m_error s" "m_syscall s' = m_syscall s" "x_out s' = x_out s"
    "area_mask s' b = area_mask s b" "bsize (blocks s' b) = bsize (blocks s b)"
proof -
  from assms obtain b' where b: "wr_block (blocks s a) off bs = Ok b'" "s' = s\<lparr>blocks := (blocks s)(a := b')\<rparr>"
    by (auto simp: x_write_eq_Ok)
  then show "m_regs s' = m_regs s" "m_error s' = m_error s" "m_syscall s' = m_syscall s" "x_out s' = x_out s"
    "bsize (blocks s' b) = bsize (blocks s b)"
    by (auto dest: wr_block_bsize)
  show "area_mask s' b = area_mask s b" unfolding b(2) by (cases b) simp_all
qed

lemma x_read_other_area: "x_write a s off bs = Ok s' \<Longrightarrow> b \<noteq> a \<Longrightarrow> x_read b s' j n = x_read b s j n"
  by (auto simp: x_write_eq_Ok x_read_def)

lemma wf2_x_write: "x_write a s off bs = Ok s' \<Longrightarrow> wf2 s \<Longrightarrow> wf2 s'"
  by (auto simp: wf2_def x_write_eq_Ok byte_size_def dest: wr_block_bsize)

lemma ax_map_frame: "x_write a s off bs = Ok s' \<Longrightarrow> ax_map s' = ax_map s"
  by (rule ext) (simp add: ax_map_def Let_def x_write_frame)

lemma ax_store_frame:
  assumes "ax_store s addr bs = Ok s'"
  shows "m_regs s' = m_regs s" "m_error s' = m_error s" "m_syscall s' = m_syscall s" "x_out s' = x_out s"
    "ax_map s' = ax_map s" "wf2 s \<Longrightarrow> wf2 s'" "bsize (blocks s' b) = bsize (blocks s b)"
  using assms x_write_frame ax_map_frame wf2_x_write
  by (auto simp: ax_store_def Let_def ax_map_def)

text \<open>The mask of an area that is not empty is its size minus one.\<close>

lemma unat_area_mask:
  assumes "wf2 s" and "bsize (blocks s a) \<noteq> 0"
  shows "unat (area_mask s a) = bsize (blocks s a) - 1"
proof -
  have *: "unat (byte_size b - 1) = bsize b - 1" if "bsize b < 2 ^ 63" "bsize b \<noteq> 0" for b
  proof -
    have "byte_size b \<noteq> 0" using that by (simp add: byte_size_def word_of_nat_eq_0_iff nat_dvd_not_less)
    then have "unat (byte_size b - 1) = unat (byte_size b) - 1" by (simp add: unat_minus_one)
    then show ?thesis using that by (simp add: byte_size_def unsigned_of_nat take_bit_nat_eq_self)
  qed
  show ?thesis using assms * by (cases a) (auto simp: wf2_def)
qed

text \<open>A masked address lies inside its block, whatever its size, unless the block is empty.\<close>

lemma map_offset_bound:
  assumes "wf2 s" and "bsize (blocks s (area_of addr)) \<noteq> 0"
  shows "snd (ax_map s addr) < bsize (blocks s (fst (ax_map s addr)))"
proof -
  have "unat (addr AND area_mask s (area_of addr)) \<le> unat (area_mask s (area_of addr))"
    by (simp add: word_and_le1 word_le_nat_alt [symmetric])
  then show ?thesis using unat_area_mask [OF assms] assms(2) by (simp add: ax_map_def Let_def)
qed

text \<open>The mask keeps the low bits of an address, so that an aligned address stays aligned.\<close>

lemma and_mask_mod:
  fixes x m :: nat
  assumes "2 ^ j dvd Suc m"
  shows "(x AND m) mod 2 ^ j = x mod 2 ^ j"
proof -
  have "Suc (m mod 2 ^ j) = 2 ^ j"
    using assms mod_Suc [of m "2 ^ j"] by (auto simp: dvd_eq_mod_eq_0 split: if_splits)
  then have "take_bit j m = mask j" by (simp add: take_bit_eq_mod mask_eq_exp_minus_1)
  then have "take_bit j (x AND m) = take_bit j x"
    by (simp only: take_bit_and) (simp add: take_bit_eq_mask flip: take_bit_eq_mask)
  then show ?thesis by (simp add: take_bit_eq_mod)
qed

lemma aligned_offset:
  assumes "wf2 s" and "bsize (blocks s (area_of addr)) \<noteq> 0" and "j \<le> 3" and "2 ^ j dvd unat addr"
  shows "snd (ax_map s addr) + 2 ^ j \<le> bsize (blocks s (area_of addr))"
proof -
  let ?n = "bsize (blocks s (area_of addr))"
  let ?m = "unat (area_mask s (area_of addr))"
  have m: "Suc ?m = ?n" using unat_area_mask [OF assms(1,2)] assms(2) by simp
  have "2 ^ j dvd (2 :: nat) ^ 3" using assms(3) by (rule le_imp_power_dvd)
  then have n: "2 ^ j dvd ?n" using assms(1) by (auto simp: wf2_def intro: dvd_trans)
  then have "(unat addr AND ?m) mod 2 ^ j = unat addr mod 2 ^ j"
    by (intro and_mask_mod) (simp only: m)
  then have "2 ^ j dvd (unat addr AND ?m)" using assms(4) by (simp add: dvd_eq_mod_eq_0)
  moreover have "(unat addr AND ?m) < ?n"
    using map_offset_bound [OF assms(1,2)] by (simp add: ax_map_def Let_def unsigned_and_eq)
  ultimately have "(unat addr AND ?m) + 2 ^ j \<le> ?n" using n
    by (metis add_diff_inverse_nat dvd_diff_nat dvd_imp_le less_imp_le not_less zero_less_diff add_le_cancel_left)
  then show ?thesis by (simp add: ax_map_def Let_def unsigned_and_eq)
qed

section \<open>A small machine\<close>

text \<open>One MiB of WRAM, one KiB of each scratchpad, for the examples.\<close>

definition demo2 :: AxCore where
  "demo2 =
     \<lparr>blocks = (\<lambda>a. \<lparr>bsize = (case a of A_SPM \<Rightarrow> 0x4000 | A_IO \<Rightarrow> 0x80000 | A_ROM \<Rightarrow> 0x1000000
          | A_SPMT \<Rightarrow> 0x400 | A_SPM2 \<Rightarrow> 0x400 | A_WRAM \<Rightarrow> 0x100000), bdata = (\<lambda>i. 0)\<rparr>),
      m_spmt_mask = 0x3FF, m_spm2_mask = 0x3FF, m_wram_mask = 0xFFFFF, m_regs = regs_zero,
      m_error = 0, m_cycle = 0, m_instruction = 0, m_syscall = 0, x_out = []\<rparr>"

lemma demo2_init: "AxMemory_init 1 1 1 = Ok demo2"
  by (auto simp: AxMemory_init_def words_block_def byte_size_def demo2_def SPM_SIZE_def split: area.splits)

lemma wf2_demo2 [simp]: "wf2 demo2"
  by (rule wf2_init [OF demo2_init])

lemma demo2_simps [simp]:
  "bsize (blocks demo2 A_WRAM) = 0x100000" "bsize (blocks demo2 A_SPM) = 0x4000"
  "m_regs demo2 = regs_zero" "m_wram_mask demo2 = 0xFFFFF" "m_spm2_mask demo2 = 0x3FF"
  "m_syscall demo2 = 0" "m_error demo2 = 0"
  by (simp_all add: demo2_def)

section \<open>Theorems\<close>

text \<open>
  C18. A load or store of 1, 2, 4 or 8 bytes at an address that is a multiple of its length: whatever the
  sizes of the areas, powers of two or not, it succeeds at every address of an area that is not empty.
  In an empty area, which the options \<open>-wram 0\<close>, \<open>-spmt 0\<close> and \<open>-spm2 0\<close> make with a mask of all ones,
  every one is out of bounds.
\<close>
theorem aligned_access_total:
  assumes "wf2 s" and "j \<le> 3" and "2 ^ j dvd unat addr" and "length bs = 2 ^ j"
  shows "if bsize (blocks s (area_of addr)) = 0
    then ax_load s addr (2 ^ j) = Fault Mem_oob \<and> ax_store s addr bs = Fault Mem_oob
    else (\<exists>bs'. ax_load s addr (2 ^ j) = Ok bs') \<and> (\<exists>s'. ax_store s addr bs = Ok s')"
proof (cases "bsize (blocks s (area_of addr)) = 0")
  case True
  then have "\<not> snd (ax_map s addr) + 2 ^ j \<le> bsize (blocks s (area_of addr))" by simp
  then show ?thesis using True assms(4)
    by (simp add: ax_load_def ax_store_def ax_map_def Let_def x_read_def x_write_def rd_block_def wr_block_def)
next
  case False
  then show ?thesis using aligned_offset [OF assms(1) False assms(2,3)] x_read_Ok_iff x_write_Ok_iff assms(4)
    by (simp add: ax_load_def ax_store_def Let_def ax_map_def)
qed

theorem aligned_access_total_witness:
  "(\<exists>bs'. ax_load demo2 0x80FFFFF8 (2 ^ 3) = Ok bs') \<and> (\<exists>s'. ax_store demo2 0x80FFFFF8 (replicate 8 7) = Ok s') \<and>
   (\<exists>s. AxMemory_init 1 0 1 = Ok s \<and> ax_load s 0x20000000 (2 ^ 2) = Fault Mem_oob)"
proof -
  have "area_of 0x80FFFFF8 = A_WRAM" "area_of 0x20000000 = A_SPMT" by (simp_all add: area_of_def)
  note area = this
  obtain s where s: "AxMemory_init 1 0 1 = Ok s" "bsize (blocks s A_SPMT) = 0"
    by (simp add: AxMemory_init_def words_block_def)
  have "ax_load s 0x20000000 (2 ^ 2) = Fault Mem_oob"
    using aligned_access_total [OF wf2_init [OF s(1)], of 2 "0x20000000" "[0, 0, 0, 0]"] s(2) by (simp add: area)
  then show ?thesis
    using aligned_access_total [OF wf2_demo2, of 3 "0x80FFFFF8" "replicate 8 7"] s(1) by (simp add: area)
qed

text \<open>
  C12. What a store leaves in memory: a load at the same address reads the stored bytes, and a load
  that falls into another area or outside the stored bytes reads what it read before.
\<close>
theorem v2_store_load:
  assumes "ax_store s a bs = Ok s'"
  shows "ax_load s' a (length bs) = Ok bs \<and>
    (area_of b \<noteq> area_of a \<or> snd (ax_map s b) + m \<le> snd (ax_map s a) \<or>
       snd (ax_map s a) + length bs \<le> snd (ax_map s b) \<longrightarrow> ax_load s' b m = ax_load s b m)"
proof -
  have w: "x_write (area_of a) s (snd (ax_map s a)) bs = Ok s'"
    using assms by (simp add: ax_store_def Let_def ax_map_def)
  have m: "ax_map s' = ax_map s" using w by (rule ax_map_frame)
  have "ax_load s' a (length bs) = Ok bs"
    using area_mem.rd_wr [OF w] by (simp add: ax_load_def m) (simp add: ax_map_def Let_def)
  moreover have "ax_load s' b m = ax_load s b m" if "area_of b \<noteq> area_of a"
    using x_read_other_area [OF w that] by (simp add: ax_load_def m) (simp add: ax_map_def Let_def)
  moreover have "ax_load s' b m = ax_load s b m"
    if "area_of b = area_of a" "snd (ax_map s b) + m \<le> snd (ax_map s a) \<or>
      snd (ax_map s a) + length bs \<le> snd (ax_map s b)"
    using area_mem.rd_wr_other [OF w, of "snd (ax_map s b)" m] that
    by (simp add: ax_load_def m) (auto simp: ax_map_def Let_def)
  ultimately show ?thesis by blast
qed

theorem v2_store_load_witness:
  "\<exists>s'. ax_store demo2 0x80000010 [1, 2, 3, 4] = Ok s' \<and> ax_load s' 0x80000010 4 = Ok [1, 2, 3, 4]"
proof -
  obtain s' where s: "ax_store demo2 0x80000010 [1, 2, 3, 4] = Ok s'"
    using x_write_Ok_iff [of A_WRAM demo2 16 "[1, 2, 3, 4]"]
    by (auto simp: ax_store_def ax_map_def Let_def area_of_def)
  show ?thesis using s v2_store_load [OF s] by (simp add: eval_nat_numeral)
qed

end
