(* ===== verification/V2_Core.thy ===== *)
theory V2_Core
  imports V2_Memory AX_Alu
begin

text \<open>
  The execution units of the second version (\<open>core.cpp\<close>): one function per unit, \<open>execute_unit\<close> that
  dispatches on slot and unit, and \<open>AxCore::execute\<close>, which runs one or two words. The build has no
  build type, so that \<open>assert\<close> is active: a failed assertion is the fault \<open>Assert_fail\<close>. A shift of
  a \<open>uint64_t\<close> by 64 or more and a mask \<open>(1 << n) - 1\<close> that an \<open>int\<close> cannot hold are faults.
\<close>

section \<open>Flags and helpers\<close>

definition V2_Z_MASK :: u32 where "V2_Z_MASK = 0x01"
definition V2_N_MASK :: u32 where "V2_N_MASK = 0x04"

lemmas v2_masks = V2_Z_MASK_def V2_N_MASK_def

definition set_gpi :: "nat \<Rightarrow> u64 \<Rightarrow> RegisterSet \<Rightarrow> RegisterSet" where
  "set_gpi i v r = r\<lparr>gpi := (gpi r)[i := v]\<rparr>"

definition set_gpf :: "nat \<Rightarrow> u64 \<Rightarrow> RegisterSet \<Rightarrow> RegisterSet" where
  "set_gpf i v r = r\<lparr>gpf := (gpf r)[i := v]\<rparr>"

definition set_mdu :: "nat \<Rightarrow> u64 \<Rightarrow> RegisterSet \<Rightarrow> RegisterSet" where
  "set_mdu i v r = r\<lparr>mdu := (mdu r)[i := v]\<rparr>"

definition sext :: "u64 \<Rightarrow> nat \<Rightarrow> u64" where
  "sext val from =
     (let bitsize = push_bit from (8 :: nat);
          mask = push_bit (bitsize - 1) (1 :: u64)
      in (val XOR mask) - mask)"

text \<open>\<open>(1 << n) - 1\<close> in \<open>int\<close>.\<close>

definition int_mask :: "nat \<Rightarrow> u64 res" where
  "int_mask n = (if n < 31 then Ok (push_bit n 1 - 1) else if n < 32 then Fault Int_overflow else Fault Shift_range)"

section \<open>Second operands\<close>

definition alu_src2_value :: "u32 \<Rightarrow> nat \<Rightarrow> u64 \<Rightarrow> RegisterSet \<Rightarrow> u64" where
  "alu_src2_value opc reg imm24 r =
     (if \<not> alu_has_imm opc then push_bit (alu_shift opc) (gpi r ! reg)
      else let tmp = alu_imm9 opc;
               tmp' = (if tmp AND 0x100 \<noteq> 0 then tmp OR 0xFFFFFFFFFFFFFF00 else tmp)
           in tmp' XOR push_bit 8 imm24)"

definition lsu_imm_value :: "u32 \<Rightarrow> u64 \<Rightarrow> u64" where
  "lsu_imm_value opc imm24 =
     (let base = lsu_imm10 opc;
          base' = (if base AND 0x200 \<noteq> 0 then base OR 0xFFFFFFFFFFFFFC00 else base)
      in base' XOR push_bit 9 imm24)"

section \<open>Integer unit\<close>

definition v2_compare :: "u64 \<Rightarrow> u64 \<Rightarrow> u32 \<Rightarrow> u32" where
  "v2_compare x y fr =
     (let tmp = x - y;
          fr1 = (if tmp = 0 then fr OR V2_Z_MASK else fr AND (0xFFFFFFFF - V2_Z_MASK))
      in if tmp AND 0x8000000000000000 \<noteq> 0 then fr1 OR V2_N_MASK else fr1 AND (0xFFFFFFFF - V2_N_MASK))"

fun execute_alu2 :: "alu2_op \<Rightarrow> u32 \<Rightarrow> u64 \<Rightarrow> RegisterSet \<Rightarrow> RegisterSet res" where
  "execute_alu2 ALU_MOVEIX opc imm24 r = Ok r"
| "execute_alu2 ALU_EXT opc imm24 r =
     res_bind (int_mask (ext_ins_imm2 opc)) (\<lambda>m.
       Ok (set_gpi (reg_a opc) (drop_bit (ext_ins_imm1 opc) (gpi r ! reg_b opc) AND m) r))"
| "execute_alu2 ALU_INS opc imm24 r =
     res_bind (int_mask (ext_ins_imm2 opc)) (\<lambda>m.
       Ok (set_gpi (reg_a opc)
             (gpi r ! reg_a opc OR (push_bit (ext_ins_imm1 opc) (gpi r ! reg_b opc) AND m)) r))"
| "execute_alu2 ALU_MOVEI opc imm24 r =
     Ok (set_gpi (reg_a opc) (alu_move_imm opc OR push_bit 18 imm24) r)"
| "execute_alu2 ALU_MOVEN opc imm24 r =
     Ok (set_gpi (reg_a opc) ((alu_move_imm opc OR 0xFFFFFFFFFFFC0000) XOR push_bit 18 imm24) r)"
| "execute_alu2 ALU_MOVEUP opc imm24 r =
     Ok (set_gpi (reg_a opc) (push_bit 32 (alu_move_imm opc) OR push_bit 42 imm24) r)"
| "execute_alu2 ALU_SEXT opc imm24 r =
     Ok (set_gpi (reg_a opc) (sext (gpi r ! reg_b opc) (sext_insize opc) AND sizemask (ax_size opc)) r)"
| "execute_alu2 ALU_CMP opc imm24 r =
     Ok (r\<lparr>r_fr := v2_compare (gpi r ! reg_b opc) (gpi r ! reg_c opc) (r_fr r)\<rparr>)"
| "execute_alu2 ALU_ADD opc imm24 r =
     Ok (set_gpi (reg_a opc)
           ((gpi r ! reg_b opc + alu_src2_value opc (reg_c opc) imm24 r) AND sizemask (ax_size opc)) r)"
| "execute_alu2 ALU_SUB opc imm24 r =
     Ok (set_gpi (reg_a opc)
           ((gpi r ! reg_b opc - alu_src2_value opc (reg_c opc) imm24 r) AND sizemask (ax_size opc)) r)"
| "execute_alu2 ALU_XOR opc imm24 r =
     Ok (set_gpi (reg_a opc)
           ((gpi r ! reg_b opc XOR alu_src2_value opc (reg_c opc) imm24 r) AND sizemask (ax_size opc)) r)"
| "execute_alu2 ALU_OR opc imm24 r =
     Ok (set_gpi (reg_a opc)
           ((gpi r ! reg_b opc OR alu_src2_value opc (reg_c opc) imm24 r) AND sizemask (ax_size opc)) r)"
| "execute_alu2 ALU_AND opc imm24 r =
     Ok (set_gpi (reg_a opc)
           ((gpi r ! reg_b opc AND alu_src2_value opc (reg_c opc) imm24 r) AND sizemask (ax_size opc)) r)"
| "execute_alu2 ALU_LSL opc imm24 r =
     res_bind (c_shl (gpi r ! reg_b opc) (alu_src2_value opc (reg_c opc) imm24 r)) (\<lambda>v.
       Ok (set_gpi (reg_a opc) (v AND sizemask (ax_size opc)) r))"
| "execute_alu2 ALU_ASR opc imm24 r =
     res_bind (c_shr (gpi r ! reg_b opc) (alu_src2_value opc (reg_c opc) imm24 r)) (\<lambda>v.
       Ok (set_gpi (reg_a opc) (v AND sizemask (ax_size opc)) r))"
| "execute_alu2 ALU_LSR opc imm24 r =
     res_bind (c_shr (gpi r ! reg_b opc) (alu_src2_value opc (reg_c opc) imm24 r)) (\<lambda>v.
       Ok (set_gpi (reg_a opc) (v AND sizemask (ax_size opc)) r))"
| "execute_alu2 ALU_SE opc imm24 r =
     Ok (set_gpi (reg_a opc) (of_bool (gpi r ! reg_b opc = alu_src2_value opc (reg_c opc) imm24 r)) r)"
| "execute_alu2 ALU_SEN opc imm24 r =
     Ok (set_gpi (reg_a opc) (of_bool (gpi r ! reg_b opc \<noteq> alu_src2_value opc (reg_c opc) imm24 r)) r)"
| "execute_alu2 ALU_SLTS opc imm24 r =
     Ok (set_gpi (reg_a opc)
           (of_bool (sint (gpi r ! reg_b opc) < sint (alu_src2_value opc (reg_c opc) imm24 r))) r)"
| "execute_alu2 ALU_SLTU opc imm24 r =
     Ok (set_gpi (reg_a opc) (of_bool (gpi r ! reg_b opc < alu_src2_value opc (reg_c opc) imm24 r)) r)"
| "execute_alu2 ALU_SAND opc imm24 r =
     Ok (set_gpi (reg_a opc) (gpi r ! reg_b opc AND alu_src2_value opc (reg_c opc) imm24 r) r)"
| "execute_alu2 ALU_CMOVE opc imm24 r =
     Ok (if alu_src2_value opc (reg_c opc) imm24 r \<noteq> 0
         then set_gpi (reg_a opc) (gpi r ! reg_b opc AND sizemask (ax_size opc)) r else r)"
| "execute_alu2 ALU_CMOVEN opc imm24 r =
     Ok (if alu_src2_value opc (reg_c opc) imm24 r = 0
         then set_gpi (reg_a opc) (gpi r ! reg_b opc AND sizemask (ax_size opc)) r else r)"
| "execute_alu2 _ opc imm24 r = Fault Assert_fail"

section \<open>Multiplication and division\<close>

text \<open>The registers of \<open>mdu\<close> are Q, QR, PL and PH.\<close>

fun execute_mdu2 :: "mdu2_op \<Rightarrow> u32 \<Rightarrow> u64 \<Rightarrow> RegisterSet \<Rightarrow> RegisterSet res" where
  "execute_mdu2 MDU_DIV opc imm24 r =
     (let x = gpi r ! reg_b opc; y = alu_src2_value opc (reg_c opc) imm24 r
      in if y = 0 then Fault Div_zero
         else Ok (set_mdu 1 ((x mod y) AND sizemask (ax_size opc))
                   (set_mdu 0 ((x div y) AND sizemask (ax_size opc)) r)))"
| "execute_mdu2 MDU_DIVU opc imm24 r =
     (let x = gpi r ! reg_b opc; y = alu_src2_value opc (reg_c opc) imm24 r
      in if y = 0 then Fault Div_zero
         else Ok (set_mdu 1 ((x mod y) AND sizemask (ax_size opc))
                   (set_mdu 0 ((x div y) AND sizemask (ax_size opc)) r)))"
| "execute_mdu2 MDU_MUL opc imm24 r =
     Ok (set_mdu 2 ((gpi r ! reg_b opc * alu_src2_value opc (reg_c opc) imm24 r) AND sizemask (ax_size opc)) r)"
| "execute_mdu2 MDU_MULU opc imm24 r =
     Ok (set_mdu 2 ((gpi r ! reg_b opc * alu_src2_value opc (reg_c opc) imm24 r) AND sizemask (ax_size opc)) r)"
| "execute_mdu2 MDU_MOVETO opc imm24 r = Ok (set_gpi (reg_a opc) (mdu r ! mdu_pq opc) r)"
| "execute_mdu2 MDU_MOVEFROM opc imm24 r = Ok (set_mdu (mdu_pq opc) (gpi r ! reg_b opc) r)"
| "execute_mdu2 MDU_UNK opc imm24 r = Fault Assert_fail"

section \<open>Load and store\<close>

text \<open>\<open>do_load\<close> and \<open>do_store\<close> between memory and the low bytes of a register.\<close>

definition load_gpi :: "nat \<Rightarrow> u64 \<Rightarrow> nat \<Rightarrow> AxCore \<Rightarrow> AxCore res" where
  "load_gpi i addr n s =
     res_bind (ax_load s addr n) (\<lambda>bs.
       Ok (s\<lparr>m_regs := set_gpi i (poke64 bs (gpi (m_regs s) ! i)) (m_regs s)\<rparr>))"

definition load_gpf :: "nat \<Rightarrow> u64 \<Rightarrow> nat \<Rightarrow> AxCore \<Rightarrow> AxCore res" where
  "load_gpf i addr n s =
     res_bind (ax_load s addr n) (\<lambda>bs.
       Ok (s\<lparr>m_regs := set_gpf i (poke64 bs (gpf (m_regs s) ! i)) (m_regs s)\<rparr>))"

definition store_gpi :: "nat \<Rightarrow> u64 \<Rightarrow> nat \<Rightarrow> AxCore \<Rightarrow> AxCore res" where
  "store_gpi i addr n s = ax_store s addr (bytes_of n (gpi (m_regs s) ! i))"

definition store_gpf :: "nat \<Rightarrow> u64 \<Rightarrow> nat \<Rightarrow> AxCore \<Rightarrow> AxCore res" where
  "store_gpf i addr n s = ax_store s addr (bytes_of n (gpf (m_regs s) ! i))"

definition lsu_addr_reg :: "u32 \<Rightarrow> RegisterSet \<Rightarrow> u64" where
  "lsu_addr_reg opc r = gpi r ! reg_b opc + push_bit (lsu_shift opc) (gpi r ! reg_c opc)"

definition lsu_addr_imm :: "u32 \<Rightarrow> u64 \<Rightarrow> RegisterSet \<Rightarrow> u64" where
  "lsu_addr_imm opc imm24 r = gpi r ! reg_b opc + lsu_imm_value opc imm24"

definition lsu_addr_sp :: "u32 \<Rightarrow> u64 \<Rightarrow> RegisterSet \<Rightarrow> u64" where
  "lsu_addr_sp opc imm24 r = gpi r ! 0 + (lsu_imm16 opc XOR push_bit 16 imm24)"

text \<open>There is no case for the last four operations, and no default.\<close>

fun execute_lsu2 :: "lsu2_op \<Rightarrow> u32 \<Rightarrow> u64 \<Rightarrow> AxCore \<Rightarrow> AxCore res" where
  "execute_lsu2 LSU_LD opc imm24 s =
     load_gpi (reg_a opc) (lsu_addr_reg opc (m_regs s)) (push_bit (ax_size opc) 1) s"
| "execute_lsu2 LSU_ST opc imm24 s =
     store_gpi (reg_a opc) (lsu_addr_reg opc (m_regs s)) (push_bit (ax_size opc) 1) s"
| "execute_lsu2 LSU_FLD opc imm24 s =
     load_gpf (reg_a opc) (lsu_addr_reg opc (m_regs s)) (push_bit (ax_size opc) 1) s"
| "execute_lsu2 LSU_FST opc imm24 s =
     store_gpf (reg_a opc) (lsu_addr_reg opc (m_regs s)) (push_bit (ax_size opc) 1) s"
| "execute_lsu2 LSU_LDI opc imm24 s =
     load_gpi (reg_a opc) (lsu_addr_imm opc imm24 (m_regs s)) (push_bit (ax_size opc) 1) s"
| "execute_lsu2 LSU_STI opc imm24 s =
     store_gpi (reg_a opc) (lsu_addr_imm opc imm24 (m_regs s)) (push_bit (ax_size opc) 1) s"
| "execute_lsu2 LSU_FLDI opc imm24 s =
     load_gpf (reg_a opc) (lsu_addr_imm opc imm24 (m_regs s)) (push_bit (ax_size opc) 1) s"
| "execute_lsu2 LSU_FSTI opc imm24 s =
     store_gpf (reg_a opc) (lsu_addr_imm opc imm24 (m_regs s)) (push_bit (ax_size opc) 1) s"
| "execute_lsu2 LSU_LDSP opc imm24 s =
     load_gpi (reg_a opc) (lsu_addr_sp opc imm24 (m_regs s)) (push_bit (ax_size opc) 1) s"
| "execute_lsu2 LSU_STSP opc imm24 s =
     store_gpi (reg_a opc) (lsu_addr_sp opc imm24 (m_regs s)) (push_bit (ax_size opc) 1) s"
| "execute_lsu2 LSU_FLDSP opc imm24 s =
     load_gpf (reg_a opc) (lsu_addr_sp opc imm24 (m_regs s)) (push_bit (ax_size opc) 1) s"
| "execute_lsu2 LSU_FSTSP opc imm24 s =
     store_gpf (reg_a opc) (lsu_addr_sp opc imm24 (m_regs s)) (push_bit (ax_size opc) 1) s"
| "execute_lsu2 _ opc imm24 s = Ok s"

section \<open>Branches\<close>

text \<open>The offset or target: 24 bits of the word, 24 more of a \<open>MOVEIX\<close>, cut to the \<open>pc\<close>.\<close>

definition bru_imm :: "u32 \<Rightarrow> u64 \<Rightarrow> u32" where
  "bru_imm opc imm24 = ucast (bru_imm24 opc OR push_bit 24 imm24)"

definition jump_if :: "bool \<Rightarrow> u32 \<Rightarrow> RegisterSet \<Rightarrow> RegisterSet" where
  "jump_if b off r = (if b then r\<lparr>r_pc := r_pc r + off\<rparr> else r)"

definition return_pc :: "u32 \<Rightarrow> RegisterSet \<Rightarrow> u32" where
  "return_pc opc r = r_pc r + 1 + of_bool (is_package opc)"

text \<open>\<open>execute_bru_other\<close>; \<open>CALLBR\<close> falls through into the failing assertion.\<close>

definition execute_bru_other :: "u32 \<Rightarrow> AxCore \<Rightarrow> AxCore res" where
  "execute_bru_other idx s =
     (let r = m_regs s
      in if idx = BRU_OTHER_JUMPBR_ID then Ok (s\<lparr>m_regs := r\<lparr>r_pc := r_br r\<rparr>\<rparr>)
         else if idx = BRU_OTHER_RET_ID then Ok (s\<lparr>m_regs := r\<lparr>r_pc := r_lr r\<rparr>\<rparr>)
         else if idx = BRU_OTHER_RETI_ID then Ok (s\<lparr>m_regs := r\<lparr>r_pc := r_ir r\<rparr>\<rparr>)
         else if idx = BRU_OTHER_SYSCALL_ID
         then Ok (s\<lparr>m_regs := r\<lparr>r_ir := r_pc r, r_pc := 0x80000000\<rparr>, m_syscall := 1\<rparr>)
         else Fault Assert_fail)"

fun execute_bru2 :: "bru2_op \<Rightarrow> u32 \<Rightarrow> u64 \<Rightarrow> RegisterSet \<Rightarrow> RegisterSet" where
  "execute_bru2 BRU_BNE opc imm24 r = jump_if (r_fr r AND V2_Z_MASK \<noteq> 0) (bru_imm opc imm24) r"
| "execute_bru2 BRU_BEQ opc imm24 r = jump_if (r_fr r AND V2_Z_MASK = 0) (bru_imm opc imm24) r"
| "execute_bru2 BRU_BL opc imm24 r = jump_if (r_fr r AND V2_N_MASK \<noteq> 0) (bru_imm opc imm24) r"
| "execute_bru2 BRU_BLE opc imm24 r =
     jump_if (r_fr r AND (V2_Z_MASK OR V2_N_MASK) \<noteq> 0) (bru_imm opc imm24) r"
| "execute_bru2 BRU_BG opc imm24 r = jump_if (r_fr r AND V2_N_MASK = 0) (bru_imm opc imm24) r"
| "execute_bru2 BRU_BGE opc imm24 r =
     jump_if (r_fr r AND (V2_Z_MASK OR V2_N_MASK) = 0) (bru_imm opc imm24) r"
| "execute_bru2 BRU_BLS opc imm24 r = jump_if (r_fr r AND V2_Z_MASK \<noteq> 0) (bru_imm opc imm24) r"
| "execute_bru2 BRU_BLES opc imm24 r = jump_if (r_fr r AND V2_Z_MASK \<noteq> 0) (bru_imm opc imm24) r"
| "execute_bru2 BRU_BGS opc imm24 r = jump_if (r_fr r AND V2_Z_MASK \<noteq> 0) (bru_imm opc imm24) r"
| "execute_bru2 BRU_BGES opc imm24 r = jump_if (r_fr r AND V2_Z_MASK \<noteq> 0) (bru_imm opc imm24) r"
| "execute_bru2 BRU_BRA opc imm24 r = jump_if True (bru_imm opc imm24) r"
| "execute_bru2 BRU_LOOP opc imm24 r =
     (if r_lc r = 0 then jump_if True (bru_imm opc imm24) r else r\<lparr>r_lc := r_lc r - 1\<rparr>)"
| "execute_bru2 BRU_JUMP opc imm24 r = r\<lparr>r_pc := bru_imm opc imm24\<rparr>"
| "execute_bru2 BRU_CALL opc imm24 r = r\<lparr>r_lr := return_pc opc r, r_pc := bru_imm opc imm24\<rparr>"
| "execute_bru2 BRU_CALLR opc imm24 r =
     r\<lparr>r_lr := return_pc opc r, r_pc := r_pc r + bru_imm opc imm24\<rparr>"
| "execute_bru2 BRU_OTHER opc imm24 r = r"

section \<open>Dispatch\<close>

text \<open>
  \<open>issue\<close> is the slot in bit 3 and the unit below it. The units FPU, EFU, CU and VU are assertions
  that fail; so are unit 4 and, in the second slot, unit 7.
\<close>

definition lift_regs :: "RegisterSet res \<Rightarrow> AxCore \<Rightarrow> AxCore res" where
  "lift_regs r s = res_bind r (\<lambda>r'. Ok (s\<lparr>m_regs := r'\<rparr>))"

definition execute_bru :: "u32 \<Rightarrow> u64 \<Rightarrow> AxCore \<Rightarrow> AxCore res" where
  "execute_bru opc imm24 s =
     (if bru2_of opc = BRU_OTHER then execute_bru_other (bru_other_index opc) s
      else Ok (s\<lparr>m_regs := execute_bru2 (bru2_of opc) opc imm24 (m_regs s)\<rparr>))"

definition clear_zero :: "AxCore \<Rightarrow> AxCore" where
  "clear_zero s = s\<lparr>m_regs := set_gpf REG_ZERO 0 (set_gpi REG_ZERO 0 (m_regs s))\<rparr>"

definition execute_unit :: "u32 \<Rightarrow> u32 \<Rightarrow> u64 \<Rightarrow> AxCore \<Rightarrow> AxCore res" where
  "execute_unit opc slot imm24 s0 =
     (let s = clear_zero s0;
          issue = push_bit 3 slot OR ax_unit opc
      in if issue = 0 \<or> issue = 1 \<or> issue = 8 \<or> issue = 9
         then lift_regs (execute_alu2 (alu2_of opc) opc imm24 (m_regs s)) s
         else if issue = 2 \<or> issue = 10 then execute_lsu2 (lsu2_of opc) opc imm24 s
         else if issue = 6 then lift_regs (execute_mdu2 (mdu2_of opc) opc imm24 (m_regs s)) s
         else if issue = 7 then execute_bru opc imm24 s
         else Fault Assert_fail)"

text \<open>\<open>AxCore::execute\<close>: the number of words to step over, 0 after a jump.\<close>

definition ax_execute :: "u32 \<Rightarrow> u32 \<Rightarrow> AxCore \<Rightarrow> (u32 \<times> AxCore) res" where
  "ax_execute first second s =
     (let old_pc = r_pc (m_regs s);
          imm24 = (if is_package first \<and> is_moveix second then moveix_imm24 second else 0)
      in res_bind (execute_unit first 0 imm24 s) (\<lambda>s1.
         res_bind (if is_package first \<and> \<not> is_moveix second then execute_unit second 1 imm24 s1 else Ok s1) (\<lambda>s2.
         Ok (if old_pc \<noteq> r_pc (m_regs s2) then 0 else if is_package first then 2 else 1, s2))))"

section \<open>What is kept\<close>

text \<open>Every unit keeps the shape of the state, its blocks' sizes, the error code and the output.\<close>

definition regs_wf :: "RegisterSet \<Rightarrow> bool" where
  "regs_wf r \<longleftrightarrow> length (gpi r) = 64 \<and> length (gpf r) = 64 \<and> length (mdu r) = 4"

lemma regs_wf_set [simp]:
  "regs_wf (set_gpi i v r) = regs_wf r" "regs_wf (set_gpf i v r) = regs_wf r"
  "regs_wf (set_mdu i v r) = regs_wf r" "regs_wf (r\<lparr>r_pc := p\<rparr>) = regs_wf r"
  "regs_wf (r\<lparr>r_fr := p\<rparr>) = regs_wf r" "regs_wf (r\<lparr>r_lr := p\<rparr>) = regs_wf r"
  "regs_wf (r\<lparr>r_lc := p\<rparr>) = regs_wf r" "regs_wf (r\<lparr>r_ir := p\<rparr>) = regs_wf r"
  "regs_wf (r\<lparr>r_cc := p\<rparr>) = regs_wf r" "regs_wf (r\<lparr>r_ic := p\<rparr>) = regs_wf r"
  by (simp_all add: regs_wf_def set_gpi_def set_gpf_def set_mdu_def)

definition ax_keeps :: "AxCore \<Rightarrow> AxCore \<Rightarrow> bool" where
  "ax_keeps s s' \<longleftrightarrow> (wf2 s \<longrightarrow> wf2 s') \<and> m_error s' = m_error s \<and>
     (\<forall>a. bsize (blocks s' a) = bsize (blocks s a)) \<and> (\<forall>a. area_mask s' a = area_mask s a)"

lemma ax_keeps_refl [simp]: "ax_keeps s s"
  by (simp add: ax_keeps_def)

lemma ax_keeps_trans: "ax_keeps a b \<Longrightarrow> ax_keeps b c \<Longrightarrow> ax_keeps a c"
  by (simp add: ax_keeps_def)

lemma area_mask_more [simp]:
  "area_mask (s\<lparr>m_regs := r\<rparr>) a = area_mask s a" "area_mask (s\<lparr>m_syscall := x\<rparr>) a = area_mask s a"
  "area_mask (s\<lparr>x_out := ys\<rparr>) a = area_mask s a"
  by (cases a; simp)+

lemma ax_keeps_regs: "(regs_wf (m_regs s) \<Longrightarrow> regs_wf r) \<Longrightarrow> ax_keeps s (s\<lparr>m_regs := r\<rparr>)"
  by (simp add: ax_keeps_def wf2_def regs_wf_def)

lemma ax_keeps_syscall: "ax_keeps s s' \<Longrightarrow> ax_keeps s (s'\<lparr>m_syscall := x\<rparr>)"
  by (simp add: ax_keeps_def wf2_def)

lemma ax_keeps_out: "ax_keeps s s' \<Longrightarrow> ax_keeps s (s'\<lparr>x_out := ys\<rparr>)"
  by (simp add: ax_keeps_def wf2_def)

lemma ax_keeps_store: "ax_store s addr bs = Ok s' \<Longrightarrow> ax_keeps s s'"
  using x_write_frame ax_store_frame by (auto simp: ax_keeps_def ax_store_def Let_def ax_map_def)

lemma execute_alu2_wf: "execute_alu2 op opc imm24 r = Ok r' \<Longrightarrow> regs_wf r' = regs_wf r"
  by (cases op) (auto simp: res_bind_eq_Ok split: if_splits)

lemma execute_mdu2_wf: "execute_mdu2 op opc imm24 r = Ok r' \<Longrightarrow> regs_wf r' = regs_wf r"
  by (cases op) (auto simp: Let_def split: if_splits)

lemma execute_bru2_wf: "regs_wf (execute_bru2 op opc imm24 r) = regs_wf r"
  by (cases op) (auto simp: jump_if_def)

lemma execute_lsu2_keeps: "execute_lsu2 op opc imm24 s = Ok s' \<Longrightarrow> ax_keeps s s'"
  by (cases op)
    (auto simp: load_gpi_def load_gpf_def store_gpi_def store_gpf_def res_bind_eq_Ok
      intro: ax_keeps_regs ax_keeps_store)

lemma execute_bru_keeps: "execute_bru opc imm24 s = Ok s' \<Longrightarrow> ax_keeps s s'"
  by (auto simp: execute_bru_def execute_bru_other_def Let_def execute_bru2_wf
      intro!: ax_keeps_regs ax_keeps_syscall split: if_splits)

lemma clear_zero_keeps: "ax_keeps s (clear_zero s)"
  by (simp add: clear_zero_def ax_keeps_regs)

lemma execute_unit_keeps:
  assumes "execute_unit opc slot imm24 s = Ok s'"
  shows "ax_keeps s s'"
proof (rule ax_keeps_trans [OF clear_zero_keeps])
  from assms show "ax_keeps (clear_zero s) s'"
    unfolding execute_unit_def Let_def lift_regs_def
    by (auto simp: res_bind_eq_Ok execute_alu2_wf execute_mdu2_wf split: if_splits
        intro: ax_keeps_regs execute_lsu2_keeps execute_bru_keeps)
qed

lemma ax_execute_keeps: "ax_execute first second s = Ok (n, s') \<Longrightarrow> ax_keeps s s'"
  by (auto simp: ax_execute_def Let_def res_bind_eq_Ok split: if_splits
      intro: execute_unit_keeps ax_keeps_trans)

section \<open>Values of operands\<close>

lemma xor_above:
  fixes a b :: u64
  assumes "a = take_bit k a"
  shows "a XOR push_bit k b = a + push_bit k b"
proof -
  have "a AND push_bit k b = 0"
    by (subst assms, rule bit_word_eqI) (auto simp: bit_simps)
  then show ?thesis by (simp add: disjunctive_add_eq_xor)
qed

lemma xor_above_not:
  fixes a b :: u64
  assumes "a = take_bit k a"
  shows "NOT a XOR push_bit k b = NOT (a + push_bit k b)"
  unfolding xor_above [OF assms, symmetric] by (rule bit_word_eqI) (auto simp: bit_simps)

text \<open>An immediate of \<open>k + 1\<close> bits, sign-extended and then extended by \<open>x\<close> from bit \<open>k\<close> on.\<close>

definition imm_value :: "nat \<Rightarrow> u64 \<Rightarrow> u64 \<Rightarrow> int" where
  "imm_value k base x =
     (if bit base k then - (2 ^ k * uint x + 2 ^ k - uint (take_bit k base)) else 2 ^ k * uint x + uint (take_bit k base))"

lemma sint_below: "uint w < 2 ^ 63 \<Longrightarrow> sint w = uint w" for w :: u64
  by (simp add: sint_uint signed_take_bit_int_eq_self_iff order_trans [OF _ uint_ge_0])

lemma sint_NOT: "sint (NOT w) = - sint w - 1" for w :: u64
proof -
  have "- (2 ^ 63) \<le> sint w" "sint w < 2 ^ 63"
    using sint_greater_eq [of w] sint_less [of w] by simp_all
  then have "signed_take_bit 64 (NOT (sint w)) = NOT (sint w)"
    by (intro signed_take_bit_int_eq_self) (simp_all add: not_int_def)
  then show ?thesis by (simp add: signed_not_eq not_int_def)
qed

lemma sint_imm:
  assumes base: "base = take_bit (Suc k) base" and x: "uint x < 2 ^ 24" and k: "k \<le> 18"
  shows "sint ((if bit base k then base OR NOT (mask (Suc k)) else base) XOR push_bit k x) = imm_value k base x"
proof -
  let ?lo = "take_bit k base"
  have small: "2 ^ k * uint x + 2 ^ k \<le> 2 ^ 18 * 2 ^ 24"
  proof -
    have "2 ^ k * (uint x + 1) \<le> 2 ^ 18 * 2 ^ 24" using x k
      by (intro mult_mono power_increasing) auto
    then show ?thesis by (simp add: algebra_simps)
  qed
  have pos: "(0 :: int) < 2 ^ k" by simp
  have p: "uint (push_bit k x) = 2 ^ k * uint x"
  proof -
    have "push_bit k (uint x) = 2 ^ k * uint x" by (simp add: push_bit_eq_mult mult.commute)
    moreover have "take_bit 64 (2 ^ k * uint x) = 2 ^ k * uint x"
      by (rule take_bit_int_eq_self) (use small pos in \<open>simp_all, linarith\<close>)
    ultimately show ?thesis by (simp only: unsigned_push_bit_eq) simp
  qed
  have sum: "sint (a + push_bit k x) = uint a + 2 ^ k * uint x" if "a = take_bit k a" for a
  proof -
    have "uint a < 2 ^ k" by (subst that) (simp add: unsigned_take_bit_eq)
    then have "uint (a + push_bit k x) = uint a + 2 ^ k * uint x"
      using small p by (simp add: uint_word_ariths)
    then show ?thesis using small \<open>uint a < 2 ^ k\<close> by (subst sint_below) simp_all
  qed
  show ?thesis
  proof (cases "bit base k")
    case False
    have "bit base n \<Longrightarrow> n < k" for n
      using base False by (metis bit_take_bit_iff less_Suc_eq)
    then have lo: "base = ?lo" by (intro bit_word_eqI) (auto simp: bit_take_bit_iff)
    then show ?thesis using False xor_above [OF lo, of x] sum [OF lo] by (simp add: imm_value_def)
  next
    case True
    let ?n = "take_bit k (NOT base)"
    have n: "?n = take_bit k ?n" by simp
    have "base OR NOT (mask (Suc k)) = NOT ?n"
      by (rule bit_word_eqI) (use True in \<open>auto simp: bit_simps less_Suc_eq\<close>)
    then have "(base OR NOT (mask (Suc k))) XOR push_bit k x = NOT (?n + push_bit k x)"
      using xor_above_not [OF n] by simp
    moreover have "uint ?n = 2 ^ k - 1 - uint ?lo"
    proof -
      have "uint ?n = take_bit k (NOT (uint base))"
        using k by (simp add: unsigned_take_bit_eq unsigned_not_eq min_def)
      then show ?thesis
        by (simp add: take_bit_not_eq_mask_diff mask_eq_exp_minus_1 unsigned_take_bit_eq)
    qed
    ultimately show ?thesis using True sum [OF n] by (simp add: imm_value_def sint_NOT)
  qed
qed

lemma imm9_bits: "alu_imm9 opc = take_bit (Suc 8) (alu_imm9 opc)"
  and imm10_bits: "lsu_imm10 opc = take_bit (Suc 9) (lsu_imm10 opc)"
proof -
  have "x AND 0x1FF = take_bit 9 x" "x AND 0x3FF = take_bit 10 x" for x :: u32
    by (simp_all add: take_bit_eq_mask mask_eq_exp_minus_1)
  then show "alu_imm9 opc = take_bit (Suc 8) (alu_imm9 opc)" "lsu_imm10 opc = take_bit (Suc 9) (lsu_imm10 opc)"
    by (simp_all add: alu_imm9_def lsu_imm10_def) (rule bit_word_eqI; auto simp: bit_simps)+
qed

lemma sign_bit_test:
  "x AND 0x100 \<noteq> 0 \<longleftrightarrow> bit x 8" "x AND 0x200 \<noteq> 0 \<longleftrightarrow> bit x 9" for x :: u64
  using and_exp_eq_0_iff_not_bit [of x 8] and_exp_eq_0_iff_not_bit [of x 9] by simp_all

lemma sign_fill:
  "bit x 8 \<Longrightarrow> x OR 0xFFFFFFFFFFFFFF00 = x OR NOT (mask (Suc 8))"
  "x OR 0xFFFFFFFFFFFFFC00 = x OR NOT (mask (Suc 9))" for x :: u64
proof -
  have m: "(0xFFFFFFFFFFFFFF00 :: u64) = NOT (mask 8)" "(0xFFFFFFFFFFFFFC00 :: u64) = NOT (mask 10)"
    by (simp_all add: mask_eq_exp_minus_1)
  show "bit x 8 \<Longrightarrow> x OR 0xFFFFFFFFFFFFFF00 = x OR NOT (mask (Suc 8))" unfolding m
  proof (rule bit_word_eqI)
    fix n assume "bit x 8" "n < LENGTH(64)"
    then show "bit (x OR NOT (mask 8)) n = bit (x OR NOT (mask (Suc 8))) n"
      by (cases "n = 8") (auto simp: bit_simps)
  qed
  show "x OR 0xFFFFFFFFFFFFFC00 = x OR NOT (mask (Suc 9))" unfolding m by simp
qed

text \<open>
  C19. Immediate operands. An ALU immediate of nine bits, or a load/store offset of ten, is sign-extended
  and then, with the 24 bits of a \<open>MOVEIX\<close>, extended: its low bits stay, the new bits come above them,
  inverted for a negative number, so that every number of 33 (34) bits has exactly one such form.
\<close>
theorem v2_immediates:
  assumes "uint imm24 < 2 ^ 24"
  shows "(alu_has_imm opc \<longrightarrow> sint (alu_src2_value opc reg imm24 r) = imm_value 8 (alu_imm9 opc) imm24) \<and>
    sint (lsu_imm_value opc imm24) = imm_value 9 (lsu_imm10 opc) imm24"
  using sint_imm [OF imm9_bits assms, of opc] sint_imm [OF imm10_bits assms, of opc]
  by (simp add: alu_src2_value_def lsu_imm_value_def Let_def sign_bit_test sign_fill split: if_splits)

theorem v2_immediates_witness:
  "sint (lsu_imm_value 0x000FFC00 0x000001) = imm_value 9 0x3FF 1"
  using v2_immediates [of "0x000001" "0x000FFC00" undefined undefined] by (simp add: lsu_imm10_def)

section \<open>Comparison and sign extension\<close>

lemma compare_flags2:
  "v2_compare x y fr AND V2_Z_MASK \<noteq> 0 \<longleftrightarrow> x = y"
  "v2_compare x y fr AND V2_N_MASK \<noteq> 0 \<longleftrightarrow> bit (x - y) 63"
  "v2_compare x y fr AND (V2_Z_MASK OR V2_N_MASK) \<noteq> 0 \<longleftrightarrow> x = y \<or> bit (x - y) 63"
proof -
  have s: "w AND 0x8000000000000000 \<noteq> 0 \<longleftrightarrow> bit w 63" for w :: u64
    using and_exp_eq_0_iff_not_bit [of w 63] by simp
  have b: "w AND 1 \<noteq> 0 \<longleftrightarrow> bit w 0" "w AND 4 \<noteq> 0 \<longleftrightarrow> bit w 2" for w :: u32
    using and_exp_eq_0_iff_not_bit [of w 0] and_exp_eq_0_iff_not_bit [of w 2] by simp_all
  have m: "(0xFFFFFFFF - V2_Z_MASK) = NOT V2_Z_MASK" "(0xFFFFFFFF - V2_N_MASK) = NOT V2_N_MASK"
    by (simp_all add: v2_masks)
  have bz: "bit V2_Z_MASK n \<longleftrightarrow> n = 0" "bit V2_N_MASK n \<longleftrightarrow> n = 2" for n
    using bit_exp_iff [of 0 n, where 'a = u32] bit_exp_iff [of 2 n, where 'a = u32]
    by (auto simp: v2_masks)
  have z: "bit (v2_compare x y fr) 0 \<longleftrightarrow> x = y" and n: "bit (v2_compare x y fr) 2 \<longleftrightarrow> bit (x - y) 63"
    by (auto simp: v2_compare_def Let_def s m bit_simps bz)
  show Z: "v2_compare x y fr AND V2_Z_MASK \<noteq> 0 \<longleftrightarrow> x = y" using z by (simp add: v2_masks b)
  show N: "v2_compare x y fr AND V2_N_MASK \<noteq> 0 \<longleftrightarrow> bit (x - y) 63" using n by (simp add: v2_masks b)
  have "w AND (V2_Z_MASK OR V2_N_MASK) \<noteq> 0 \<longleftrightarrow> w AND V2_Z_MASK \<noteq> 0 \<or> w AND V2_N_MASK \<noteq> 0" for w
    by (simp only: and.assoc bit.conj_disj_distrib or_eq_0_iff) blast
  with Z N show "v2_compare x y fr AND (V2_Z_MASK OR V2_N_MASK) \<noteq> 0 \<longleftrightarrow> x = y \<or> bit (x - y) 63" by blast
qed

lemmas compare_eq_0 = compare_flags2 [THEN arg_cong [where f = Not], unfolded not_not]

lemma bit_sub_sign:
  fixes x y :: u64
  assumes "- (2 ^ 63) \<le> sint x - sint y" and "sint x - sint y < 2 ^ 63"
  shows "bit (x - y) 63 \<longleftrightarrow> sint x < sint y"
proof -
  have "sint (x - y) = sint x - sint y"
    using assms by (simp add: sint_word_ariths signed_take_bit_int_eq_self)
  moreover have "bit (x - y) 63 \<longleftrightarrow> sint (x - y) < 0"
    using bit_last_iff [of "x - y"] by simp
  ultimately show ?thesis by simp
qed

text \<open>
  C13. Where each conditional branch goes after \<open>CMP\<close> of \<open>x\<close> with \<open>y\<close>. \<open>BNE\<close> and \<open>BEQ\<close> are swapped, so are
  \<open>BG\<close> and \<open>BGE\<close>; the four branches for the other signedness all test for equality. \<open>BL\<close> and \<open>BLE\<close>
  go by the sign of the difference, which is the signed order unless the difference overflows.
\<close>
theorem v2_branch_after_compare:
  "(let r' = r\<lparr>r_fr := v2_compare x y (r_fr r)\<rparr>;
        t = (\<lambda>b. r_pc (execute_bru2 b opc imm24 r'));
        go = (\<lambda>p. if p then r_pc r + bru_imm opc imm24 else r_pc r);
        less = bit (x - y) 63
    in t BRU_BNE = go (x = y) \<and> t BRU_BEQ = go (x \<noteq> y) \<and> t BRU_BL = go less \<and>
       t BRU_BLE = go (less \<or> x = y) \<and> t BRU_BG = go (\<not> less) \<and> t BRU_BGE = go (\<not> less \<and> x \<noteq> y) \<and>
       t BRU_BLS = go (x = y) \<and> t BRU_BLES = go (x = y) \<and> t BRU_BGS = go (x = y) \<and> t BRU_BGES = go (x = y) \<and>
       (- (2 ^ 63) \<le> sint x - sint y \<and> sint x - sint y < 2 ^ 63 \<longrightarrow> less = (sint x < sint y)))"
  using bit_sub_sign [of x y] by (simp add: Let_def jump_if_def compare_eq_0 v2_masks [symmetric])

theorem v2_branch_after_compare_witness:
  "r_pc (execute_bru2 BRU_BL 0x00000AE4 0 (regs_zero\<lparr>r_fr := v2_compare 3 5 0\<rparr>)) = 10"
  using v2_branch_after_compare [of 3 5 regs_zero "0x00000AE4" 0]
  by (simp add: Let_def regs_zero_def bru_imm_def bru_imm24_def)

lemma xor_sub_exp:
  assumes "n < 64" and "v = take_bit (Suc n) v"
  shows "(v XOR push_bit n 1) - push_bit n 1 = signed_take_bit n (v :: u64)"
proof (cases "bit v n")
  case False
  have "v AND push_bit n 1 = 0" using False by (intro bit_word_eqI) (auto simp: bit_simps)
  then have "v XOR push_bit n 1 = v + push_bit n 1" by (simp add: disjunctive_add_eq_xor)
  then show ?thesis using False assms(2) by (simp add: signed_take_bit_code Let_def)
next
  case True
  have "(v XOR push_bit n 1) AND push_bit n 1 = 0" using True by (intro bit_word_eqI) (auto simp: bit_simps)
  then have "(v XOR push_bit n 1) + push_bit n 1 = (v XOR push_bit n 1) XOR push_bit n 1"
    by (simp add: disjunctive_add_eq_xor)
  then have "v XOR push_bit n 1 = v - push_bit n 1" by (simp add: xor.assoc eq_diff_eq)
  moreover have "push_bit (Suc n) (- 1) = - push_bit n (1 :: u64) - push_bit n 1"
    by (simp add: push_bit_eq_mult)
  ultimately show ?thesis using True assms(2) by (simp add: signed_take_bit_code Let_def)
qed

text \<open>
  \<open>sext\<close> is sign extension for every value of every width, the most negative one included.
\<close>
theorem sext_correct:
  assumes "n \<le> 3" and "uint v < 2 ^ (8 * 2 ^ n)"
  shows "sext v n = signed_take_bit (8 * 2 ^ n - 1) v"
proof -
  have "v = take_bit (8 * 2 ^ n) v" using assms(2)
    by (metis take_bit_int_eq_self uint_nonnegative unsigned_take_bit_eq word_uint_eq_iff)
  moreover have "8 * 2 ^ n = Suc (8 * 2 ^ n - 1)" by simp
  moreover have "n = 0 \<or> n = 1 \<or> n = 2 \<or> n = 3" using assms(1) by auto
  then have "8 * 2 ^ n - 1 < (64 :: nat)" by auto
  ultimately show ?thesis using xor_sub_exp [of "8 * 2 ^ n - 1" v]
    by (simp add: sext_def Let_def push_bit_eq_mult)
qed

theorem sext_correct_witness: "sext 0x80 0 = signed_take_bit 7 (0x80 :: u64)"
  using sext_correct [of 0 "0x80"] by simp

section \<open>Program counter\<close>

lemma set_regs_pc [simp]:
  "r_pc (set_gpi i v r) = r_pc r" "r_pc (set_gpf i v r) = r_pc r" "r_pc (set_mdu i v r) = r_pc r"
  by (simp_all add: set_gpi_def set_gpf_def set_mdu_def)

lemma execute_alu2_pc: "execute_alu2 op opc imm24 r = Ok r' \<Longrightarrow> r_pc r' = r_pc r"
  by (cases op) (auto simp: res_bind_eq_Ok split: if_splits)

lemma execute_mdu2_pc: "execute_mdu2 op opc imm24 r = Ok r' \<Longrightarrow> r_pc r' = r_pc r"
  by (cases op) (auto simp: Let_def split: if_splits)

lemma execute_lsu2_pc: "execute_lsu2 op opc imm24 s = Ok s' \<Longrightarrow> r_pc (m_regs s') = r_pc (m_regs s)"
  by (cases op)
    (auto simp: load_gpi_def load_gpf_def store_gpi_def store_gpf_def res_bind_eq_Ok ax_store_frame)

lemma clear_zero_pc [simp]: "r_pc (m_regs (clear_zero s)) = r_pc (m_regs s)"
  by (simp add: clear_zero_def)

text \<open>The number of the unit, as the index \<open>issue\<close> of the dispatch.\<close>

lemma ax_unit_cases: "ax_unit v \<in> {0, 1, 2, 3, 4, 5, 6, 7}"
proof -
  have "unat (ax_unit v) < 8"
    using unat_mono [OF and_less [of "0x07" "8" "drop_bit 5 v"]] by (simp add: ax_unit_def)
  then have "unat (ax_unit v) \<in> {0, 1, 2, 3, 4, 5, 6, 7}" by auto
  then show ?thesis by (auto simp: unat_eq_nat_uint [symmetric] word_unat_eq_iff)
qed

lemma execute_unit_eq:
  "execute_unit opc 0 imm24 s =
     (let s1 = clear_zero s; u = ax_unit opc
      in if u = 0 \<or> u = 1 then lift_regs (execute_alu2 (alu2_of opc) opc imm24 (m_regs s1)) s1
         else if u = 2 then execute_lsu2 (lsu2_of opc) opc imm24 s1
         else if u = 6 then lift_regs (execute_mdu2 (mdu2_of opc) opc imm24 (m_regs s1)) s1
         else if u = 7 then execute_bru opc imm24 s1
         else Fault Assert_fail)"
  "execute_unit opc 1 imm24 s =
     (let s1 = clear_zero s; u = ax_unit opc
      in if u = 0 \<or> u = 1 then lift_regs (execute_alu2 (alu2_of opc) opc imm24 (m_regs s1)) s1
         else if u = 2 then execute_lsu2 (lsu2_of opc) opc imm24 s1
         else Fault Assert_fail)"
  using ax_unit_cases [of opc] by (auto simp: execute_unit_def Let_def)

lemma execute_unit_pc:
  assumes "execute_unit opc slot imm24 s = Ok s'" and "slot = 1 \<or> slot = 0 \<and> ax_unit opc \<noteq> 7"
  shows "r_pc (m_regs s') = r_pc (m_regs s)"
  using assms
  by (auto simp: execute_unit_eq Let_def lift_regs_def res_bind_eq_Ok split: if_splits
      dest!: execute_alu2_pc execute_mdu2_pc execute_lsu2_pc)

text \<open>
  The units that the VM does not have end the run with a failed assertion: FPU, EFU and unit 4 in the
  first slot, and everything but ALU and load/store in the second.
\<close>
theorem v2_unit_support:
  assumes "slot = 0 \<and> ax_unit opc \<in> {3, 4, 5} \<or> slot = 1 \<and> ax_unit opc \<notin> {0, 1, 2}"
  shows "execute_unit opc slot imm24 s = Fault Assert_fail"
  using assms by (auto simp: execute_unit_eq Let_def)

text \<open>
  One or two words that do not branch: \<open>execute\<close> leaves the program counter to its caller and says how
  many words to step over; a lone word, or one whose companion is \<open>MOVEIX\<close>, is executed alone, with the
  24 bits of the \<open>MOVEIX\<close>.
\<close>
theorem v2_step_straight:
  assumes "ax_execute first second s = Ok (n, s')" and "ax_unit first \<noteq> 7"
  shows "r_pc (m_regs s') = r_pc (m_regs s) \<and> n = (if is_package first then 2 else 1) \<and>
    (\<not> is_package first \<longrightarrow> execute_unit first 0 0 s = Ok s') \<and>
    (is_package first \<and> is_moveix second \<longrightarrow> execute_unit first 0 (moveix_imm24 second) s = Ok s')"
  using assms
  by (auto simp: ax_execute_def Let_def res_bind_eq_Ok execute_unit_pc split: if_splits)

theorem v2_unit_support_witness: "execute_unit 0x00000060 0 0 demo2 = Fault Assert_fail"
  by (rule v2_unit_support) (simp add: ax_unit_def)

lemma demo_movei:
  "ax_execute 0x04000508 0 demo2 =
     Ok (1, (clear_zero demo2)\<lparr>m_regs := set_gpi 1 5 (m_regs (clear_zero demo2))\<rparr>)"
  by (simp add: ax_execute_def is_package_def is_moveix_def execute_unit_eq Let_def ax_unit_def lift_regs_def
      alu2_of_def ax_operation_def alu2_ops_def reg_a_def alu_move_imm_def)

theorem v2_step_straight_witness:
  "\<exists>s'. ax_execute 0x04000508 0 demo2 = Ok (1, s') \<and> r_pc (m_regs s') = 0"
  using v2_step_straight [OF demo_movei] by (simp add: demo_movei regs_zero_def ax_unit_def)

end
