(* ===== verification/V2_System.thy ===== *)
theory V2_System
  imports V2_Core AX_Syscall
begin

text \<open>
  System calls (\<open>syscall.cpp\<close>) and the main loop (\<open>AltairX::execute\<close> and \<open>AltairX::run\<close> of
  \<open>altairx.cpp\<close>). The keyboard and the clock of the host are functions on a state of the world. The
  loop is a partial function: \<open>None\<close> is a run that goes on for ever. The lemmas show that the error
  code which the loop tests never changes.
\<close>

record 'w host2 =
  h2_getchar :: "'w \<Rightarrow> u32 \<times> 'w"
  h2_report :: "u64 \<Rightarrow> 'w \<Rightarrow> string option \<times> 'w"

section \<open>System calls\<close>

definition execute_syscall :: "'w host2 \<Rightarrow> AxCore \<times> 'w \<Rightarrow> (AxCore \<times> 'w) res" where
  "execute_syscall H = (\<lambda>(s, w).
     (let r = m_regs s;
          regA = gpi r ! 1 AND 0xF0;
          regB = gpi r ! 1 AND 0x0F;
          reg1 = gpi r ! 2
      in res_bind
           (if regA = 0 then
              if regB = 0 then Ok (s\<lparr>x_out := x_out s @ [Out_printf (''AltairX K1 , VM Machine '' @ nl) []]\<rparr>, w)
              else if regB = 1 then
                (let (a, off) = ax_map s reg1
                 in res_bind (c_string (blocks s a) off) (\<lambda>str. Ok (s\<lparr>x_out := x_out s @ [Out_puts str]\<rparr>, w)))
              else if regB = 2 then Ok (s\<lparr>m_regs := set_gpi 2 0 (set_gpi 1 0 r)\<rparr>, w)
              else if regB = 3 then Fault (Exit (ucast reg1))
              else if regB = 0xE then
                (let (ch, w') = h2_getchar H w in Ok (s\<lparr>m_regs := set_gpi 1 (scast ch) r\<rparr>, w'))
              else Ok (s, w)
            else Ok (s, w))
           (\<lambda>(s', w'). Ok (s'\<lparr>m_syscall := 0\<rparr>, w'))))"

definition syscall_emul :: "'w host2 \<Rightarrow> AxCore \<times> 'w \<Rightarrow> (AxCore \<times> 'w) res" where
  "syscall_emul H = (\<lambda>(s, w). if m_syscall s = 0 then Ok (s, w) else execute_syscall H (s, w))"

section \<open>One step\<close>

text \<open>\<open>m_wram_begin[i]\<close>.\<close>

definition fetch2 :: "AxCore \<Rightarrow> u32 \<Rightarrow> u32 res" where
  "fetch2 s i = res_bind (x_read A_WRAM s (snd (ax_map s (area_begin A_WRAM)) + 4 * unat i) 4) (\<lambda>bs. Ok (of_bytes bs))"

definition step_over :: "u32 \<Rightarrow> AxCore \<Rightarrow> AxCore" where
  "step_over count s =
     (let r = m_regs s
      in s\<lparr>m_regs := r\<lparr>r_cc := r_cc r + 1, r_ic := r_ic r + count, r_pc := r_pc r + count\<rparr>\<rparr>)"

definition altairx_execute :: "AxCore \<Rightarrow> AxCore res" where
  "altairx_execute s =
     (let real_pc = r_pc (m_regs s) AND 0x7FFFFFFF
      in res_bind (fetch2 s real_pc) (\<lambda>opcode1.
         res_bind (fetch2 s (real_pc + 1)) (\<lambda>opcode2.
         res_bind (ax_execute opcode1 opcode2 s) (\<lambda>(count, s').
           Ok (step_over count s')))))"

definition vm2_step :: "'w host2 \<Rightarrow> AxCore \<times> 'w \<Rightarrow> (AxCore \<times> 'w) res" where
  "vm2_step H = (\<lambda>(s, w). res_bind (altairx_execute s) (\<lambda>s'. syscall_emul H (s', w)))"

section \<open>The loop\<close>

record 'w run_state =
  rs_core :: AxCore
  rs_world :: 'w
  rs_counter :: u64
  rs_cycles :: u64

text \<open>The clock is read every 512 Ki steps; a line goes to \<open>std::cout\<close> when a second has passed.\<close>

definition run_tick :: "'w host2 \<Rightarrow> 'w run_state \<Rightarrow> 'w run_state" where
  "run_tick H st0 =
     (let st = st0\<lparr>rs_counter := rs_counter st0 + 1, rs_cycles := rs_cycles st0 + 1\<rparr>
      in if 512 * 1024 < rs_counter st
         then (case h2_report H (rs_cycles st) (rs_world st) of
                 (None, w) \<Rightarrow> st\<lparr>rs_counter := 0, rs_world := w\<rparr>
               | (Some txt, w) \<Rightarrow>
                   st\<lparr>rs_core := (rs_core st)\<lparr>x_out := x_out (rs_core st) @ [Out_cout txt]\<rparr>,
                      rs_counter := 0, rs_cycles := 0, rs_world := w\<rparr>)
         else st)"

definition run_body :: "'w host2 \<Rightarrow> 'w run_state \<Rightarrow> 'w run_state res" where
  "run_body H st =
     res_bind (vm2_step H (rs_core st, rs_world st)) (\<lambda>(s, w).
       Ok (run_tick H (st\<lparr>rs_core := s, rs_world := w\<rparr>)))"

partial_function (option) run_from :: "'w host2 \<Rightarrow> 'w run_state \<Rightarrow> (u32 \<times> 'w run_state) res option" where
  "run_from H st =
     (if m_error (rs_core st) = 0
      then (case run_body H st of Inl f \<Rightarrow> Some (Inl f) | Inr st' \<Rightarrow> run_from H st')
      else Some (Inr (m_error (rs_core st), st)))"

definition altairx_run :: "'w host2 \<Rightarrow> AxCore \<times> 'w \<Rightarrow> (u32 \<times> 'w run_state) res option" where
  "altairx_run H = (\<lambda>(s, w). run_from H \<lparr>rs_core = s, rs_world = w, rs_counter = 0, rs_cycles = 0\<rparr>)"

section \<open>What is kept\<close>

lemma execute_syscall_keeps:
  assumes "execute_syscall H (s, w) = Ok (s', w')"
  shows "ax_keeps s s'" and "m_syscall s' = 0"
proof -
  have regs: "ax_keeps s (s\<lparr>m_regs := set_gpi i v r\<rparr>)" if "r = m_regs s \<or> (\<exists>j u. r = set_gpi j u (m_regs s))" for i v r
    using that by (auto intro: ax_keeps_regs)
  from assms show "ax_keeps s s'" unfolding execute_syscall_def Let_def
    by (auto simp: res_bind_eq_Ok split: if_splits prod.splits
        intro!: ax_keeps_syscall ax_keeps_out regs)
  from assms show "m_syscall s' = 0" unfolding execute_syscall_def Let_def
    by (auto simp: res_bind_eq_Ok split: if_splits prod.splits)
qed

lemma syscall_emul_keeps: "syscall_emul H (s, w) = Ok (s', w') \<Longrightarrow> ax_keeps s s' \<and> m_syscall s' = 0"
  by (auto simp: syscall_emul_def execute_syscall_keeps split: if_splits)

lemma step_over_keeps: "ax_keeps s (step_over n s)"
  by (simp add: step_over_def Let_def ax_keeps_regs)

lemma altairx_execute_keeps: "altairx_execute s = Ok s' \<Longrightarrow> ax_keeps s s'"
  by (auto simp: altairx_execute_def Let_def res_bind_eq_Ok
      intro: ax_keeps_trans [OF ax_execute_keeps step_over_keeps])

lemma vm2_step_keeps: "vm2_step H (s, w) = Ok (s', w') \<Longrightarrow> ax_keeps s s' \<and> m_syscall s' = 0"
  by (auto simp: vm2_step_def res_bind_eq_Ok dest!: syscall_emul_keeps dest: altairx_execute_keeps
      intro: ax_keeps_trans)

section \<open>Reachable states\<close>

inductive reaches :: "'w host2 \<Rightarrow> AxCore \<times> 'w \<Rightarrow> AxCore \<times> 'w \<Rightarrow> bool" for H where
  start: "reaches H c c"
| step: "reaches H c d \<Longrightarrow> vm2_step H d = Ok e \<Longrightarrow> reaches H c e"

inductive_cases reachesE [elim]: "reaches H c d"

lemma reaches_keeps: "reaches H c d \<Longrightarrow> ax_keeps (fst c) (fst d)"
proof (induction rule: reaches.induct)
  case (step c d e)
  then show ?case using vm2_step_keeps [of H "fst d" "snd d" "fst e" "snd e"]
    by (auto intro: ax_keeps_trans)
qed simp

lemma run_tick_error [simp]: "m_error (rs_core (run_tick H st)) = m_error (rs_core st)"
  by (auto simp: run_tick_def Let_def split: prod.splits option.splits)

lemma run_body_error: "run_body H st = Ok st' \<Longrightarrow> m_error (rs_core st') = m_error (rs_core st)"
  by (auto simp: run_body_def res_bind_eq_Ok ax_keeps_def dest!: vm2_step_keeps)

text \<open>The loop condition never becomes false: by fixed-point induction over the loop.\<close>

lemma run_from_faults_imp:
  assumes "run_from H st = Some r"
  shows "m_error (rs_core st) = 0 \<longrightarrow> (\<exists>f. r = Fault f)"
proof (rule run_from.raw_induct [OF _ assms])
  fix run H st r
  assume IH: "\<And>H st r. run H st = Some r \<Longrightarrow> m_error (rs_core st) = 0 \<longrightarrow> (\<exists>f. r = Fault f)"
    and eq: "(if m_error (rs_core st) = 0
      then (case run_body H st of Inl f \<Rightarrow> Some (Inl f) | Inr st' \<Rightarrow> run H st')
      else Some (Inr (m_error (rs_core st), st))) = Some r"
  show "m_error (rs_core st) = 0 \<longrightarrow> (\<exists>f. r = Fault f)"
  proof (cases "run_body H st")
    case (Inr st')
    then show ?thesis using eq IH [of H st' r] run_body_error [OF Inr] by auto
  qed (use eq in auto)
qed

lemmas run_from_faults = run_from_faults_imp [THEN mp]

section \<open>Faults\<close>

lemma ax_load_fault: "ax_load s a n = Fault f \<Longrightarrow> f = Mem_oob"
  by (auto simp: ax_load_def x_read_def rd_block_def split: prod.splits)

lemma ax_store_fault: "ax_store s a bs = Fault f \<Longrightarrow> f = Mem_oob"
  by (auto simp: ax_store_def x_write_def wr_block_def res_bind_eq_Fault split: prod.splits)

text \<open>No instruction throws an exception.\<close>

lemma execute_alu2_fault: "execute_alu2 op opc imm24 r = Fault f \<Longrightarrow> f \<noteq> Panic"
  by (cases op) (auto simp: res_bind_eq_Fault int_mask_def c_shl_def c_shr_def split: if_splits)

lemma execute_mdu2_fault: "execute_mdu2 op opc imm24 r = Fault f \<Longrightarrow> f \<noteq> Panic"
  by (cases op) (auto simp: Let_def split: if_splits)

lemma execute_lsu2_fault: "execute_lsu2 op opc imm24 s = Fault f \<Longrightarrow> f \<noteq> Panic"
  by (cases op) (auto simp: load_gpi_def load_gpf_def store_gpi_def store_gpf_def res_bind_eq_Fault
      dest!: ax_load_fault ax_store_fault)

lemma execute_unit_fault: "execute_unit opc slot imm24 s = Fault f \<Longrightarrow> f \<noteq> Panic"
  unfolding execute_unit_def Let_def lift_regs_def execute_bru_def execute_bru_other_def
  by (auto simp: res_bind_eq_Fault split: if_splits
      dest: execute_alu2_fault execute_mdu2_fault execute_lsu2_fault)

lemma fetch2_fault: "fetch2 s i = Fault f \<Longrightarrow> f = Mem_oob"
  by (auto simp: fetch2_def x_read_def rd_block_def res_bind_eq_Fault)

lemma altairx_execute_fault: "altairx_execute s = Fault f \<Longrightarrow> f \<noteq> Panic"
  by (auto simp: altairx_execute_def ax_execute_def Let_def res_bind_eq_Fault split: if_splits
      dest: execute_unit_fault fetch2_fault)

lemma c_string_fault: "c_string b i = Fault f \<Longrightarrow> f = Mem_oob"
proof -
  have "c_string_from bs = Fault f \<Longrightarrow> f = Mem_oob" for bs
    by (induction bs) (auto simp: res_bind_eq_Fault split: if_splits)
  then show "c_string b i = Fault f \<Longrightarrow> f = Mem_oob" by (simp add: c_string_def)
qed

lemma syscall_emul_fault: "syscall_emul H (s, w) = Fault f \<Longrightarrow> f \<noteq> Panic"
  by (auto simp: syscall_emul_def execute_syscall_def Let_def res_bind_eq_Fault split: if_splits prod.splits
      dest: c_string_fault)

lemma run_body_fault: "run_body H st = Fault f \<Longrightarrow> f \<noteq> Panic"
  by (auto simp: run_body_def vm2_step_def res_bind_eq_Fault dest: altairx_execute_fault syscall_emul_fault)

lemma run_from_no_panic:
  assumes "run_from H st = Some r"
  shows "r \<noteq> Fault Panic"
proof (rule run_from.raw_induct [OF _ assms])
  fix run H st r
  assume IH: "\<And>H st r. run H st = Some r \<Longrightarrow> r \<noteq> Fault Panic"
    and eq: "(if m_error (rs_core st) = 0
      then (case run_body H st of Inl f \<Rightarrow> Some (Inl f) | Inr st' \<Rightarrow> run H st')
      else Some (Inr (m_error (rs_core st), st))) = Some r"
  then show "r \<noteq> Fault Panic"
    by (cases "run_body H st") (auto dest: run_body_fault split: if_splits)
qed

section \<open>System calls and the program counter\<close>

lemma execute_syscall_pc:
  assumes "execute_syscall H (s, w) = Ok (s', w')"
  shows "r_pc (m_regs s') = r_pc (m_regs s)" "r_ir (m_regs s') = r_ir (m_regs s)"
  using assms unfolding execute_syscall_def Let_def
  by (auto simp: res_bind_eq_Ok set_gpi_def split: if_splits prod.splits)

lemma syscall_emul_pc:
  assumes "syscall_emul H (s, w) = Ok (s', w')"
  shows "r_pc (m_regs s') = r_pc (m_regs s)" "r_ir (m_regs s') = r_ir (m_regs s)"
  using assms by (auto simp: syscall_emul_def execute_syscall_pc split: if_splits)

lemma clear_zero_ir [simp]: "r_ir (m_regs (clear_zero s)) = r_ir (m_regs s)"
  by (simp add: clear_zero_def set_gpi_def set_gpf_def)

text \<open>A word that is the operation \<open>idx\<close> of the group \<open>OTHER\<close>, alone.\<close>

definition other_word :: "u32 \<Rightarrow> u32 \<Rightarrow> bool" where
  "other_word idx opc \<longleftrightarrow> ax_unit opc = 7 \<and> bru2_of opc = BRU_OTHER \<and> bru_other_index opc = idx \<and> \<not> is_package opc"

lemma ax_execute_single:
  assumes "\<not> is_package first"
  shows "ax_execute first second s =
    res_bind (execute_unit first 0 0 s) (\<lambda>s1. Ok (if r_pc (m_regs s) \<noteq> r_pc (m_regs s1) then 0 else 1, s1))"
  using assms by (simp add: ax_execute_def Let_def)

lemma execute_unit_other:
  assumes "other_word idx opc"
  shows "execute_unit opc 0 imm24 s = execute_bru_other idx (clear_zero s)"
  using assms by (simp add: execute_unit_eq other_word_def execute_bru_def Let_def)

lemma altairx_execute_single:
  assumes "altairx_execute s = Ok s'" and "fetch2 s (r_pc (m_regs s) AND 0x7FFFFFFF) = Ok opc"
    and "\<not> is_package opc"
  obtains s1 where "execute_unit opc 0 0 s = Ok s1"
    and "s' = step_over (if r_pc (m_regs s) \<noteq> r_pc (m_regs s1) then 0 else 1) s1"
  using assms by (auto simp: altairx_execute_def Let_def res_bind_eq_Ok ax_execute_single)

lemma altairx_execute_other:
  assumes "altairx_execute s = Ok s'" and "fetch2 s (r_pc (m_regs s) AND 0x7FFFFFFF) = Ok opc"
    and "other_word idx opc"
  obtains s1 where "execute_bru_other idx (clear_zero s) = Ok s1"
    and "s' = step_over (if r_pc (m_regs s) \<noteq> r_pc (m_regs s1) then 0 else 1) s1"
proof -
  have "\<not> is_package opc" using assms(3) by (simp add: other_word_def)
  with assms show ?thesis
    by (elim altairx_execute_single) (auto simp: execute_unit_other intro: that)
qed

lemma step_over_pc [simp]: "r_pc (m_regs (step_over n s)) = r_pc (m_regs s) + n"
  "r_ir (m_regs (step_over n s)) = r_ir (m_regs s)"
  by (simp_all add: step_over_def Let_def)

section \<open>The return address of a system call\<close>

text \<open>
  The step from \<open>s\<close> starts with the operation \<open>idx\<close> of the group \<open>OTHER\<close>: its first word, alone or in a
  bundle. The second word of a bundle cannot be one.
\<close>

definition at_other :: "u32 \<Rightarrow> AxCore \<Rightarrow> bool" where
  "at_other idx s \<longleftrightarrow> (\<exists>opc. fetch2 s (r_pc (m_regs s) AND 0x7FFFFFFF) = Ok opc \<and>
     ax_unit opc = 7 \<and> bru2_of opc = BRU_OTHER \<and> bru_other_index opc = idx)"

lemma set_regs_ir [simp]:
  "r_ir (set_gpi i v r) = r_ir r" "r_ir (set_gpf i v r) = r_ir r" "r_ir (set_mdu i v r) = r_ir r"
  by (simp_all add: set_gpi_def set_gpf_def set_mdu_def)

lemma execute_alu2_ir: "execute_alu2 op opc imm24 r = Ok r' \<Longrightarrow> r_ir r' = r_ir r"
  by (cases op) (auto simp: res_bind_eq_Ok split: if_splits)

lemma execute_mdu2_ir: "execute_mdu2 op opc imm24 r = Ok r' \<Longrightarrow> r_ir r' = r_ir r"
  by (cases op) (auto simp: Let_def split: if_splits)

lemma execute_lsu2_ir: "execute_lsu2 op opc imm24 s = Ok s' \<Longrightarrow> r_ir (m_regs s') = r_ir (m_regs s)"
  by (cases op)
    (auto simp: load_gpi_def load_gpf_def store_gpi_def store_gpf_def res_bind_eq_Ok ax_store_frame)

lemma execute_bru_ir:
  "execute_bru opc imm24 s = Ok s' \<Longrightarrow> r_ir (m_regs s') =
     (if bru2_of opc = BRU_OTHER \<and> bru_other_index opc = BRU_OTHER_SYSCALL_ID then r_pc (m_regs s) else r_ir (m_regs s))"
proof -
  have "r_ir (execute_bru2 b opc imm24 r) = r_ir r" for b r by (cases b) (simp_all add: jump_if_def)
  then show "execute_bru opc imm24 s = Ok s' \<Longrightarrow> ?thesis"
    by (auto simp: execute_bru_def execute_bru_other_def Let_def bru_other_ids split: if_splits)
qed

lemma execute_unit_ir:
  assumes "execute_unit opc slot imm24 s = Ok s'" and "slot = 0 \<or> slot = 1"
  shows "r_ir (m_regs s') =
    (if slot = 0 \<and> ax_unit opc = 7 \<and> bru2_of opc = BRU_OTHER \<and> bru_other_index opc = BRU_OTHER_SYSCALL_ID
     then r_pc (m_regs s) else r_ir (m_regs s))"
  using assms
  by (auto simp: execute_unit_eq Let_def lift_regs_def res_bind_eq_Ok split: if_splits
      dest!: execute_alu2_ir execute_mdu2_ir execute_lsu2_ir execute_bru_ir)

text \<open>The parts of a step: the first word, then the second of a bundle, which does not branch.\<close>

lemma altairx_execute_parts:
  assumes "altairx_execute s = Ok s'"
  obtains opc imm24 s1 where "fetch2 s (r_pc (m_regs s) AND 0x7FFFFFFF) = Ok opc"
    and "execute_unit opc 0 imm24 s = Ok s1" and "r_ir (m_regs s') = r_ir (m_regs s1)"
    and "r_pc (m_regs s1) \<noteq> r_pc (m_regs s) \<longrightarrow> r_pc (m_regs s') = r_pc (m_regs s1)"
proof -
  obtain opc opc2 n s2 where f: "fetch2 s (r_pc (m_regs s) AND 0x7FFFFFFF) = Ok opc"
    and e: "ax_execute opc opc2 s = Ok (n, s2)" and s': "s' = step_over n s2"
    using assms by (auto simp: altairx_execute_def Let_def res_bind_eq_Ok)
  let ?i = "if is_package opc \<and> is_moveix opc2 then moveix_imm24 opc2 else 0"
  obtain s1 where s1: "execute_unit opc 0 ?i s = Ok s1"
    and s2: "(if is_package opc \<and> \<not> is_moveix opc2 then execute_unit opc2 1 ?i s1 else Ok s1) = Ok s2"
    and n: "n = (if r_pc (m_regs s) \<noteq> r_pc (m_regs s2) then 0 else if is_package opc then 2 else 1)"
    using e unfolding ax_execute_def Let_def res_bind_eq_Ok by auto
  have k: "r_ir (m_regs s2) = r_ir (m_regs s1)" "r_pc (m_regs s2) = r_pc (m_regs s1)"
    using s2 by (auto split: if_splits dest: execute_unit_ir execute_unit_pc)
  show ?thesis
    by (rule that [OF f s1]) (simp_all add: s' k n)
qed

lemma altairx_execute_ir:
  assumes "altairx_execute s = Ok s'"
  shows "r_ir (m_regs s') = (if at_other BRU_OTHER_SYSCALL_ID s then r_pc (m_regs s) else r_ir (m_regs s))"
proof -
  obtain opc imm24 s1 where "fetch2 s (r_pc (m_regs s) AND 0x7FFFFFFF) = Ok opc"
    "execute_unit opc 0 imm24 s = Ok s1" "r_ir (m_regs s') = r_ir (m_regs s1)"
    using assms by (rule altairx_execute_parts)
  then show ?thesis using execute_unit_ir [of opc 0 imm24 s s1] by (auto simp: at_other_def)
qed

lemma at_other_unit:
  assumes "altairx_execute s = Ok s'" and "at_other idx s"
  obtains s1 where "execute_bru_other idx (clear_zero s) = Ok s1"
    and "r_pc (m_regs s1) \<noteq> r_pc (m_regs s) \<longrightarrow> r_pc (m_regs s') = r_pc (m_regs s1)"
proof -
  obtain opc imm24 s1 where p: "fetch2 s (r_pc (m_regs s) AND 0x7FFFFFFF) = Ok opc"
    "execute_unit opc 0 imm24 s = Ok s1" "r_ir (m_regs s') = r_ir (m_regs s1)"
    "r_pc (m_regs s1) \<noteq> r_pc (m_regs s) \<longrightarrow> r_pc (m_regs s') = r_pc (m_regs s1)"
    using assms(1) by (rule altairx_execute_parts)
  with assms(2) have "execute_bru_other idx (clear_zero s) = Ok s1"
    by (auto simp: at_other_def execute_unit_eq execute_bru_def Let_def)
  then show ?thesis using p(4) that by blast
qed

lemma vm2_step_ir:
  assumes "vm2_step H (s, w) = Ok (s', w')"
  shows "r_ir (m_regs s') = (if at_other BRU_OTHER_SYSCALL_ID s then r_pc (m_regs s) else r_ir (m_regs s))"
proof -
  obtain t where "altairx_execute s = Ok t" "syscall_emul H (t, w) = Ok (s', w')"
    using assms by (auto simp: vm2_step_def res_bind_eq_Ok)
  then show ?thesis using altairx_execute_ir syscall_emul_pc(2) by metis
qed

lemma vm2_step_other:
  assumes "vm2_step H (s, w) = Ok (s', w')" and "at_other idx s"
  obtains s1 where "execute_bru_other idx (clear_zero s) = Ok s1"
    and "r_pc (m_regs s1) \<noteq> r_pc (m_regs s) \<longrightarrow> r_pc (m_regs s') = r_pc (m_regs s1)"
proof -
  obtain t where "altairx_execute s = Ok t" "syscall_emul H (t, w) = Ok (s', w')"
    using assms by (auto simp: vm2_step_def res_bind_eq_Ok)
  then show ?thesis using that assms(2) syscall_emul_pc(1) by (metis at_other_unit)
qed

text \<open>After a system call the register \<open>ir\<close> holds the address of a system call, always.\<close>

lemma reaches_ir:
  assumes "reaches H x y" and "r_ir (m_regs (fst x)) = a"
  shows "r_ir (m_regs (fst y)) = a \<or>
    (\<exists>d u. reaches H x (d, u) \<and> reaches H (d, u) y \<and> at_other BRU_OTHER_SYSCALL_ID d \<and>
      r_ir (m_regs (fst y)) = r_pc (m_regs d))"
  using assms
proof (induction rule: reaches.induct)
  case (step x y z)
  obtain d u e v where yz: "y = (d, u)" "z = (e, v)" by (cases y; cases z)
  have e: "r_ir (m_regs e) = (if at_other BRU_OTHER_SYSCALL_ID d then r_pc (m_regs d) else r_ir (m_regs d))"
    using step(2) unfolding yz by (rule vm2_step_ir)
  show ?case
  proof (cases "at_other BRU_OTHER_SYSCALL_ID d")
    case True
    then show ?thesis using e step(1,2) reaches.step [OF reaches.start step(2)] by (auto simp: yz)
  next
    case False
    then show ?thesis using e step.IH [OF step.prems] reaches.step [OF _ step(2)] by (auto simp: yz)
  qed
qed simp

section \<open>Programs for the examples\<close>

definition prog2 :: "u32 list \<Rightarrow> AxCore" where
  "prog2 ws = demo2\<lparr>blocks := (blocks demo2)
     (A_WRAM := \<lparr>bsize = 0x100000, bdata = (\<lambda>i. if i < 4 * length ws then bytes_of_words ws ! i else 0)\<rparr>)\<rparr>"

lemma prog2_simps [simp]:
  "m_regs (prog2 ws) = regs_zero" "m_error (prog2 ws) = 0" "m_syscall (prog2 ws) = 0"
  "ax_map (prog2 ws) = ax_map demo2"
proof -
  show "ax_map (prog2 ws) = ax_map demo2"
  proof
    fix a show "ax_map (prog2 ws) a = ax_map demo2 a"
      by (cases "area_of a") (simp_all add: ax_map_def Let_def prog2_def)
  qed
qed (simp_all add: prog2_def)

lemma wf2_prog2 [simp]: "wf2 (prog2 ws)"
  using wf2_demo2 by (simp add: wf2_def prog2_def byte_size_def)

lemma byte_of_words:
  "k < 4 * length ws \<Longrightarrow> bytes_of_words ws ! k = ucast (drop_bit (8 * (k mod 4)) (ws ! (k div 4)))"
  using nth_bytes_of_words [of "k div 4" ws "k mod 4"] by (simp add: less_mult_imp_div_less mult.commute)

lemma fetch2_prog2:
  assumes "unat i < length ws" and "length ws \<le> 0x40000"
  shows "fetch2 (prog2 ws) i = Ok (ws ! unat i)"
proof -
  let ?b = "\<lparr>bsize = 0x100000, bdata = (\<lambda>i. if i < 4 * length ws then bytes_of_words ws ! i else (0 :: u8))\<rparr>"
  have "map (bdata ?b) [4 * unat i..<4 * unat i + 4] = bytes_of 4 (ws ! unat i)"
    using assms(1) by (auto simp: byte_of_words intro!: nth_equalityI)
  then have "rd_block ?b (4 * unat i) 4 = Ok (bytes_of 4 (ws ! unat i))"
    using assms by (simp add: rd_block_def)
  moreover have "snd (ax_map demo2 (area_begin A_WRAM)) = 0"
    by (simp add: ax_map_def Let_def area_of_def)
  ultimately show ?thesis by (simp add: fetch2_def x_read_def) (simp add: prog2_def)
qed

lemma fetch2_demo2 [simp]: "unat i < 0x40000 \<Longrightarrow> fetch2 demo2 i = Ok 0"
proof -
  assume i: "unat i < 0x40000"
  have "map (bdata (blocks demo2 A_WRAM)) [4 * unat i..<4 * unat i + 4] = replicate 4 0"
    by (auto intro!: nth_equalityI simp: demo2_def)
  then have "rd_block (blocks demo2 A_WRAM) (4 * unat i) 4 = Ok (replicate 4 0)" using i by (simp add: rd_block_def)
  moreover have "snd (ax_map demo2 (area_begin A_WRAM)) = 0" by (simp add: ax_map_def Let_def area_of_def)
  ultimately show ?thesis by (simp add: fetch2_def x_read_def numeral_eq_Suc)
qed

definition demo_host2 :: "unit host2" where
  "demo_host2 = \<lparr>h2_getchar = (\<lambda>w. (65, w)), h2_report = (\<lambda>n w. (None, w))\<rparr>"

lemma fetch2_frame [simp]:
  "fetch2 (s\<lparr>m_regs := r\<rparr>) i = fetch2 s i" "fetch2 (s\<lparr>m_syscall := x\<rparr>) i = fetch2 s i"
  "fetch2 (s\<lparr>x_out := ys\<rparr>) i = fetch2 s i"
  by (simp_all add: fetch2_def x_read_def ax_map_def Let_def)

lemma fetch2_step_over [simp]: "fetch2 (step_over n s) i = fetch2 s i" "fetch2 (clear_zero s) i = fetch2 s i"
  by (simp_all add: step_over_def clear_zero_def Let_def)

text \<open>A branch to itself, and a system call whose handler returns.\<close>

lemma demo_branch:
  "altairx_execute (prog2 [0x000000F4, 0]) = Ok (step_over 1 (clear_zero (prog2 [0x000000F4, 0])))"
  by (simp add: altairx_execute_def Let_def fetch2_prog2 regs_zero_def ax_execute_single is_package_def
      execute_unit_eq ax_unit_def execute_bru_def bru2_of_def ax_opcode_def bru2_ops_def jump_if_def bru_imm_def
      bru_imm24_def)

definition demo_sys :: AxCore where
  "demo_sys = (prog2 [0x000003FE, 0x000004FE, 0])\<lparr>m_regs := regs_zero\<lparr>r_pc := 1\<rparr>\<rparr>"

lemma altairx_execute_otherI:
  assumes "fetch2 s (r_pc (m_regs s) AND 0x7FFFFFFF) = Ok opc"
    and "fetch2 s ((r_pc (m_regs s) AND 0x7FFFFFFF) + 1) = Ok next" and "other_word idx opc"
    and "execute_bru_other idx (clear_zero s) = Ok s1"
  shows "altairx_execute s = Ok (step_over (if r_pc (m_regs s) \<noteq> r_pc (m_regs s1) then 0 else 1) s1)"
proof -
  have "\<not> is_package opc" using assms(3) by (simp add: other_word_def)
  then show ?thesis
    using assms by (simp add: altairx_execute_def Let_def ax_execute_single execute_unit_other)
qed

lemma demo_words:
  "other_word BRU_OTHER_SYSCALL_ID 0x000004FE" "other_word BRU_OTHER_RETI_ID 0x000003FE"
  by (simp_all add: other_word_def ax_unit_def bru2_of_def ax_opcode_def bru2_ops_def bru_other_index_def
      is_package_def bru_other_ids)

lemma demo_sys_steps:
  "\<exists>s1 s2. vm2_step demo_host2 (demo_sys, ()) = Ok (s1, ()) \<and> vm2_step demo_host2 (s1, ()) = Ok (s2, ()) \<and>
     fetch2 s1 0 = Ok 0x000003FE"
proof -
  let ?c = "clear_zero demo_sys"
  define t1 where "t1 = step_over 0
    (?c\<lparr>m_regs := (m_regs ?c)\<lparr>r_ir := 1, r_pc := 0x80000000\<rparr>, m_syscall := 1\<rparr>)"
  have f: "fetch2 demo_sys 0 = Ok 0x000003FE" "fetch2 demo_sys 1 = Ok 0x000004FE" "fetch2 demo_sys 2 = Ok 0"
    by (simp_all add: demo_sys_def fetch2_prog2)
  have pc: "r_pc (m_regs demo_sys) = 1" by (simp add: demo_sys_def)
  have "altairx_execute demo_sys = Ok t1"
    using altairx_execute_otherI [of demo_sys, OF _ _ demo_words(1)] f pc
    by (simp add: execute_bru_other_def bru_other_ids Let_def t1_def)
  moreover have "gpi (m_regs t1) ! 1 = 0" "m_syscall t1 = 1"
    by (simp_all add: t1_def step_over_def Let_def clear_zero_def set_gpi_def set_gpf_def demo_sys_def
        regs_zero_def REG_ZERO_def)
  then have "syscall_emul demo_host2 (t1, ()) =
      Ok (t1\<lparr>x_out := x_out t1 @ [Out_printf (''AltairX K1 , VM Machine '' @ nl) []], m_syscall := 0\<rparr>, ())"
    by (simp add: syscall_emul_def execute_syscall_def Let_def)
  ultimately obtain s1 where s1: "vm2_step demo_host2 (demo_sys, ()) = Ok (s1, ())"
    "s1 = t1\<lparr>x_out := x_out t1 @ [Out_printf (''AltairX K1 , VM Machine '' @ nl) []], m_syscall := 0\<rparr>"
    by (simp add: vm2_step_def)
  have g: "fetch2 s1 0 = Ok 0x000003FE" "fetch2 s1 1 = Ok 0x000004FE" "r_pc (m_regs s1) = 0x80000000"
    "m_syscall s1 = 0"
    using f by (simp_all add: s1(2) t1_def)
  have "\<exists>t2. altairx_execute s1 = Ok t2 \<and> m_syscall t2 = 0"
    using altairx_execute_otherI [of s1, OF _ _ demo_words(2)] g
    by (simp add: execute_bru_other_def bru_other_ids Let_def step_over_def clear_zero_def)
  then show ?thesis using s1(1) g(1) by (auto simp: vm2_step_def syscall_emul_def)
qed

section \<open>Theorems\<close>

text \<open>
  A branch whose target is its own address is not taken: the VM tells a jump from a step by a change of
  the program counter, and so goes on behind a branch to itself.
\<close>
theorem v2_branch_to_self:
  assumes "altairx_execute s = Ok s'" and "fetch2 s (r_pc (m_regs s) AND 0x7FFFFFFF) = Ok w"
    and "ax_unit w = 7" and "\<not> is_package w"
    and "execute_bru w 0 (clear_zero s) = Ok s1" and "r_pc (m_regs s1) = r_pc (m_regs s)"
  shows "r_pc (m_regs s') = r_pc (m_regs s) + 1"
proof -
  obtain t where "execute_unit w 0 0 s = Ok t"
    "s' = step_over (if r_pc (m_regs s) \<noteq> r_pc (m_regs t) then 0 else 1) t"
    using assms(1,2,4) by (rule altairx_execute_single)
  moreover have "execute_unit w 0 0 s = Ok s1" using assms(3,5) by (simp add: execute_unit_eq Let_def)
  ultimately show ?thesis using assms(6) by simp
qed

theorem v2_branch_to_self_witness:
  "\<exists>s'. altairx_execute (prog2 [0x000000F4, 0]) = Ok s' \<and> r_pc (m_regs s') = 1"
proof -
  let ?s = "prog2 [0x000000F4, 0]"
  have "execute_bru 0x000000F4 0 (clear_zero ?s) = Ok (clear_zero ?s)"
    by (simp add: execute_bru_def bru2_of_def ax_opcode_def bru2_ops_def jump_if_def bru_imm_def bru_imm24_def)
  then have "r_pc (m_regs (step_over 1 (clear_zero ?s))) = r_pc (m_regs ?s) + 1"
    by (rule v2_branch_to_self [OF demo_branch, rotated 3])
      (simp_all add: fetch2_prog2 regs_zero_def ax_unit_def is_package_def)
  then show ?thesis using demo_branch by (simp add: regs_zero_def)
qed

text \<open>
  C9. No program makes the main loop return: the error code that it tests is never written, so that a run
  goes on for ever, or ends in \<open>exit\<close>, an exception, a failed assertion or undefined behaviour.
\<close>
theorem v2_run_never_returns:
  assumes "m_error s = 0"
  shows "altairx_run H (s, w) \<noteq> Some (Ok r)"
  using run_from_faults [of H "\<lparr>rs_core = s, rs_world = w, rs_counter = 0, rs_cycles = 0\<rparr>"] assms
  by (auto simp: altairx_run_def)

theorem v2_run_never_returns_witness: "\<nexists>r. altairx_run demo_host2 (demo2, ()) = Some (Ok r)"
  by (simp add: v2_run_never_returns)

text \<open>
  C20. Where \<open>RETI\<close> goes after a system call. \<open>SYSCALL\<close> saves its own address in \<open>ir\<close> and goes to word 0 of
  WRAM. Whatever handler runs from there, of any length, branches and further system calls included: no
  other instruction writes \<open>ir\<close>, so that a \<open>RETI\<close> goes back to the \<open>SYSCALL\<close> itself, or to one made since,
  and the call is made again; it never goes on behind one. (A handler that ends in \<open>RET\<close> goes where the
  link register says.) The \<open>SYSCALL\<close> is not at word 0, and the \<open>RETI\<close> not at the address in \<open>ir\<close>: a jump to
  itself is no jump in this VM.
\<close>
theorem v2_syscall_reti:
  assumes "vm2_step H (s, w) = Ok (s1, w1)" and "at_other BRU_OTHER_SYSCALL_ID s" and "r_pc (m_regs s) \<noteq> 0x80000000"
    and "reaches H (s1, w1) (t, v)" and "vm2_step H (t, v) = Ok (t', v')" and "at_other BRU_OTHER_RETI_ID t"
    and "r_ir (m_regs t) \<noteq> r_pc (m_regs t)"
  shows "r_pc (m_regs s1) = 0x80000000 \<and>
    (r_pc (m_regs t') = r_pc (m_regs s) \<or>
     (\<exists>d u. reaches H (s1, w1) (d, u) \<and> reaches H (d, u) (t, v) \<and> at_other BRU_OTHER_SYSCALL_ID d \<and>
        r_pc (m_regs t') = r_pc (m_regs d)))"
proof
  obtain x where x: "execute_bru_other BRU_OTHER_SYSCALL_ID (clear_zero s) = Ok x"
    "r_pc (m_regs x) \<noteq> r_pc (m_regs s) \<longrightarrow> r_pc (m_regs s1) = r_pc (m_regs x)"
    using assms(1,2) by (rule vm2_step_other)
  then show "r_pc (m_regs s1) = 0x80000000"
    using assms(3) by (auto simp: execute_bru_other_def Let_def bru_other_ids)
  obtain y where y: "execute_bru_other BRU_OTHER_RETI_ID (clear_zero t) = Ok y"
    "r_pc (m_regs y) \<noteq> r_pc (m_regs t) \<longrightarrow> r_pc (m_regs t') = r_pc (m_regs y)"
    using assms(5,6) by (rule vm2_step_other)
  then have "r_pc (m_regs t') = r_ir (m_regs t)"
    using assms(7) by (auto simp: execute_bru_other_def Let_def bru_other_ids)
  moreover have "r_ir (m_regs s1) = r_pc (m_regs s)" using vm2_step_ir [OF assms(1)] assms(2) by simp
  ultimately show "r_pc (m_regs t') = r_pc (m_regs s) \<or>
     (\<exists>d u. reaches H (s1, w1) (d, u) \<and> reaches H (d, u) (t, v) \<and> at_other BRU_OTHER_SYSCALL_ID d \<and>
        r_pc (m_regs t') = r_pc (m_regs d))"
    using reaches_ir [OF assms(4), of "r_pc (m_regs s)"] by simp
qed

theorem v2_syscall_reti_witness:
  "\<exists>s1 s2. vm2_step demo_host2 (demo_sys, ()) = Ok (s1, ()) \<and> vm2_step demo_host2 (s1, ()) = Ok (s2, ()) \<and>
     r_pc (m_regs s1) = 0x80000000 \<and> (r_pc (m_regs s2) = 1 \<or>
       (\<exists>d u. reaches demo_host2 (s1, ()) (d, u) \<and> reaches demo_host2 (d, u) (s1, ()) \<and>
          at_other BRU_OTHER_SYSCALL_ID d \<and> r_pc (m_regs s2) = r_pc (m_regs d)))"
proof -
  obtain s1 s2 where s: "vm2_step demo_host2 (demo_sys, ()) = Ok (s1, ())"
    "vm2_step demo_host2 (s1, ()) = Ok (s2, ())" "fetch2 s1 0 = Ok 0x000003FE"
    using demo_sys_steps by blast
  have "fetch2 demo_sys 1 = Ok 0x000004FE" and pc: "r_pc (m_regs demo_sys) = 1"
    by (simp_all add: demo_sys_def fetch2_prog2)
  then have at: "at_other BRU_OTHER_SYSCALL_ID demo_sys"
    using demo_words(1) by (simp add: at_other_def other_word_def)
  have ir: "r_ir (m_regs s1) = 1" using vm2_step_ir [OF s(1)] at pc by simp
  obtain x where "execute_bru_other BRU_OTHER_SYSCALL_ID (clear_zero demo_sys) = Ok x"
    "r_pc (m_regs x) \<noteq> 1 \<longrightarrow> r_pc (m_regs s1) = r_pc (m_regs x)"
    using vm2_step_other [OF s(1) at] pc by metis
  then have pc1: "r_pc (m_regs s1) = 0x80000000"
    by (auto simp: execute_bru_other_def Let_def bru_other_ids)
  have at1: "at_other BRU_OTHER_RETI_ID s1"
    using s(3) demo_words(2) by (simp add: at_other_def other_word_def pc1)
  have "r_pc (m_regs demo_sys) \<noteq> 0x80000000" "r_ir (m_regs s1) \<noteq> r_pc (m_regs s1)" by (simp_all add: pc pc1 ir)
  from v2_syscall_reti [OF s(1) at this(1) reaches.start s(2) at1 this(2)] show ?thesis using s(1,2) unfolding pc by blast
qed

end
