(* ===== verification/V2_Loader.thy ===== *)
theory V2_Loader
  imports V2_System
begin

text \<open>
  Loading a program in the second version: the conversion of an ELF file (\<open>elf.cpp\<close>, \<open>elf.hpp\<close>) and
  its loading, the stack, the arguments and the entry code (\<open>altairx.cpp\<close>). What LLVM reads from the
  file is a parameter: the section headers with their contents and symbols, each of which may be an
  error. Names and arguments are byte strings; the contents of a file are a list of bytes, \<open>None\<close> when
  it cannot be opened.
\<close>

type_synonym bytes = "u8 list"

definition str_bytes :: "string \<Rightarrow> bytes" where
  "str_bytes = map of_char"

section \<open>ELF files\<close>

record AxELFSection =
  es_type :: u32
  es_flags :: u64
  es_addr :: u64
  es_offset :: u64
  es_size :: u64
  es_link :: u32
  es_info :: u32
  es_addralign :: u64
  es_entsize :: u64
  es_content :: bytes

record AxELFSymbol =
  ey_name :: bytes
  ey_st_name :: u64
  ey_value :: u64
  ey_size :: u64
  ey_binding :: u32
  ey_type :: u32
  ey_visibility :: u32
  ey_shndx :: u32

record AxELFFile =
  elf_sections :: "AxELFSection list"
  elf_symbols :: "AxELFSymbol list"

definition AX_SHT_SYMTAB :: u32 where "AX_SHT_SYMTAB = 0x02"
definition AX_SHF_ALLOC :: u64 where "AX_SHF_ALLOC = 0x02"
definition AX_STT_FUNC :: u32 where "AX_STT_FUNC = 2"

definition has_flag :: "AxELFSection \<Rightarrow> u64 \<Rightarrow> bool" where
  "has_flag sec flag \<longleftrightarrow> es_flags sec AND flag \<noteq> 0"

text \<open>What LLVM gives of a symbol and of a section; \<open>None\<close> is an error of the call.\<close>

record llvm_symbol =
  ll_name :: "bytes option"
  ll_st_name :: u32
  ll_value :: u64
  ll_size :: u64
  ll_binding :: u8
  ll_type :: u8
  ll_other :: u8
  ll_shndx :: u16

record llvm_section =
  sh_type :: u32
  sh_flags :: u64
  sh_addr :: u64
  sh_offset :: u64
  sh_size :: u64
  sh_link :: u32
  sh_info :: u32
  sh_addralign :: u64
  sh_entsize :: u64
  sh_strtab_ok :: bool
  sh_symbols :: "llvm_symbol list option"
  sh_content :: "bytes option"

text \<open>A name that cannot be read is reported, and then read all the same.\<close>

definition convert_symbol :: "llvm_symbol \<Rightarrow> AxELFSymbol res" where
  "convert_symbol y =
     (case ll_name y of
        None \<Rightarrow> Fault Uninit
      | Some n \<Rightarrow>
          Ok \<lparr>ey_name = n, ey_st_name = ucast (ll_st_name y), ey_value = ll_value y, ey_size = ll_size y,
              ey_binding = ucast (ll_binding y), ey_type = ucast (ll_type y),
              ey_visibility = ucast (ll_other y AND 0x03), ey_shndx = ucast (ll_shndx y)\<rparr>)"

fun convert_list :: "llvm_symbol list \<Rightarrow> AxELFSymbol list res" where
  "convert_list [] = Ok []"
| "convert_list (y # ys) =
     res_bind (convert_symbol y) (\<lambda>z. res_bind (convert_list ys) (\<lambda>zs. Ok (z # zs)))"

definition convert_symbols :: "llvm_section \<Rightarrow> AxELFSymbol list option res" where
  "convert_symbols sec =
     (if \<not> sh_strtab_ok sec then Ok None
      else case sh_symbols sec of
             None \<Rightarrow> Ok None
           | Some ys \<Rightarrow> res_bind (convert_list ys) (\<lambda>zs. Ok (Some zs)))"

text \<open>\<open>entsize\<close> takes the size of the section. The contents are those of allocated sections only.\<close>

definition convert_section :: "llvm_section \<Rightarrow> AxELFSection option" where
  "convert_section sec =
     (let base = \<lparr>es_type = sh_type sec, es_flags = sh_flags sec, es_addr = sh_addr sec,
            es_offset = sh_offset sec, es_size = sh_size sec, es_link = sh_link sec,
            es_info = sh_info sec, es_addralign = sh_addralign sec, es_entsize = sh_size sec,
            es_content = []\<rparr>
      in if sh_flags sec AND AX_SHF_ALLOC \<noteq> 0
         then map_option (\<lambda>bs. base\<lparr>es_content := bs\<rparr>) (sh_content sec)
         else Some base)"

text \<open>The loop over the sections; the result \<open>None\<close> is \<open>std::nullopt\<close>.\<close>

fun convert_sections :: "llvm_section list \<Rightarrow> AxELFFile \<Rightarrow> AxELFFile option res" where
  "convert_sections [] acc = Ok (Some acc)"
| "convert_sections (sec # secs) acc =
     res_bind (if sh_type sec = AX_SHT_SYMTAB then convert_symbols sec else Ok None) (\<lambda>syms.
       let acc1 = (case syms of None \<Rightarrow> acc | Some ys \<Rightarrow> acc\<lparr>elf_symbols := ys\<rparr>)
       in case convert_section sec of
            None \<Rightarrow> Ok None
          | Some s \<Rightarrow> convert_sections secs (acc1\<lparr>elf_sections := elf_sections acc1 @ [s]\<rparr>))"

definition convert_elf :: "llvm_section list option \<Rightarrow> AxELFFile option res" where
  "convert_elf sections =
     (case sections of None \<Rightarrow> Ok None
      | Some secs \<Rightarrow> convert_sections secs \<lparr>elf_sections = [], elf_symbols = []\<rparr>)"

text \<open>\<open>AxELFFile::from_file\<close>: \<open>llvm\<close> is the file LLVM made of the contents, if it could.\<close>

definition elf_from_file :: "bytes option \<Rightarrow> (bytes \<Rightarrow> llvm_section list option option) \<Rightarrow> AxELFFile option res" where
  "elf_from_file file llvm =
     (case file of None \<Rightarrow> Ok None
      | Some bs \<Rightarrow> (case llvm bs of None \<Rightarrow> Ok None | Some secs \<Rightarrow> convert_elf secs))"

section \<open>Loading sections\<close>

definition wram_bytesize :: "AxCore \<Rightarrow> u64" where
  "wram_bytesize s = byte_size (blocks s A_WRAM)"

definition get_entry_point :: "AxELFFile \<Rightarrow> bytes \<Rightarrow> AxELFSymbol res" where
  "get_entry_point elf name =
     (case filter (\<lambda>y. ey_name y = name) (elf_symbols elf) of
        [] \<Rightarrow> Fault Panic
      | ys \<Rightarrow> if ey_type (last ys) \<noteq> AX_STT_FUNC then Fault Panic else Ok (last ys))"

text \<open>The body of the loop: the state, \<open>entry_point_allocated\<close> and the bounds so far.\<close>

definition load_section ::
    "AxELFSymbol \<Rightarrow> AxELFSection \<Rightarrow> AxCore \<times> bool \<times> (u64 \<times> u64) list
       \<Rightarrow> (AxCore \<times> bool \<times> (u64 \<times> u64) list) res" where
  "load_section entry sec = (\<lambda>(s, found, acc).
     (if \<not> has_flag sec AX_SHF_ALLOC then Ok (s, found, acc)
      else let len = word_of_nat (length (es_content sec))
           in if wram_bytesize s < es_addr sec + len then Fault Panic
              else res_bind (ax_store s (area_begin A_WRAM + es_addr sec) (es_content sec)) (\<lambda>s1.
                Ok (s1,
                    found \<or> (es_addr sec \<le> ey_value entry \<and>
                             ey_value entry + ey_size entry \<le> es_addr sec + es_size sec),
                    acc @ [(es_addr sec, es_addr sec + len)]))))"

definition set_pc :: "u32 \<Rightarrow> AxCore \<Rightarrow> AxCore" where
  "set_pc p s = s\<lparr>m_regs := (m_regs s)\<lparr>r_pc := p\<rparr>\<rparr>"

definition load_sections :: "AxELFFile \<Rightarrow> AxELFSymbol \<Rightarrow> AxCore \<Rightarrow> ((u64 \<times> u64) list \<times> AxCore) res" where
  "load_sections elf entry s0 =
     res_bind (fold_res (load_section entry) (elf_sections elf) (s0, False, [])) (\<lambda>(s, found, acc).
       if \<not> found then Fault Panic
       else Ok (acc, set_pc (ucast (ey_value entry div 4)) s))"

text \<open>\<open>AltairX::load_program\<close>: an ELF file, or else the bytes of the file from the start of WRAM.\<close>

definition load_program :: "AxELFFile option \<Rightarrow> bytes option \<Rightarrow> bytes \<Rightarrow> AxCore \<Rightarrow> AxCore res" where
  "load_program elf file entry_point_name s =
     (case elf of
        Some e \<Rightarrow>
          res_bind (get_entry_point e entry_point_name) (\<lambda>entry.
          res_bind (load_sections e entry s) (\<lambda>(bounds, s1). Ok s1))
      | None \<Rightarrow>
          (case file of
             None \<Rightarrow> Fault Panic
           | Some bs \<Rightarrow> res_bind (ax_store s (area_begin A_WRAM) bs) (\<lambda>s1. Ok (set_pc 4 s1))))"

text \<open>\<open>AltairX::load_kernel\<close>.\<close>

definition load_kernel :: "bytes option \<Rightarrow> AxCore \<Rightarrow> AxCore res" where
  "load_kernel file s =
     (case file of None \<Rightarrow> Ok s | Some bs \<Rightarrow> ax_store s (area_begin A_ROM) bs)"

section \<open>Hosted programs\<close>

definition stack_size :: u64 where "stack_size = 0x100000"

definition total_end :: "(u64 \<times> u64) list \<Rightarrow> u64" where
  "total_end bounds = fold (\<lambda>(b, e) m. max m e) bounds 0"

definition set_reg :: "nat \<Rightarrow> u64 \<Rightarrow> AxCore \<Rightarrow> AxCore" where
  "set_reg i v s = s\<lparr>m_regs := set_gpi i v (m_regs s)\<rparr>"

definition sp :: "AxCore \<Rightarrow> u64" where "sp s = gpi (m_regs s) ! 0"

definition setup_stack :: "(u64 \<times> u64) list \<Rightarrow> AxCore \<Rightarrow> (u64 \<times> AxCore) res" where
  "setup_stack bounds s =
     (let aligned_end = push_bit 16 (drop_bit 16 (total_end bounds) + 1)
      in if wram_bytesize s < aligned_end + stack_size then Fault Panic
         else Ok (aligned_end + stack_size,
                  set_reg 0 (area_begin A_WRAM + (aligned_end + stack_size - 8)) s))"

text \<open>\<open>add_argument\<close>: room on the stack, the bytes, a NUL; the address is returned.\<close>

definition add_argument :: "bytes \<Rightarrow> AxCore \<Rightarrow> (u64 \<times> AxCore) res" where
  "add_argument arg s =
     (let s1 = set_reg 0 (sp s - (word_of_nat (length arg) + 1)) s
      in res_bind (ax_store s1 (sp s1) (arg @ [0])) (\<lambda>s2. Ok (sp s1, s2)))"

fun add_arguments :: "bytes list \<Rightarrow> AxCore \<Rightarrow> (u64 list \<times> AxCore) res" where
  "add_arguments [] s = Ok ([], s)"
| "add_arguments (arg # args) s =
     res_bind (add_argument arg s) (\<lambda>(a, s1).
     res_bind (add_arguments args s1) (\<lambda>(as, s2). Ok (a # as, s2)))"

definition words64 :: "u64 list \<Rightarrow> bytes" where
  "words64 ws = concat (map (bytes_of 8) ws)"

definition load_host_argv :: "bytes \<Rightarrow> bytes list \<Rightarrow> AxCore \<Rightarrow> AxCore res" where
  "load_host_argv program_name argv s =
     res_bind (add_arguments (program_name # argv) s) (\<lambda>(as, s1).
       let buf = as @ [0];
           s2 = set_reg 0 (sp s1 - 8 * word_of_nat (length buf)) s1
       in res_bind (ax_store s2 (sp s2) (words64 buf)) (\<lambda>s3.
            Ok (set_reg 2 (sp s2) (set_reg 1 (scast (word_of_nat (length argv + 1) :: u32)) s3))))"

text \<open>The code at the entry, as it is written in the source.\<close>

definition entry_code :: "u64 \<Rightarrow> u32 list" where
  "entry_code main_addr =
     (let main_pc = ucast (main_addr div 4) :: u32
      in [0x000000FB OR push_bit 8 (main_pc AND 0x00FFFFFF),
          0x00000000 OR push_bit 8 (drop_bit 24 main_pc AND 0x07F),
          0x00000000,
          0x08100620,
          0x00000302,
          0x000004FE,
          0x00000000,
          0x00000000])"

definition write_entry_code :: "u64 \<Rightarrow> u64 \<Rightarrow> AxCore \<Rightarrow> AxCore res" where
  "write_entry_code main_addr entry_addr s =
     (if wram_bytesize s < entry_addr + word_of_nat (length (entry_code main_addr)) * 4 then Fault Panic
      else res_bind (ax_store s (area_begin A_WRAM + entry_addr) (bytes_of_words (entry_code main_addr))) (\<lambda>s1.
        Ok (set_pc (ucast (entry_addr div 4)) s1)))"

text \<open>\<open>AltairX::load_hosted_program\<close>, in a build with LLVM.\<close>

definition load_hosted_program :: "AxELFFile option \<Rightarrow> bytes \<Rightarrow> bytes list \<Rightarrow> AxCore \<Rightarrow> AxCore res" where
  "load_hosted_program elf filename argv s0 =
     (case elf of
        None \<Rightarrow> Fault Panic
      | Some e \<Rightarrow>
          res_bind (get_entry_point e (str_bytes ''main'')) (\<lambda>entry.
          res_bind (load_sections e entry s0) (\<lambda>(bounds, s1).
          res_bind (setup_stack bounds s1) (\<lambda>(stack_end, s2).
          res_bind (write_entry_code (ey_value entry) stack_end s2) (\<lambda>s3.
          load_host_argv filename argv s3)))))"

end
