(* ===== verification/V2_Hosted.thy ===== *)
theory V2_Hosted
  imports V2_Loader
begin

text \<open>
  What the loader of the second version leaves in memory: the sections of an ELF file in WRAM, the
  arguments and their vector on the stack, the entry code above it, apart from one another; and how a
  hosted program starts and ends under that entry code. WRAM has \<open>2 ^ k\<close> bytes here, at most 2 GiB.
\<close>

section \<open>Addresses of WRAM\<close>

text \<open>WRAM of \<open>2 ^ k\<close> bytes, up to 2 GiB: an offset below its size is the offset of its address.\<close>

definition wram_pow :: "nat \<Rightarrow> AxCore \<Rightarrow> bool" where
  "wram_pow k s \<longleftrightarrow> k \<le> 31 \<and> wf2 s \<and> bsize (blocks s A_WRAM) = 2 ^ k"

lemma wram_map:
  assumes "wram_pow k s" and "o' < 2 ^ k"
  shows "ax_map s (area_begin A_WRAM + word_of_nat o') = (A_WRAM, o')"
proof -
  have k: "k \<le> 31" "wf2 s" "bsize (blocks s A_WRAM) = 2 ^ k" using assms(1) by (auto simp: wram_pow_def)
  have o31: "o' < 2 ^ 31" using assms(2) k(1) by (meson le_less_trans less_le_trans one_le_numeral power_increasing)
  let ?w = "word_of_nat o' :: u64"
  have wo: "unat ?w = o'" using o31 by (simp add: unsigned_of_nat take_bit_nat_eq_self)
  have w: "?w = take_bit k ?w"
    using assms(2) by (simp add: wo take_bit_nat_eq_self word_unat_eq_iff unsigned_take_bit_eq)
  have bk: "bit ?w n \<Longrightarrow> n < k" for n using w by (metis bit_take_bit_iff)
  have a: "(area_begin A_WRAM :: u64) = push_bit 31 1" by simp
  have b31: "bit (push_bit 31 (1 :: u64)) n \<longleftrightarrow> n = 31" for n
    by (subst bit_push_bit_iff) (auto simp: bit_1_iff)
  have "\<not> bit ?w 31" using bk [of 31] k(1) by auto
  then have "?w AND push_bit 31 1 = 0"
    by (intro bit_word_eqI) (auto simp only: bit_and_iff b31 bit_0_eq bot_apply bot_bool_def)
  then have sum: "area_begin A_WRAM + ?w = ?w OR push_bit 31 1"
    by (simp add: a disjunctive_add_eq_or add.commute del: area_begin.simps)
  have "bit ((?w OR push_bit 31 1) AND area_begin A_WRAM) 31"
    unfolding a by (simp only: bit_and_iff bit_or_iff b31 simp_thms)
  then have "(?w OR push_bit 31 1) AND area_begin A_WRAM \<noteq> 0" by (metis bit_0_eq bot_apply bot_bool_def)
  then have area: "area_of (area_begin A_WRAM + ?w) = A_WRAM" by (simp only: area_of_def sum) simp
  have mask: "m_wram_mask s = mask k"
    using k by (simp add: wf2_def byte_size_def mask_eq_exp_minus_1)
  have "(?w OR push_bit 31 1) AND mask k = ?w"
    using bk k(1) by (intro bit_word_eqI) (auto simp only: bit_and_iff bit_or_iff b31 bit_mask_iff possible_bit_word)
  then have "unat ((area_begin A_WRAM + ?w) AND m_wram_mask s) = o'" by (simp only: sum mask wo)
  then show ?thesis by (simp add: ax_map_def Let_def area del: area_begin.simps)
qed

text \<open>A mask that is no row of ones has a zero below its highest bit.\<close>

lemma not_pow_hole:
  fixes m :: u64
  assumes "m \<noteq> 0" and "\<And>k. m \<noteq> mask k"
  obtains j where "\<not> bit m j" and "2 ^ j < unat m" and "j < 63"
proof -
  have f: "finite {n. bit m n}" by (rule finite_subset [of _ "{..<64}"]) (auto dest: bit_imp_le_length)
  have ne: "{n. bit m n} \<noteq> {}" using assms(1) by (auto simp: bit_eq_iff)
  define t where "t = Max {n. bit m n}"
  have t: "bit m t" using Max_in [OF f ne] by (simp add: t_def)
  have le: "bit m n \<Longrightarrow> n \<le> t" for n using Max_ge [OF f] by (simp add: t_def)
  have t64: "t < 64" using bit_imp_le_length [OF t] by simp
  have "\<exists>j < t. \<not> bit m j"
  proof (rule ccontr)
    assume a: "\<not> (\<exists>j < t. \<not> bit m j)"
    have "m = mask (Suc t)"
    proof (rule bit_word_eqI)
      fix n assume "n < LENGTH(64)"
      show "bit m n = bit (mask (Suc t) :: u64) n"
        using a t le [of n] \<open>n < LENGTH(64)\<close> by (auto simp: bit_mask_iff less_Suc_eq)
    qed
    then show False using assms(2) by blast
  qed
  then obtain j where j: "j < t" "\<not> bit m j" by blast
  have "bit (unat m) t" using t by (simp add: bit_unsigned_iff)
  then have "2 ^ t \<le> unat m" by (metis bit_iff_odd div_less even_zero not_le)
  moreover have "(2 :: nat) ^ j < 2 ^ t" using j(1) by simp
  ultimately have "2 ^ j < unat m" by (rule less_le_trans [rotated])
  moreover have "j < 63" using j(1) t64 by linarith
  ultimately show ?thesis using j(2) that by blast
qed

text \<open>
  C16. Every byte of a WRAM that is not empty has its own address, its offset behind \<open>WRAM_BEGIN\<close>, exactly
  when WRAM has a power of two of bytes and at most 2 GiB. For any other size, of 3 MiB for instance,
  some byte of it cannot be addressed there: the mask, the size less one, takes its offset to another
  byte, or the address leaves WRAM. \<open>parse_args\<close> takes any number of MiB.
\<close>
theorem wram_addressable:
  assumes "wf2 s" and "bsize (blocks s A_WRAM) \<noteq> 0"
  shows "(\<forall>i < bsize (blocks s A_WRAM). ax_map s (area_begin A_WRAM + word_of_nat i) = (A_WRAM, i)) \<longleftrightarrow>
    (\<exists>k \<le> 31. bsize (blocks s A_WRAM) = 2 ^ k)"
proof
  let ?n = "bsize (blocks s A_WRAM)"
  assume all: "\<forall>i < ?n. ax_map s (area_begin A_WRAM + word_of_nat i) = (A_WRAM, i)"
  have "area_of (area_begin A_WRAM + word_of_nat (2 ^ 31)) = A_SPM" by (simp add: area_of_def)
  then have "ax_map s (area_begin A_WRAM + word_of_nat (2 ^ 31)) \<noteq> (A_WRAM, 2 ^ 31)"
    by (simp add: ax_map_def Let_def del: area_begin.simps)
  then have n31: "?n \<le> 2 ^ 31" using all by (meson not_le)
  have m: "m_wram_mask s = word_of_nat (?n - 1)"
    using assms by (simp add: wf2_def byte_size_def of_nat_diff)
  then have um: "unat (m_wram_mask s) = ?n - 1"
    using n31 by (simp add: unsigned_of_nat take_bit_nat_eq_self)
  show "\<exists>k \<le> 31. ?n = 2 ^ k"
  proof (cases "\<exists>k. m_wram_mask s = mask k")
    case True
    then obtain k where "?n - 1 = unat (mask k :: u64)" using um by metis
    moreover have "unat (mask k :: u64) = mask (min 64 k)"
      using unsigned_of_nat [of "mask k", where 'b = 64 and 'a = nat] by (simp add: of_nat_mask_eq take_bit_of_mask)
    ultimately have "?n - 1 = 2 ^ min 64 k - 1" by (simp add: mask_eq_exp_minus_1)
    moreover have "(0 :: nat) < 2 ^ min 64 k" by simp
    ultimately have "?n = 2 ^ min 64 k" using assms(2) by linarith
    moreover from this n31 have "min 64 k \<le> 31" by (metis power_le_imp_le_exp one_less_numeral_iff semiring_norm(76))
    ultimately show ?thesis by blast
  next
    case False
    then have "m_wram_mask s \<noteq> 0" by (metis mask_0)
    then obtain j where j: "\<not> bit (m_wram_mask s) j" "2 ^ j < unat (m_wram_mask s)" "j < 63"
      using not_pow_hole False by metis
    have "ax_map s (area_begin A_WRAM + word_of_nat (2 ^ j)) = (A_WRAM, 2 ^ j)"
      using j(2) um by (intro all [rule_format]) linarith
    then have "unat ((area_begin A_WRAM + word_of_nat (2 ^ j)) AND m_wram_mask s) = 2 ^ j"
      by (auto simp: ax_map_def Let_def simp del: area_begin.simps)
    then have "bit (unat ((area_begin A_WRAM + word_of_nat (2 ^ j)) AND m_wram_mask s)) j"
      by (simp add: bit_exp_iff)
    then show ?thesis using j(1) by (simp add: bit_unsigned_iff bit_and_iff del: area_begin.simps)
  qed
next
  assume "\<exists>k \<le> 31. bsize (blocks s A_WRAM) = 2 ^ k"
  then obtain k where k: "wram_pow k s" "bsize (blocks s A_WRAM) = 2 ^ k"
    using assms(1) by (auto simp: wram_pow_def)
  show "\<forall>i < bsize (blocks s A_WRAM). ax_map s (area_begin A_WRAM + word_of_nat i) = (A_WRAM, i)"
    using wram_map [OF k(1)] k(2) by simp
qed

theorem wram_addressable_witness:
  "\<exists>s. AxMemory_init 3 1 1 = Ok s \<and> bsize (blocks s A_WRAM) = 0x300000 \<and>
     \<not> (\<forall>i < 0x300000. ax_map s (area_begin A_WRAM + word_of_nat i) = (A_WRAM, i))"
proof -
  obtain s where s: "AxMemory_init 3 1 1 = Ok s" "bsize (blocks s A_WRAM) = 0x300000"
    by (simp add: AxMemory_init_def words_block_def)
  have np: "(0x300000 :: nat) \<noteq> 2 ^ k" for k
  proof
    assume k: "(0x300000 :: nat) = 2 ^ k"
    then have "(2 :: nat) ^ 21 < 2 ^ k" "(2 :: nat) ^ k < 2 ^ 22" by (simp_all flip: k)
    then have "21 < k" "k < 22" by (metis power_less_imp_less_exp one_less_numeral_iff semiring_norm(76))+
    then show False by simp
  qed
  then show ?thesis using wram_addressable [OF wf2_init [OF s(1)]] np s
    by (intro exI [of _ s]) (simp del: area_begin.simps)
qed

lemma wram_store:
  "wram_pow k s \<Longrightarrow> o' < 2 ^ k \<Longrightarrow> ax_store s (area_begin A_WRAM + word_of_nat o') bs = x_write A_WRAM s o' bs"
  by (simp add: ax_store_def wram_map del: area_begin.simps)

lemma wram_load:
  "wram_pow k s \<Longrightarrow> o' < 2 ^ k \<Longrightarrow> ax_load s (area_begin A_WRAM + word_of_nat o') n = x_read A_WRAM s o' n"
  by (simp add: ax_load_def wram_map del: area_begin.simps)

lemma wram_pow_write: "x_write a s off bs = Ok s' \<Longrightarrow> wram_pow k s \<Longrightarrow> wram_pow k s'"
  using wf2_x_write x_write_frame(6) by (auto simp: wram_pow_def)


lemma word_of_nat_unat: "word_of_nat (unat w) = w"
  by simp

lemma wram_store_addr:
  assumes "wram_pow k s" and "unat a < 2 ^ k"
  shows "ax_store s (area_begin A_WRAM + a) bs = x_write A_WRAM s (unat a) bs"
  using wram_store [OF assms] by (simp only: word_of_nat_unat)

lemma wram_load_addr:
  assumes "wram_pow k s" and "unat a < 2 ^ k"
  shows "ax_load s (area_begin A_WRAM + a) n = x_read A_WRAM s (unat a) n"
  using wram_load [OF assms] by (simp only: word_of_nat_unat)

lemma x_write_Nil: "x_write a s off [] = Ok s' \<Longrightarrow> s' = s"
proof -
  assume "x_write a s off [] = Ok s'"
  then have "s' = s\<lparr>blocks := (blocks s)(a := (blocks s a)\<lparr>bdata := bdata (blocks s a)\<rparr>)\<rparr>"
    by (auto simp: x_write_eq_Ok wr_block_def not_le [symmetric] cong: if_cong)
  then show "s' = s" by simp
qed

lemma unat_wram_bytesize: "wram_pow k s \<Longrightarrow> unat (wram_bytesize s) = 2 ^ k"
proof -
  assume "wram_pow k s"
  then have b: "bsize (blocks s A_WRAM) = 2 ^ k" and k: "k \<le> 31" by (auto simp: wram_pow_def)
  have "(2 :: nat) ^ k \<le> 2 ^ 31" using k by (rule power_increasing) simp
  then have "(2 :: nat) ^ k < 2 ^ 64" by (rule le_less_trans) simp
  then have "take_bit 64 ((2 :: nat) ^ k) = 2 ^ k" by (rule take_bit_nat_eq_self)
  then show ?thesis by (simp only: wram_bytesize_def byte_size_def b unsigned_of_nat len_num1 len_bit0) simp
qed

section \<open>Sections in memory\<close>

text \<open>A section that is copied, and does not wrap around the address space; one apart from a range.\<close>

definition copied :: "AxELFSection \<Rightarrow> bool" where
  "copied t \<longleftrightarrow> has_flag t AX_SHF_ALLOC \<and> es_content t \<noteq> []"

definition sec_fits :: "AxELFSection \<Rightarrow> bool" where
  "sec_fits t \<longleftrightarrow> unat (es_addr t) + length (es_content t) < 2 ^ 64"

definition sec_apart :: "AxELFSection \<Rightarrow> nat \<Rightarrow> nat \<Rightarrow> bool" where
  "sec_apart t i n \<longleftrightarrow>
     (copied t \<longrightarrow> unat (es_addr t) + length (es_content t) \<le> i \<or> i + n \<le> unat (es_addr t))"

definition sec_bound :: "AxELFSection \<Rightarrow> u64 \<times> u64" where
  "sec_bound t = (es_addr t, es_addr t + word_of_nat (length (es_content t)))"

lemma load_section_step:
  assumes step: "load_section entry t (s, f, acc) = Ok (s', f', acc')"
    and k: "wram_pow k s" and fits: "sec_fits t"
  shows "wram_pow k s'"
    and "acc' = (if has_flag t AX_SHF_ALLOC then acc @ [sec_bound t] else acc)"
    and "has_flag t AX_SHF_ALLOC \<Longrightarrow> unat (es_addr t) + length (es_content t) \<le> 2 ^ k"
    and "copied t \<Longrightarrow> x_write A_WRAM s (unat (es_addr t)) (es_content t) = Ok s'"
    and "\<not> copied t \<Longrightarrow> s' = s"
proof -
  show acc: "acc' = (if has_flag t AX_SHF_ALLOC then acc @ [sec_bound t] else acc)"
    using step by (auto simp: load_section_def sec_bound_def Let_def res_bind_eq_Ok split: if_splits)
  let ?n = "length (es_content t)"
  have alloc: "unat (es_addr t) + ?n \<le> 2 ^ k \<and>
      ax_store s (area_begin A_WRAM + es_addr t) (es_content t) = Ok s'" if "has_flag t AX_SHF_ALLOC"
  proof -
    have st: "\<not> wram_bytesize s < es_addr t + word_of_nat ?n"
      "ax_store s (area_begin A_WRAM + es_addr t) (es_content t) = Ok s'"
      using step that by (auto simp: load_section_def Let_def res_bind_eq_Ok split: if_splits)
    have "unat (word_of_nat ?n :: u64) = ?n" using fits
      by (simp add: sec_fits_def unsigned_of_nat take_bit_nat_eq_self)
    then have "unat (es_addr t + word_of_nat ?n) = unat (es_addr t) + ?n"
      using fits by (simp add: unat_add_lem [THEN iffD1] sec_fits_def)
    then show ?thesis using st unat_wram_bytesize [OF k] by (simp add: word_less_nat_alt)
  qed
  then show "has_flag t AX_SHF_ALLOC \<Longrightarrow> unat (es_addr t) + ?n \<le> 2 ^ k" by blast
  show w: "x_write A_WRAM s (unat (es_addr t)) (es_content t) = Ok s'" if "copied t"
  proof -
    have "0 < ?n" using that by (simp add: copied_def)
    moreover have "unat (es_addr t) + ?n \<le> 2 ^ k" using alloc that by (simp add: copied_def)
    ultimately have "unat (es_addr t) < 2 ^ k" by linarith
    then show ?thesis using alloc that wram_store_addr [OF k] by (auto simp: copied_def)
  qed
  show e: "s' = s" if "\<not> copied t"
  proof (cases "has_flag t AX_SHF_ALLOC")
    case True
    then have "es_content t = []" using that by (simp add: copied_def)
    then show ?thesis using alloc [OF True] x_write_Nil by (auto simp: ax_store_def Let_def ax_map_def)
  next
    case False
    then show ?thesis using step by (simp add: load_section_def)
  qed
  show "wram_pow k s'" using w e k wram_pow_write by blast
qed

lemma load_section_other:
  assumes "load_section entry t (s, f, acc) = Ok (s', f', acc')" "wram_pow k s" "sec_fits t"
    and "sec_apart t i n"
  shows "x_read A_WRAM s' i n = x_read A_WRAM s i n"
proof (cases "copied t")
  case True
  then show ?thesis using load_section_step(4) [OF assms(1-3)] assms(4)
    by (auto simp: sec_apart_def intro: area_mem.rd_wr_other)
next
  case False
  then show ?thesis using load_section_step(5) [OF assms(1-3)] by simp
qed

text \<open>The loop over the sections.\<close>

lemma fold_load_sections:
  assumes "fold_res (load_section entry) ts (s, f, acc) = Ok (s', f', acc')"
    and "wram_pow k s" and "\<forall>t \<in> set ts. sec_fits t"
  shows "wram_pow k s' \<and> acc' = acc @ map sec_bound (filter (\<lambda>t. has_flag t AX_SHF_ALLOC) ts) \<and>
    (\<forall>t \<in> set ts. has_flag t AX_SHF_ALLOC \<longrightarrow> unat (es_addr t) + length (es_content t) \<le> 2 ^ k) \<and>
    (\<forall>i n. (\<forall>t \<in> set ts. sec_apart t i n) \<longrightarrow> x_read A_WRAM s' i n = x_read A_WRAM s i n)"
  using assms
proof (induction ts arbitrary: s f acc)
  case Nil
  then show ?case by simp
next
  case (Cons t ts)
  from Cons.prems(1) obtain s1 f1 acc1
    where 1: "load_section entry t (s, f, acc) = Ok (s1, f1, acc1)"
      and 2: "fold_res (load_section entry) ts (s1, f1, acc1) = Ok (s', f', acc')"
    by (auto simp: res_bind_eq_Ok)
  have fits: "sec_fits t" using Cons.prems(3) by simp
  note step = load_section_step [OF 1 Cons.prems(2) fits]
  have rest: "wram_pow k s' \<and> acc' = acc1 @ map sec_bound (filter (\<lambda>t. has_flag t AX_SHF_ALLOC) ts) \<and>
    (\<forall>t \<in> set ts. has_flag t AX_SHF_ALLOC \<longrightarrow> unat (es_addr t) + length (es_content t) \<le> 2 ^ k) \<and>
    (\<forall>i n. (\<forall>t \<in> set ts. sec_apart t i n) \<longrightarrow> x_read A_WRAM s' i n = x_read A_WRAM s1 i n)"
    by (rule Cons.IH [OF 2 step(1)]) (use Cons.prems(3) in simp)
  moreover have "acc' = acc @ map sec_bound (filter (\<lambda>t. has_flag t AX_SHF_ALLOC) (t # ts))"
    using rest step(2) by simp
  moreover have "x_read A_WRAM s' i n = x_read A_WRAM s i n" if "\<forall>t \<in> set (t # ts). sec_apart t i n" for i n
    using rest load_section_other [OF 1 Cons.prems(2) fits] that by simp
  ultimately show ?case using step(3) by simp
qed

lemma load_sections_eq_Ok:
  "load_sections elf entry s0 = Ok (bounds, s') \<longleftrightarrow>
     (\<exists>s. fold_res (load_section entry) (elf_sections elf) (s0, False, []) = Ok (s, True, bounds) \<and>
        s' = set_pc (ucast (ey_value entry div 4)) s)"
  by (auto simp: load_sections_def res_bind_eq_Ok split: if_splits)

lemma set_pc_frame [simp]:
  "blocks (set_pc p s) = blocks s" "wram_pow k (set_pc p s) = wram_pow k s" "ax_map (set_pc p s) = ax_map s"
  "x_read a (set_pc p s) = x_read a s" "x_out (set_pc p s) = x_out s" "m_syscall (set_pc p s) = m_syscall s"
  "r_pc (m_regs (set_pc p s)) = p" "gpi (m_regs (set_pc p s)) = gpi (m_regs s)"
proof -
  have "area_mask (set_pc p s) b = area_mask s b" for b by (cases b) (simp_all add: set_pc_def)
  then show "ax_map (set_pc p s) = ax_map s" by (intro ext) (simp add: ax_map_def)
qed (simp_all add: set_pc_def wram_pow_def wf2_def x_read_def fun_eq_iff)

lemma load_sections_content:
  assumes ld: "load_sections elf entry s0 = Ok (bounds, s')" and k: "wram_pow k s0"
    and fits: "\<forall>t \<in> set (elf_sections elf). sec_fits t"
    and sec: "elf_sections elf = pre @ sec # post" "copied sec"
    and apart: "\<forall>t \<in> set post. sec_apart t (unat (es_addr sec)) (length (es_content sec))"
  shows "x_read A_WRAM s' (unat (es_addr sec)) (length (es_content sec)) = Ok (es_content sec)"
    and "unat (es_addr sec) + length (es_content sec) \<le> 2 ^ k"
proof -
  from ld obtain s where fold: "fold_res (load_section entry) (elf_sections elf) (s0, False, []) = Ok (s, True, bounds)"
    and s': "s' = set_pc (ucast (ey_value entry div 4)) s"
    by (auto simp: load_sections_eq_Ok)
  from fold obtain s1 f1 a1 s2 f2 a2
    where 1: "fold_res (load_section entry) pre (s0, False, []) = Ok (s1, f1, a1)"
      and 2: "load_section entry sec (s1, f1, a1) = Ok (s2, f2, a2)"
      and 3: "fold_res (load_section entry) post (s2, f2, a2) = Ok (s, True, bounds)"
    by (auto simp: sec(1) fold_res_append res_bind_eq_Ok)
  have k1: "wram_pow k s1" using fold_load_sections [OF 1 k] fits by (simp add: sec(1))
  note step = load_section_step [OF 2 k1]
  have fs: "sec_fits sec" "\<forall>t \<in> set post. sec_fits t" using fits by (simp_all add: sec(1))
  have w: "x_write A_WRAM s1 (unat (es_addr sec)) (es_content sec) = Ok s2" by (rule step(4) [OF fs(1) sec(2)])
  have "x_read A_WRAM s (unat (es_addr sec)) (length (es_content sec)) = Ok (es_content sec)"
    using fold_load_sections [OF 3 step(1) [OF fs(1)] fs(2)] apart area_mem.rd_wr [OF w] by simp
  then show "x_read A_WRAM s' (unat (es_addr sec)) (length (es_content sec)) = Ok (es_content sec)"
    by (simp add: s')
  show "unat (es_addr sec) + length (es_content sec) \<le> 2 ^ k"
    using step(3) [OF fs(1)] sec(2) by (simp add: copied_def)
qed

text \<open>
  C15. Loading an ELF file into a WRAM of \<open>2 ^ k\<close> bytes and at most 2 GiB (\<open>wram_addressable\<close> says what
  happens otherwise), from a file none of whose sections wraps around the address space: when
  \<open>load_sections\<close> succeeds, the contents of every allocated section that no later one overlaps can be read
  back from its address in WRAM, the program counter is the entry point in words, and the bounds returned
  are those of the allocated sections.
\<close>
theorem load_sections_correct:
  assumes "load_sections elf entry s0 = Ok (bounds, s)" and "wram_pow k s0"
    and "\<forall>t \<in> set (elf_sections elf). sec_fits t"
    and "elf_sections elf = pre @ sec # post" and "copied sec"
    and "\<forall>t \<in> set post. sec_apart t (unat (es_addr sec)) (length (es_content sec))"
  shows "ax_load s (area_begin A_WRAM + es_addr sec) (length (es_content sec)) = Ok (es_content sec) \<and>
    r_pc (m_regs s) = ucast (ey_value entry div 4) \<and>
    bounds = map sec_bound (filter (\<lambda>t. has_flag t AX_SHF_ALLOC) (elf_sections elf))"
proof -
  note c = load_sections_content [OF assms]
  from assms(1) obtain s1 where fold: "fold_res (load_section entry) (elf_sections elf) (s0, False, []) = Ok (s1, True, bounds)"
    and s: "s = set_pc (ucast (ey_value entry div 4)) s1"
    by (auto simp: load_sections_eq_Ok)
  note f = fold_load_sections [OF fold assms(2,3)]
  have "0 < length (es_content sec)" using assms(5) by (simp add: copied_def)
  then have "unat (es_addr sec) < 2 ^ k" using c(2) by linarith
  then have "ax_load s (area_begin A_WRAM + es_addr sec) (length (es_content sec)) = Ok (es_content sec)"
    using wram_load_addr [of k s "es_addr sec"] f c(1) by (simp add: s)
  then show ?thesis using f by (simp add: s)
qed

section \<open>The stack of a hosted program\<close>

text \<open>The offsets at which arguments are pushed, from the offset \<open>i\<close> of the stack pointer down.\<close>

fun arg_offs :: "nat \<Rightarrow> bytes list \<Rightarrow> nat list" where
  "arg_offs i [] = []"
| "arg_offs i (a # as) = (i - (length a + 1)) # arg_offs (i - (length a + 1)) as"

fun args_size :: "bytes list \<Rightarrow> nat" where
  "args_size [] = 0"
| "args_size (a # as) = length a + 1 + args_size as"

lemma length_arg_offs [simp]: "length (arg_offs i as) = length as"
  by (induction as arbitrary: i) simp_all

abbreviation wram_addr :: "nat \<Rightarrow> u64" where
  "wram_addr i \<equiv> area_begin A_WRAM + word_of_nat i"

lemma set_reg_frame [simp]:
  "blocks (set_reg i v s) = blocks s" "x_read a (set_reg i v s) = x_read a s"
  "ax_map (set_reg i v s) = ax_map s" "wram_pow k (set_reg i v s) = wram_pow k s"
  "r_pc (m_regs (set_reg i v s)) = r_pc (m_regs s)" "r_lr (m_regs (set_reg i v s)) = r_lr (m_regs s)"
  "m_syscall (set_reg i v s) = m_syscall s" "x_out (set_reg i v s) = x_out s" "m_error (set_reg i v s) = m_error s"
  "gpi (m_regs (set_reg i v s)) = (gpi (m_regs s))[i := v]"
proof -
  have "area_mask (set_reg i v s) b = area_mask s b" for b by (cases b) (simp_all add: set_reg_def)
  then show "ax_map (set_reg i v s) = ax_map s" by (intro ext) (simp add: ax_map_def)
qed (simp_all add: set_reg_def set_gpi_def wram_pow_def wf2_def x_read_def fun_eq_iff)

lemma set_reg_twice [simp]: "set_reg i w (set_reg i v s) = set_reg i w s"
  by (simp add: set_reg_def set_gpi_def)

lemma wram_pow_gpi: "wram_pow k s \<Longrightarrow> length (gpi (m_regs s)) = 64"
  by (simp add: wram_pow_def wf2_def)

lemma sp_set_reg: "wram_pow k s \<Longrightarrow> sp (set_reg 0 v s) = v"
  by (simp add: sp_def wram_pow_gpi)

lemma wram_addr_diff: "j \<le> i \<Longrightarrow> wram_addr i - word_of_nat j = wram_addr (i - j)"
  by (simp add: of_nat_diff)

lemma wram_write_ok:
  assumes "wram_pow k s" and "i < 2 ^ k" and "i + length bs \<le> 2 ^ k"
  obtains s' where "ax_store s (wram_addr i) bs = Ok s'" "x_write A_WRAM s i bs = Ok s'" "wram_pow k s'"
    "m_regs s' = m_regs s"
proof -
  have "\<exists>s'. x_write A_WRAM s i bs = Ok s'"
    using assms by (simp add: x_write_Ok_iff wram_pow_def)
  then obtain s' where "x_write A_WRAM s i bs = Ok s'" by blast
  then show ?thesis using that wram_store [OF assms(1,2)] wram_pow_write [OF _ assms(1)] x_write_frame(1) by metis
qed

text \<open>One argument: its bytes and a NUL, below the stack pointer.\<close>

lemma add_argument_ok:
  assumes k: "wram_pow k s" and sp: "sp s = wram_addr i" and i: "i \<le> 2 ^ k" and len: "length a + 1 \<le> i"
  obtains s' where "add_argument a s = Ok (wram_addr (i - (length a + 1)), s')" "wram_pow k s'"
    "m_regs s' = m_regs (set_reg 0 (wram_addr (i - (length a + 1))) s)"
    "x_write A_WRAM (set_reg 0 (wram_addr (i - (length a + 1))) s) (i - (length a + 1)) (a @ [0]) = Ok s'"
proof -
  let ?j = "i - (length a + 1)"
  let ?s = "set_reg 0 (wram_addr ?j) s"
  have "?j < 2 ^ k" "?j + length (a @ [0]) \<le> 2 ^ k" using i len by auto
  then obtain s' where s': "ax_store ?s (wram_addr ?j) (a @ [0]) = Ok s'" "x_write A_WRAM ?s ?j (a @ [0]) = Ok s'"
      "wram_pow k s'" "m_regs s' = m_regs ?s"
    using wram_write_ok [of k ?s ?j "a @ [0]"] k by (auto simp del: area_begin.simps)
  have "sp s - (word_of_nat (length a) + 1) = wram_addr ?j"
    using wram_addr_diff [OF len] by (simp add: sp)
  then have "add_argument a s = Ok (wram_addr ?j, s')"
    unfolding add_argument_def Let_def by (simp only: sp_set_reg [OF k] s'(1) res_bind_simps)
  then show ?thesis by (rule that [OF _ s'(3,4,2)])
qed

lemma add_arguments_ok:
  assumes "wram_pow k s" and "sp s = wram_addr i" and "i \<le> 2 ^ k" and "args_size as \<le> i"
  shows "\<exists>s'. add_arguments as s = Ok (map wram_addr (arg_offs i as), s') \<and> wram_pow k s' \<and>
    m_regs s' = m_regs (set_reg 0 (wram_addr (i - args_size as)) s) \<and>
    (\<forall>m < length as. i - args_size as \<le> arg_offs i as ! m \<and> arg_offs i as ! m + length (as ! m) + 1 \<le> i \<and>
       x_read A_WRAM s' (arg_offs i as ! m) (length (as ! m) + 1) = Ok (as ! m @ [0])) \<and>
    (\<forall>j n. i \<le> j \<or> j + n \<le> i - args_size as \<longrightarrow> x_read A_WRAM s' j n = x_read A_WRAM s j n)"
  using assms
proof (induction as arbitrary: s i)
  case Nil
  then have "(gpi (m_regs s))[0 := wram_addr i] = gpi (m_regs s)"
    unfolding sp_def by (metis list_update_id)
  then have "set_reg 0 (wram_addr i) s = s" by (simp add: set_reg_def set_gpi_def)
  with Nil show ?case by simp
next
  case (Cons a as)
  let ?j = "i - (length a + 1)"
  obtain s1 where s1: "add_argument a s = Ok (wram_addr ?j, s1)" "wram_pow k s1"
      "m_regs s1 = m_regs (set_reg 0 (wram_addr ?j) s)"
      "x_write A_WRAM (set_reg 0 (wram_addr ?j) s) ?j (a @ [0]) = Ok s1"
    using add_argument_ok [OF Cons.prems(1-3), of a] Cons.prems(4) by auto
  have sp1: "sp s1 = wram_addr ?j" using s1(3) sp_set_reg [OF Cons.prems(1)] by (simp add: sp_def)
  have sz: "args_size as \<le> ?j" "?j \<le> 2 ^ k" using Cons.prems(3,4) by auto
  from Cons.IH [OF s1(2) sp1 sz(2,1)] obtain s' where
    s': "add_arguments as s1 = Ok (map wram_addr (arg_offs ?j as), s')" "wram_pow k s'"
      "m_regs s' = m_regs (set_reg 0 (wram_addr (?j - args_size as)) s1)"
    and args: "\<And>m. m < length as \<Longrightarrow> ?j - args_size as \<le> arg_offs ?j as ! m \<and>
       arg_offs ?j as ! m + length (as ! m) + 1 \<le> ?j \<and>
       x_read A_WRAM s' (arg_offs ?j as ! m) (length (as ! m) + 1) = Ok (as ! m @ [0])"
    and other: "\<And>j n. ?j \<le> j \<or> j + n \<le> ?j - args_size as \<Longrightarrow> x_read A_WRAM s' j n = x_read A_WRAM s1 j n"
    by blast
  have first: "x_read A_WRAM s' ?j (length a + 1) = Ok (a @ [0])"
    using area_mem.rd_wr [OF s1(4)] other [of ?j] by simp
  have rest: "x_read A_WRAM s' j n = x_read A_WRAM s j n"
    if "i \<le> j \<or> j + n \<le> i - args_size (a # as)" for j n
  proof -
    have "?j \<le> j \<or> j + n \<le> ?j - args_size as" using that by auto
    then have "x_read A_WRAM s' j n = x_read A_WRAM s1 j n" by (rule other)
    moreover have "?j + length (a @ [0]) \<le> j \<or> j + n \<le> ?j" using that Cons.prems(4) by auto
    then have "x_read A_WRAM s1 j n = x_read A_WRAM s j n"
      using area_mem.rd_wr_other [OF s1(4)] by simp
    ultimately show ?thesis by simp
  qed
  have regs: "m_regs s' = m_regs (set_reg 0 (wram_addr (i - args_size (a # as))) s)"
    using s'(3) s1(3) by (simp add: set_reg_def set_gpi_def)
  have each: "i - args_size (a # as) \<le> arg_offs i (a # as) ! m \<and>
      arg_offs i (a # as) ! m + length ((a # as) ! m) + 1 \<le> i \<and>
      x_read A_WRAM s' (arg_offs i (a # as) ! m) (length ((a # as) ! m) + 1) = Ok ((a # as) ! m @ [0])"
    if "m < length (a # as)" for m
  proof (cases m)
    case 0
    then show ?thesis using first Cons.prems(4) by simp
  next
    case (Suc m')
    then show ?thesis using args [of m'] that by simp linarith
  qed
  have ex: "add_arguments (a # as) s = Ok (map wram_addr (arg_offs i (a # as)), s')"
    by (simp add: s1(1) s'(1) del: area_begin.simps)
  show ?case
    by (intro exI [of _ s'] conjI ex s'(2) regs) (use each rest in blast)+
qed

lemma length_words64 [simp]: "length (words64 ws) = 8 * length ws"
  by (induction ws) (simp_all add: words64_def)

lemma argc_word: "n < 2 ^ 31 \<Longrightarrow> (scast (word_of_nat n :: u32) :: u64) = word_of_nat n"
proof -
  assume n: "n < 2 ^ 31"
  have "sint (word_of_nat n :: u32) = signed_take_bit 31 (int n)" by (simp add: signed_of_nat)
  also have "\<dots> = int n" using n by (intro signed_take_bit_int_eq_self) auto
  finally have "word_of_int (sint (word_of_nat n :: u32)) = (word_of_nat n :: u64)" by simp
  then show ?thesis by simp
qed

text \<open>The argument vector: the addresses of the arguments and a null pointer, below the arguments.\<close>

lemma load_host_argv_ok:
  fixes argv
  defines "args \<equiv> \<lambda>name. name # argv"
  assumes k: "wram_pow k s" and sp: "sp s = wram_addr i" and i: "i \<le> 2 ^ k"
    and sz: "args_size (args name) + 8 * (length argv + 2) \<le> i"
  defines "j \<equiv> i - args_size (args name) - 8 * (length argv + 2)"
  obtains s' where "load_host_argv name argv s = Ok s'" and "wram_pow k s'"
    and "gpi (m_regs s') = (gpi (m_regs s))[0 := wram_addr j, 1 := word_of_nat (length argv + 1), 2 := wram_addr j]"
    and "r_pc (m_regs s') = r_pc (m_regs s)"
    and "x_read A_WRAM s' j (8 * (length argv + 2)) = Ok (words64 (map wram_addr (arg_offs i (args name)) @ [0]))"
    and "\<forall>m < length (args name). arg_offs i (args name) ! m + length (args name ! m) + 1 \<le> i \<and>
       x_read A_WRAM s' (arg_offs i (args name) ! m) (length (args name ! m) + 1) = Ok (args name ! m @ [0])"
    and "\<forall>l n. i \<le> l \<or> l + n \<le> j \<longrightarrow> x_read A_WRAM s' l n = x_read A_WRAM s l n"
proof -
  let ?o = "i - args_size (args name)"
  have "args_size (args name) \<le> i" using sz by simp
  from add_arguments_ok [OF k sp i this] obtain s1 where
    s1: "add_arguments (args name) s = Ok (map wram_addr (arg_offs i (args name)), s1)" "wram_pow k s1"
      "m_regs s1 = m_regs (set_reg 0 (wram_addr ?o) s)"
    and a1: "\<And>m. m < length (args name) \<Longrightarrow> ?o \<le> arg_offs i (args name) ! m \<and>
       arg_offs i (args name) ! m + length (args name ! m) + 1 \<le> i \<and>
       x_read A_WRAM s1 (arg_offs i (args name) ! m) (length (args name ! m) + 1) = Ok (args name ! m @ [0])"
    and f1: "\<And>l n. i \<le> l \<or> l + n \<le> ?o \<Longrightarrow> x_read A_WRAM s1 l n = x_read A_WRAM s l n"
    by blast
  let ?buf = "map wram_addr (arg_offs i (args name)) @ [0]"
  have len: "length ?buf = length argv + 2" by (simp add: args_def)
  let ?s2 = "set_reg 0 (wram_addr j) s1"
  have sp1: "sp s1 = wram_addr ?o" using s1(3) sp_set_reg [OF k] by (simp add: sp_def)
  have "8 * (length argv + 2) \<le> ?o" using sz by simp
  from wram_addr_diff [OF this]
  have sp2: "sp s1 - 8 * word_of_nat (length ?buf) = wram_addr j"
    by (simp add: sp1 j_def args_def algebra_simps)
  have "j < 2 ^ k" "j + length (words64 ?buf) \<le> 2 ^ k" using sz i len by (auto simp: j_def)
  then obtain s3 where s3: "ax_store ?s2 (wram_addr j) (words64 ?buf) = Ok s3"
      "x_write A_WRAM ?s2 j (words64 ?buf) = Ok s3" "wram_pow k s3" "m_regs s3 = m_regs ?s2"
    using wram_write_ok [of k ?s2 j "words64 ?buf"] s1(2) by (auto simp del: area_begin.simps)
  have rd3: "x_read A_WRAM s3 l n = x_read A_WRAM s1 l n" if "?o \<le> l \<or> l + n \<le> j" for l n
  proof -
    have "j + length (words64 ?buf) \<le> l \<or> l + n \<le> j" using that sz len by (auto simp: j_def)
    then show ?thesis using area_mem.rd_wr_other [OF s3(2)] by simp
  qed
  let ?s' = "set_reg 2 (wram_addr j) (set_reg 1 (scast (word_of_nat (length argv + 1) :: u32)) s3)"
  have ld: "load_host_argv name argv s = Ok ?s'"
    unfolding load_host_argv_def Let_def s1(1) [unfolded args_def] res_bind_simps prod.case sp2 [unfolded args_def]
      sp_set_reg [OF s1(2)] s3(1) [unfolded args_def] ..
  have "length argv + 1 < 2 ^ 31"
  proof -
    have "(2 :: nat) ^ k \<le> 2 ^ 31" using k by (intro power_increasing) (auto simp: wram_pow_def)
    then show ?thesis using sz i by simp
  qed
  from argc_word [OF this]
  have regs: "gpi (m_regs ?s') = (gpi (m_regs s))[0 := wram_addr j, 1 := word_of_nat (length argv + 1), 2 := wram_addr j]"
    by (simp only: set_reg_frame s3(4) s1(3) list_update_overwrite)
  have other: "x_read A_WRAM ?s' l n = x_read A_WRAM s l n" if "i \<le> l \<or> l + n \<le> j" for l n
  proof -
    have "?o \<le> l \<or> l + n \<le> j" "i \<le> l \<or> l + n \<le> ?o" using that sz by (auto simp: j_def)
    then show ?thesis using rd3 f1 by simp
  qed
  have table: "x_read A_WRAM ?s' j (8 * (length argv + 2)) = Ok (words64 ?buf)"
    using area_mem.rd_wr [OF s3(2)] len by simp
  have each: "arg_offs i (args name) ! m + length (args name ! m) + 1 \<le> i \<and>
      x_read A_WRAM ?s' (arg_offs i (args name) ! m) (length (args name ! m) + 1) = Ok (args name ! m @ [0])"
    if "m < length (args name)" for m
    using a1 [OF that] rd3 by simp
  have k': "wram_pow k ?s'" and pc: "r_pc (m_regs ?s') = r_pc (m_regs s)" by (simp_all add: s3(3,4) s1(3))
  show ?thesis
    by (rule that [OF ld k' regs pc table]) (intro allI impI each other; assumption)+
qed

section \<open>The stack and the entry code\<close>

lemma total_end_ge: "(b, e) \<in> set bounds \<Longrightarrow> e \<le> total_end bounds"
proof -
  have mono: "m \<le> fold (\<lambda>(b, e) m. max m e) bounds m" for m :: u64 and bounds :: "(u64 \<times> u64) list"
    by (induction bounds arbitrary: m) (auto intro: order_trans [OF max.cobounded1])
  have "(b, e) \<in> set bounds \<Longrightarrow> e \<le> fold (\<lambda>(b, e) m. max m e) bounds m" for m
    by (induction bounds arbitrary: m) (auto intro: order_trans [OF max.cobounded2 mono])
  then show "(b, e) \<in> set bounds \<Longrightarrow> e \<le> total_end bounds" by (simp add: total_end_def)
qed

lemma total_end_le: "(\<And>b e. (b, e) \<in> set bounds \<Longrightarrow> e \<le> m) \<Longrightarrow> total_end bounds \<le> m"
proof -
  have "(\<And>b e. (b, e) \<in> set bounds \<Longrightarrow> e \<le> m) \<Longrightarrow> i \<le> m \<Longrightarrow> fold (\<lambda>(b, e) m. max m e) bounds i \<le> m" for i
  proof (induction bounds arbitrary: i)
    case (Cons x bounds)
    obtain b e where x: "x = (b, e)" by (cases x)
    have "e \<le> m" using Cons.prems(1) x by (meson list.set_intros(1))
    moreover have "\<And>b e. (b, e) \<in> set bounds \<Longrightarrow> e \<le> m" using Cons.prems(1) by (meson list.set_intros(2))
    ultimately show ?case using Cons.IH Cons.prems(2) by (simp add: x)
  qed simp
  then show "(\<And>b e. (b, e) \<in> set bounds \<Longrightarrow> e \<le> m) \<Longrightarrow> total_end bounds \<le> m"
    by (simp add: total_end_def)
qed

text \<open>The stack begins at the next multiple of 64 KiB above the sections, and ends one MiB above.\<close>

lemma setup_stack_ok:
  assumes st: "setup_stack bounds s = Ok (e, s')" and k: "wram_pow k s"
    and bound: "unat (total_end bounds) \<le> 2 ^ k"
  shows "unat (total_end bounds) + 0x100000 < unat e" and "unat e \<le> 2 ^ k" and "0x10000 dvd unat e"
    and "s' = set_reg 0 (wram_addr (unat e - 8)) s"
proof -
  let ?t = "unat (total_end bounds)"
  have k31: "(2 :: nat) ^ k \<le> 2 ^ 31" using k by (intro power_increasing) (auto simp: wram_pow_def)
  then have t: "?t \<le> 2 ^ 31" using bound by simp
  have d: "unat (drop_bit 16 (total_end bounds)) = ?t div 2 ^ 16" 
    unfolding unat_drop_bit_eq by (rule drop_bit_eq_div)
  have q: "?t div 2 ^ 16 \<le> 2 ^ 15" using div_le_mono [OF t, of "2 ^ 16"] by simp
  then have q1: "unat (drop_bit 16 (total_end bounds) + 1) = ?t div 2 ^ 16 + 1"
    using d by (subst unat_add_lem [THEN iffD1]) simp_all
  have al: "unat (push_bit 16 (drop_bit 16 (total_end bounds) + 1)) = (?t div 2 ^ 16 + 1) * 2 ^ 16"
  proof -
    have "unat (push_bit 16 (drop_bit 16 (total_end bounds) + 1)) = take_bit 64 (push_bit 16 (?t div 2 ^ 16 + 1))"
      by (simp only: unsigned_push_bit_eq q1) simp
    also have "\<dots> = push_bit 16 (?t div 2 ^ 16 + 1)"
      using q by (intro take_bit_nat_eq_self) (simp add: push_bit_eq_mult)
    finally show ?thesis by (simp add: push_bit_eq_mult)
  qed
  have e: "e = push_bit 16 (drop_bit 16 (total_end bounds) + 1) + stack_size"
    "\<not> wram_bytesize s < e" "s' = set_reg 0 (area_begin A_WRAM + (e - 8)) s"
    using st by (auto simp: setup_stack_def Let_def split: if_splits)
  have ue: "unat e = (?t div 2 ^ 16 + 1) * 2 ^ 16 + 0x100000"
    using q al unfolding e(1) by (subst unat_add_lem [THEN iffD1]) (simp_all add: stack_size_def)
  have "?t < (?t div 2 ^ 16 + 1) * 2 ^ 16" using div_mult_mod_eq [of ?t "2 ^ 16"] mod_less_divisor [of "2 ^ 16" ?t] by simp
  then show "?t + 0x100000 < unat e" using ue by linarith
  show "unat e \<le> 2 ^ k" using e(2) unat_wram_bytesize [OF k] by (simp add: word_less_nat_alt)
  show "0x10000 dvd unat e" unfolding ue
    by (rule dvdI [of _ _ "?t div 2 ^ 16 + 17"]) (simp add: algebra_simps)
  have "8 \<le> unat e" using ue by simp
  then have "e - 8 = word_of_nat (unat e - 8)" by (simp add: of_nat_diff)
  then show "s' = set_reg 0 (wram_addr (unat e - 8)) s" using e(3) by simp
qed

lemma length_entry_code [simp]: "length (entry_code m) = 8"
  by (simp add: entry_code_def Let_def)

lemma write_entry_code_ok:
  assumes wr: "write_entry_code m e s = Ok s'" and k: "wram_pow k s" and e: "unat e \<le> 2 ^ k"
  shows "unat e + 32 \<le> 2 ^ k"
    and "\<exists>s1. x_write A_WRAM s (unat e) (bytes_of_words (entry_code m)) = Ok s1 \<and> wram_pow k s1 \<and>
       m_regs s1 = m_regs s \<and> s' = set_pc (ucast (e div 4)) s1"
proof -
  have k31: "(2 :: nat) ^ k \<le> 2 ^ 31" using k by (intro power_increasing) (auto simp: wram_pow_def)
  have w: "\<not> wram_bytesize s < e + 32"
    "\<exists>s1. ax_store s (area_begin A_WRAM + e) (bytes_of_words (entry_code m)) = Ok s1 \<and> s' = set_pc (ucast (e div 4)) s1"
    using wr by (auto simp: write_entry_code_def res_bind_eq_Ok split: if_splits)
  have "unat (e + 32) = unat e + 32" using e k31 by (subst unat_add_lem [THEN iffD1]) simp_all
  then show fit: "unat e + 32 \<le> 2 ^ k" using w(1) unat_wram_bytesize [OF k] by (simp add: word_less_nat_alt)
  then have "unat e < 2 ^ k" by simp
  then show "\<exists>s1. x_write A_WRAM s (unat e) (bytes_of_words (entry_code m)) = Ok s1 \<and> wram_pow k s1 \<and>
       m_regs s1 = m_regs s \<and> s' = set_pc (ucast (e div 4)) s1"
    using w(2) wram_store_addr [OF k] wram_pow_write [OF _ k] x_write_frame(1) by metis
qed

lemma wram_fetch:
  assumes "wram_pow k s"
  shows "fetch2 s i = res_bind (x_read A_WRAM s (4 * unat i) 4) (\<lambda>bs. Ok (of_bytes bs))"
  using wram_map [OF assms, of 0] by (simp add: fetch2_def)

lemma x_read_sub:
  assumes "x_read a s j n = Ok bs" and "i + m \<le> n"
  shows "x_read a s (j + i) m = Ok (take m (drop i bs))"
proof -
  have "bs = map (bdata (blocks s a)) [j..<j + n]" "j + n \<le> bsize (blocks s a)"
    using assms(1) by (simp_all add: x_read_def rd_block_eq_Ok)
  then show ?thesis using assms(2)
    by (simp add: x_read_def rd_block_eq_Ok drop_map take_map drop_upt take_upt add.assoc)
qed

lemma sub_bytes_of_words:
  "i < length ws \<Longrightarrow> take 4 (drop (4 * i) (bytes_of_words ws)) = bytes_of 4 (ws ! i)"
  by (rule nth_equalityI) (simp_all add: byte_of_words)

lemma fetch_run:
  assumes "wram_pow k s" and "x_read A_WRAM s j (4 * length ws) = Ok (bytes_of_words ws)"
    and "4 * unat p = j" and "i < length ws" and "unat p + length ws < 2 ^ 32"
  shows "fetch2 s (p + word_of_nat i) = Ok (ws ! i)"
proof -
  have "unat (p + word_of_nat i) = unat p + i"
    using assms(4,5) by (subst unat_add_lem [THEN iffD1]) (simp_all add: unsigned_of_nat take_bit_nat_eq_self)
  moreover have "x_read A_WRAM s (j + 4 * i) 4 = Ok (bytes_of 4 (ws ! i))"
    using x_read_sub [OF assms(2), of "4 * i" 4] assms(4) by (simp add: sub_bytes_of_words)
  ultimately show ?thesis using assms(3) by (simp add: wram_fetch [OF assms(1)] algebra_simps)
qed

text \<open>The stack lies above every section: what is written there leaves the sections as they are.\<close>

lemma bounds_total_end:
  assumes ld: "load_sections elf entry s0 = Ok (bounds, s)" and k: "wram_pow k s0"
    and fits: "\<forall>t \<in> set (elf_sections elf). sec_fits t"
  shows "unat (total_end bounds) \<le> 2 ^ k"
    and "t \<in> set (elf_sections elf) \<Longrightarrow> copied t \<Longrightarrow> unat (es_addr t) + length (es_content t) \<le> unat (total_end bounds)"
    and "wram_pow k s"
proof -
  from ld obtain s1 where fold: "fold_res (load_section entry) (elf_sections elf) (s0, False, []) = Ok (s1, True, bounds)"
    and s: "s = set_pc (ucast (ey_value entry div 4)) s1"
    by (auto simp: load_sections_eq_Ok)
  note f = fold_load_sections [OF fold k fits]
  then show "wram_pow k s" by (simp add: s)
  have b: "bounds = map sec_bound (filter (\<lambda>t. has_flag t AX_SHF_ALLOC) (elf_sections elf))" using f by simp
  have e: "unat (es_addr t + word_of_nat (length (es_content t))) = unat (es_addr t) + length (es_content t)"
    if "t \<in> set (elf_sections elf)" for t
  proof -
    have l: "unat (es_addr t) + length (es_content t) < 2 ^ 64" using fits that by (auto simp: sec_fits_def)
    then have "unat (word_of_nat (length (es_content t)) :: u64) = length (es_content t)"
      by (simp add: unsigned_of_nat take_bit_nat_eq_self)
    then show ?thesis using l by (subst unat_add_lem [THEN iffD1]) simp_all
  qed
  have k31: "(2 :: nat) ^ k \<le> 2 ^ 31" using k by (intro power_increasing) (auto simp: wram_pow_def)
  then have k64: "unat (word_of_nat (2 ^ k) :: u64) = 2 ^ k"
    by (subst unsigned_of_nat) (use k in \<open>simp add: take_bit_nat_eq_self wram_pow_def\<close>)
  have "total_end bounds \<le> word_of_nat (2 ^ k)"
  proof (rule total_end_le)
    fix x y assume "(x, y) \<in> set bounds"
    then obtain t where "t \<in> set (elf_sections elf)" "has_flag t AX_SHF_ALLOC"
      "y = es_addr t + word_of_nat (length (es_content t))"
      by (auto simp: b sec_bound_def)
    then show "y \<le> word_of_nat (2 ^ k)" using f e by (simp only: word_le_nat_alt k64)
  qed
  then show "unat (total_end bounds) \<le> 2 ^ k" by (simp only: word_le_nat_alt k64)
  assume t: "t \<in> set (elf_sections elf)" "copied t"
  then have "(es_addr t, es_addr t + word_of_nat (length (es_content t))) \<in> set bounds"
    by (auto simp: b sec_bound_def copied_def)
  from total_end_ge [OF this] show "unat (es_addr t) + length (es_content t) \<le> unat (total_end bounds)"
    using e [OF t(1)] by (simp add: word_le_nat_alt)
qed


text \<open>The parts of a run of \<open>load_hosted_program\<close>.\<close>

lemma load_hosted_parts:
  assumes ld: "load_hosted_program (Some elf) file argv s0 = Ok s" and k: "wram_pow k s0"
    and fits: "\<forall>t \<in> set (elf_sections elf). sec_fits t"
    and small: "args_size (file # argv) + 8 * (length argv + 2) + 8 \<le> 0x100000"
    and en: "get_entry_point elf (str_bytes ''main'') = Ok entry"
  obtains bounds s1 e table
  where "load_sections elf entry s0 = Ok (bounds, s1)"
    and "unat (total_end bounds) + 0x100000 < e" and "e + 32 \<le> 2 ^ k" and "4 dvd e" and "wram_pow k s"
    and "r_pc (m_regs s) = word_of_nat (e div 4)"
    and "x_read A_WRAM s e 32 = Ok (bytes_of_words (entry_code (ey_value entry)))"
    and "gpi (m_regs s) ! 1 = word_of_nat (length argv + 1)"
    and "length table = length argv + 1"
    and "ax_load s (gpi (m_regs s) ! 2) (8 * (length argv + 2)) = Ok (words64 (table @ [0]))"
    and "\<forall>m < length argv + 1.
      ax_load s (table ! m) (length ((file # argv) ! m) + 1) = Ok ((file # argv) ! m @ [0])"
    and "\<forall>i n. i + n \<le> unat (total_end bounds) \<longrightarrow> x_read A_WRAM s i n = x_read A_WRAM s1 i n"
proof -
  from ld en obtain bounds s1 e64 s2 s3 where
    sec: "load_sections elf entry s0 = Ok (bounds, s1)"
    and st: "setup_stack bounds s1 = Ok (e64, s2)" and wr: "write_entry_code (ey_value entry) e64 s2 = Ok s3"
    and av: "load_host_argv file argv s3 = Ok s"
    by (auto simp: load_hosted_program_def res_bind_eq_Ok)
  note b = bounds_total_end [OF sec k fits]
  note stk = setup_stack_ok [OF st b(3,1)]
  let ?e = "unat e64" and ?T = "unat (total_end bounds)"
  have k2: "wram_pow k s2" using b(3) stk(4) by simp
  obtain s2' where w: "x_write A_WRAM s2 ?e (bytes_of_words (entry_code (ey_value entry))) = Ok s2'"
      "wram_pow k s2'" "m_regs s2' = m_regs s2" "s3 = set_pc (ucast (e64 div 4)) s2'"
    using write_entry_code_ok(2) [OF wr k2 stk(2)] by blast
  have e32: "?e + 32 \<le> 2 ^ k" by (rule write_entry_code_ok(1) [OF wr k2 stk(2)])
  have k3: "wram_pow k s3" using w by simp
  have sp3: "sp s3 = wram_addr (?e - 8)" using w(3,4) stk(4) wram_pow_gpi [OF b(3)] by (simp add: sp_def)
  have i: "?e - 8 \<le> 2 ^ k" using e32 by simp
  have sz: "args_size (file # argv) + 8 * (length argv + 2) \<le> ?e - 8" using small stk(1) by linarith
  let ?j = "?e - 8 - args_size (file # argv) - 8 * (length argv + 2)"
  let ?offs = "arg_offs (?e - 8) (file # argv)"
  obtain s' where s': "load_host_argv file argv s3 = Ok s'" "wram_pow k s'"
    "gpi (m_regs s') = (gpi (m_regs s3))[0 := wram_addr ?j, 1 := word_of_nat (length argv + 1), 2 := wram_addr ?j]"
    "r_pc (m_regs s') = r_pc (m_regs s3)"
    "x_read A_WRAM s' ?j (8 * (length argv + 2)) = Ok (words64 (map wram_addr ?offs @ [0]))"
    and args0: "\<forall>m < length (file # argv). ?offs ! m + length ((file # argv) ! m) + 1 \<le> ?e - 8 \<and>
       x_read A_WRAM s' (?offs ! m) (length ((file # argv) ! m) + 1) = Ok ((file # argv) ! m @ [0])"
    and frame0: "\<forall>l n. ?e - 8 \<le> l \<or> l + n \<le> ?j \<longrightarrow> x_read A_WRAM s' l n = x_read A_WRAM s3 l n"
    by (rule load_host_argv_ok [OF k3 sp3 i sz], rule that)
  note args = args0 [rule_format] and frame = frame0 [rule_format]
  have eq: "s' = s" using av s'(1) by simp
  have len: "length (gpi (m_regs s3)) = 64" using k3 by (rule wram_pow_gpi)
  have below: "?T \<le> ?j" using small stk(1) by linarith
  have e31: "?e \<le> 2 ^ 31"
  proof -
    have "(2 :: nat) ^ k \<le> 2 ^ 31" using k by (intro power_increasing) (auto simp: wram_pow_def)
    then show ?thesis using stk(2) by linarith
  qed
  have pc: "ucast (e64 div 4) = (word_of_nat (?e div 4) :: u32)"
    by (rule word_unat_eq_iff [THEN iffD2])
      (use e31 in \<open>simp add: unsigned_ucast_eq unat_div unsigned_of_nat take_bit_nat_eq_self\<close>)
  have code: "x_read A_WRAM s ?e 32 = Ok (bytes_of_words (entry_code (ey_value entry)))"
    using area_mem.rd_wr [OF w(1)] frame [of ?e 32] eq by (simp add: w(4))
  have j: "?j < 2 ^ k" using e32 by simp
  have regs: "gpi (m_regs s) ! 1 = word_of_nat (length argv + 1)" "gpi (m_regs s) ! 2 = wram_addr ?j"
    using s'(3) eq len by simp_all
  have table: "ax_load s (gpi (m_regs s) ! 2) (8 * (length argv + 2)) = Ok (words64 (map wram_addr ?offs @ [0]))"
    using s'(5) eq wram_load [OF s'(2) j] by (simp only: regs)
  have each: "ax_load s (map wram_addr ?offs ! m) (length ((file # argv) ! m) + 1) = Ok ((file # argv) ! m @ [0])"
    if m: "m < length argv + 1" for m
  proof -
    have m': "m < length (file # argv)" using m by simp
    have "?offs ! m < 2 ^ k" using args [OF m', THEN conjunct1] e32 by linarith
    then show ?thesis
      using args [OF m'] m' eq wram_load [OF s'(2)] by (simp del: area_begin.simps arg_offs.simps)
  qed
  have below_T: "x_read A_WRAM s i n = x_read A_WRAM s1 i n" if "i + n \<le> ?T" for i n
    using that frame [of i n] eq below area_mem.rd_wr_other [OF w(1), of i n] stk(1)
    by (simp add: w(4) stk(4))
  have "4 dvd ?e" using stk(3) by (rule dvd_trans [rotated]) simp
  moreover have "r_pc (m_regs s) = word_of_nat (?e div 4)" using s'(4) eq w(4) pc by simp
  moreover have "length (map wram_addr ?offs) = length argv + 1" by simp
  ultimately show ?thesis
    using that [OF sec stk(1) e32 _ s'(2) [unfolded eq] _ code regs(1) _ table] each below_T by blast
qed

text \<open>
  C8. A hosted program in memory, for a WRAM of \<open>2 ^ k\<close> bytes and at most 2 GiB, a file none of whose
  sections wraps around the address space, and arguments that, with their vector, fit the stack of 1 MiB.
  When \<open>load_hosted_program\<close> succeeds: every allocated section that no later one overlaps is in WRAM, the
  stack has not overwritten it; the program counter is at the eight words of the entry code; register 1 is
  \<open>argc\<close>, and register 2 points to a vector of \<open>argc\<close> addresses and a null pointer, each address that of an
  argument with its terminating NUL. In a WRAM of another size the stores go through the mask of
  \<open>wram_addressable\<close> and the fetch does not, so that neither part holds of it.
\<close>
theorem hosted_program_loaded:
  assumes "load_hosted_program (Some elf) file argv s0 = Ok s" and "wram_pow k s0"
    and "\<forall>t \<in> set (elf_sections elf). sec_fits t"
    and "args_size (file # argv) + 8 * (length argv + 2) + 8 \<le> 0x100000"
    and "elf_sections elf = pre @ sec # post" and "copied sec"
    and "\<forall>t \<in> set post. sec_apart t (unat (es_addr sec)) (length (es_content sec))"
    and "get_entry_point elf (str_bytes ''main'') = Ok main"
  shows "ax_load s (area_begin A_WRAM + es_addr sec) (length (es_content sec)) = Ok (es_content sec) \<and>
    (\<forall>i < 8. fetch2 s (r_pc (m_regs s) + word_of_nat i) = Ok (entry_code (ey_value main) ! i)) \<and>
    gpi (m_regs s) ! 1 = word_of_nat (length argv + 1) \<and>
    (\<exists>table. length table = length argv + 1 \<and>
       ax_load s (gpi (m_regs s) ! 2) (8 * (length argv + 2)) = Ok (words64 (table @ [0])) \<and>
       (\<forall>m < length argv + 1.
          ax_load s (table ! m) (length ((file # argv) ! m) + 1) = Ok ((file # argv) ! m @ [0])))"
proof -
  obtain bounds s1 e table where sec: "load_sections elf main s0 = Ok (bounds, s1)"
    and T: "unat (total_end bounds) + 0x100000 < e" "e + 32 \<le> 2 ^ k" "4 dvd e" and k: "wram_pow k s"
    and pc: "r_pc (m_regs s) = word_of_nat (e div 4)"
    and code: "x_read A_WRAM s e 32 = Ok (bytes_of_words (entry_code (ey_value main)))"
    and args: "gpi (m_regs s) ! 1 = word_of_nat (length argv + 1)" "length table = length argv + 1"
      "ax_load s (gpi (m_regs s) ! 2) (8 * (length argv + 2)) = Ok (words64 (table @ [0]))"
      "\<forall>m < length argv + 1.
         ax_load s (table ! m) (length ((file # argv) ! m) + 1) = Ok ((file # argv) ! m @ [0])"
    and frame: "\<forall>i n. i + n \<le> unat (total_end bounds) \<longrightarrow> x_read A_WRAM s i n = x_read A_WRAM s1 i n"
    by (rule load_hosted_parts [OF assms(1-4,8)], rule that)
  have k31: "(2 :: nat) ^ k \<le> 2 ^ 31" using k by (intro power_increasing) (auto simp: wram_pow_def)
  note c = load_sections_content [OF sec assms(2,3,5,6,7)]
  have "sec \<in> set (elf_sections elf)" by (simp add: assms(5))
  from bounds_total_end(2) [OF sec assms(2,3) this assms(6)]
  have inT: "unat (es_addr sec) + length (es_content sec) \<le> unat (total_end bounds)" .
  have "unat (es_addr sec) < 2 ^ k" using inT T by linarith
  then have "ax_load s (area_begin A_WRAM + es_addr sec) (length (es_content sec)) = Ok (es_content sec)"
    using c(1) frame [rule_format, OF inT] wram_load_addr [OF k] by simp
  moreover have "fetch2 s (r_pc (m_regs s) + word_of_nat i) = Ok (entry_code (ey_value main) ! i)" if "i < 8" for i
  proof (rule fetch_run [OF k, of e])
    show "x_read A_WRAM s e (4 * length (entry_code (ey_value main))) = Ok (bytes_of_words (entry_code (ey_value main)))"
      using code by simp
    have "e div 4 < 2 ^ 31" using T(2) k31 by linarith
    then have p: "unat (r_pc (m_regs s)) = e div 4" by (simp add: pc unsigned_of_nat take_bit_nat_eq_self)
    then show "4 * unat (r_pc (m_regs s)) = e" using T(3) by simp
    show "unat (r_pc (m_regs s)) + length (entry_code (ey_value main)) < 2 ^ 32"
      using p \<open>e div 4 < 2 ^ 31\<close> by simp
  qed (use that in simp)
  ultimately show ?thesis using args by blast
qed

section \<open>The entry code at run time\<close>

lemma ax_execute_moveix:
  assumes "is_package first" and "is_moveix second"
  shows "ax_execute first second s = res_bind (execute_unit first 0 (moveix_imm24 second) s) (\<lambda>s1.
    Ok (if r_pc (m_regs s) \<noteq> r_pc (m_regs s1) then 0 else 2, s1))"
  using assms by (simp add: ax_execute_def Let_def)


lemma low_byte:
  assumes "take_bit 8 w = b"
  shows "is_package w = is_package b" "is_moveix w = is_moveix b" "ax_unit w = ax_unit b" "bru2_of w = bru2_of b"
proof -
  have bits: "n < 8 \<Longrightarrow> bit w n = bit b n" for n using assms by (auto simp: bit_take_bit_iff)
  have m: "(1 :: u32) = mask 1" "(0xFE :: u32) = mask 8 AND NOT (mask 1)" "(0x0F :: u32) = mask 4" "(0x07 :: u32) = mask 3"
    by (simp_all add: mask_eq_exp_minus_1)
  have "w AND mask 1 = b AND mask 1" "w AND (mask 8 AND NOT (mask 1)) = b AND (mask 8 AND NOT (mask 1))"
    "drop_bit 5 w AND mask 3 = drop_bit 5 b AND mask 3" "drop_bit 1 w AND mask 4 = drop_bit 1 b AND mask 4"
    using bits by (auto intro!: bit_word_eqI simp: bit_simps simp del: mask_Suc_0 mask_numeral)
  then show "is_package w = is_package b" "is_moveix w = is_moveix b" "ax_unit w = ax_unit b" "bru2_of w = bru2_of b"
    unfolding is_package_def is_moveix_def ax_unit_def bru2_of_def ax_opcode_def m by simp_all
qed

lemma above_byte:
  fixes y b :: u32
  assumes "b = take_bit 8 b" and "y = take_bit 24 y"
  shows "take_bit 8 (b OR push_bit 8 y) = b" "drop_bit 8 (b OR push_bit 8 y) = y"
proof -
  have b: "bit b n \<Longrightarrow> n < 8" for n using assms(1) by (metis bit_take_bit_iff)
  have y: "bit y n \<Longrightarrow> n < 24" for n using assms(2) by (metis bit_take_bit_iff)
  show "take_bit 8 (b OR push_bit 8 y) = b" using b by (auto intro!: bit_word_eqI simp: bit_simps)
  show "drop_bit 8 (b OR push_bit 8 y) = y" using b y
    by (auto intro!: bit_word_eqI simp: bit_simps dest: b y)
qed

lemma entry_words:
  fixes main_pc :: u32
  defines "w0 \<equiv> 0x000000FB OR push_bit 8 (main_pc AND 0x00FFFFFF)"
    and "w1 \<equiv> 0x00000000 OR push_bit 8 (drop_bit 24 main_pc AND 0x07F)"
  shows "is_package w0" "is_moveix w1" "ax_unit w0 = 7" "bru2_of w0 = BRU_CALL"
    "bru_imm w0 (moveix_imm24 w1) = main_pc AND 0x7FFFFFFF"
proof -
  have m: "(0x00FFFFFF :: u32) = mask 24" "(0x07F :: u32) = mask 7" "(0x7FFFFFFF :: u32) = mask 31"
    by (simp_all add: mask_eq_exp_minus_1)
  have t: "main_pc AND mask 24 = take_bit 24 (main_pc AND mask 24)"
    "drop_bit 24 main_pc AND mask 7 = take_bit 24 (drop_bit 24 main_pc AND mask 7)"
    by (auto intro!: bit_word_eqI simp: bit_simps simp del: mask_numeral)
  have b: "(0x000000FB :: u32) = take_bit 8 0x000000FB" "(0 :: u32) = take_bit 8 0" by simp_all
  have w0: "take_bit 8 w0 = 0xFB" "drop_bit 8 w0 = main_pc AND mask 24"
    unfolding w0_def m using above_byte [OF b(1) t(1)] by simp_all
  have w1: "take_bit 8 w1 = 0" "drop_bit 8 w1 = drop_bit 24 main_pc AND mask 7"
    unfolding w1_def m using above_byte [OF b(2) t(2)] by simp_all
  show "is_package w0" "ax_unit w0 = 7" "bru2_of w0 = BRU_CALL"
    unfolding low_byte [OF w0(1)] by (simp_all add: is_package_def ax_unit_def bru2_of_def ax_opcode_def bru2_ops_def)
  show "is_moveix w1" unfolding low_byte [OF w1(1)] by (simp add: is_moveix_def)
  show "bru_imm w0 (moveix_imm24 w1) = main_pc AND 0x7FFFFFFF"
    unfolding bru_imm_def bru_imm24_def moveix_imm24_def w0(2) w1(2) m
    by (rule bit_word_eqI) (auto simp: bit_simps simp del: mask_numeral)
qed

lemma altairx_execute_alu:
  assumes "fetch2 s (r_pc (m_regs s) AND 0x7FFFFFFF) = Ok opc"
    and "fetch2 s ((r_pc (m_regs s) AND 0x7FFFFFFF) + 1) = Ok next"
    and "\<not> is_package opc" and "ax_unit opc = 0 \<or> ax_unit opc = 1"
  shows "altairx_execute s =
    res_bind (execute_alu2 (alu2_of opc) opc 0 (m_regs (clear_zero s))) (\<lambda>r.
      Ok (step_over 1 ((clear_zero s)\<lparr>m_regs := r\<rparr>)))"
  using assms
  by (cases "execute_alu2 (alu2_of opc) opc 0 (m_regs (clear_zero s))")
    (auto simp: altairx_execute_def Let_def ax_execute_single execute_unit_eq lift_regs_def dest!: execute_alu2_pc)

lemma pc_below: "unat p < 2 ^ 31 \<Longrightarrow> p AND 0x7FFFFFFF = (p :: u32)"
proof -
  assume "unat p < 2 ^ 31"
  then have "take_bit 31 p = p" by (simp add: word_unat_eq_iff unsigned_take_bit_eq take_bit_nat_eq_self)
  then show ?thesis by (simp add: take_bit_eq_mask mask_eq_exp_minus_1)
qed

text \<open>A state at word \<open>i\<close> of the entry code, that is at \<open>p\<close>.\<close>

definition at_entry :: "u32 \<Rightarrow> u64 \<Rightarrow> nat \<Rightarrow> AxCore \<Rightarrow> bool" where
  "at_entry p main i s \<longleftrightarrow> r_pc (m_regs s) = p + word_of_nat i \<and> m_syscall s = 0 \<and> m_error s = 0 \<and>
     unat p + 8 \<le> 2 ^ 31 \<and> (\<forall>j < 8. fetch2 s (p + word_of_nat j) = Ok (entry_code main ! j))"

lemma at_entry_fetch:
  assumes "at_entry p main i s" and "i < 7"
  shows "fetch2 s (r_pc (m_regs s) AND 0x7FFFFFFF) = Ok (entry_code main ! i)"
    and "fetch2 s ((r_pc (m_regs s) AND 0x7FFFFFFF) + 1) = Ok (entry_code main ! Suc i)"
proof -
  have p: "unat p + 8 \<le> 2 ^ 31" "r_pc (m_regs s) = p + word_of_nat i" using assms by (simp_all add: at_entry_def)
  then have "unat (p + word_of_nat i) = unat p + i"
    using assms(2) by (subst unat_add_lem [THEN iffD1]) (simp_all add: unsigned_of_nat take_bit_nat_eq_self)
  then have pc: "r_pc (m_regs s) AND 0x7FFFFFFF = p + word_of_nat i"
    using p assms(2) pc_below [of "p + word_of_nat i"] by simp
  have "p + word_of_nat i + 1 = p + word_of_nat (Suc i)" by simp
  then show "fetch2 s (r_pc (m_regs s) AND 0x7FFFFFFF) = Ok (entry_code main ! i)"
    "fetch2 s ((r_pc (m_regs s) AND 0x7FFFFFFF) + 1) = Ok (entry_code main ! Suc i)"
    using assms unfolding pc at_entry_def by (simp_all only:)
qed

lemma at_entry_next:
  "at_entry p main i s \<Longrightarrow> r_pc r = r_pc (m_regs s) \<Longrightarrow>
    at_entry p main (Suc i) (step_over 1 ((clear_zero s)\<lparr>m_regs := r\<rparr>))"
  by (simp add: at_entry_def step_over_def clear_zero_def Let_def)

lemma clear_zero_syscall [simp]: "m_syscall (clear_zero s) = m_syscall s" "m_error (clear_zero s) = m_error s"
  by (simp_all add: clear_zero_def)

lemma run_body_alu:
  assumes at: "at_entry p main i (rs_core st)" and i: "i < 7"
    and "entry_code main ! i = opc" "\<not> is_package opc" "ax_unit opc = 0 \<or> ax_unit opc = 1"
    and "execute_alu2 (alu2_of opc) opc 0 (m_regs (clear_zero (rs_core st))) = Ok r"
    and "j = Suc i"
  obtains st' where "run_body H st = Ok st'" and "at_entry p main j (rs_core st')"
proof -
  let ?s' = "step_over 1 ((clear_zero (rs_core st))\<lparr>m_regs := r\<rparr>)"
  have "altairx_execute (rs_core st) = Ok ?s'"
    using altairx_execute_alu [OF at_entry_fetch [OF at i, unfolded assms(3)] assms(4,5)] assms(6) by simp
  moreover have "r_pc r = r_pc (m_regs (rs_core st))" using execute_alu2_pc [OF assms(6)] by simp
  then have at': "at_entry p main (Suc i) ?s'" by (rule at_entry_next [OF at])
  moreover have "at_entry p main (Suc i) (rs_core (run_tick H st2))" if "rs_core st2 = ?s'" for st2
    using at' that by (auto simp: run_tick_def Let_def at_entry_def split: prod.splits option.splits)
  ultimately show ?thesis using that assms(7)
    by (simp add: run_body_def vm2_step_def syscall_emul_def at_entry_def)
qed

lemma run_body_Assert:
  assumes at: "at_entry p main i (rs_core st)" and i: "i < 7"
    and "entry_code main ! i = opc" "\<not> is_package opc" "ax_unit opc = 0 \<or> ax_unit opc = 1"
    and "execute_alu2 (alu2_of opc) opc 0 (m_regs (clear_zero (rs_core st))) = Fault f"
  shows "run_body H st = Fault f"
  using altairx_execute_alu [OF at_entry_fetch [OF at i, unfolded assms(3)] assms(4,5)] assms(6)
  by (simp add: run_body_def vm2_step_def)

lemma entry_code_tail:
  "entry_code main ! 2 = 0" "entry_code main ! 3 = 0x08100620" "entry_code main ! 4 = 0x00000302"
  by (simp_all add: entry_code_def Let_def)

text \<open>
  C14. A hosted program never exits: when \<open>main\<close> has returned to the entry code, with the code intact, the
  run goes on to its fifth word, meant to load the number of the exit call, which is \<open>COP\<close> to the VM,
  and ends in a failed assertion.
\<close>
theorem hosted_exit_asserts:
  assumes "at_entry p main 2 s"
  shows "altairx_run H (s, w) = Some (Fault Assert_fail)"
proof -
  let ?st = "\<lparr>rs_core = s, rs_world = w, rs_counter = 0, rs_cycles = 0\<rparr>"
  have d: "\<not> is_package (0 :: u32)" "ax_unit 0 = 0" "alu2_of 0 = ALU_MOVEIX"
    "\<not> is_package 0x08100620" "ax_unit 0x08100620 = 1" "alu2_of 0x08100620 = ALU_ADD"
    "\<not> is_package 0x00000302" "ax_unit 0x00000302 = 0" "alu2_of 0x00000302 = ALU_COP"
    by (simp_all add: is_package_def ax_unit_def alu2_of_def ax_operation_def alu2_ops_def)
  obtain st3 where 2: "run_body H ?st = Ok st3" "at_entry p main 3 (rs_core st3)"
    using run_body_alu [OF _ _ entry_code_tail(1) d(1), where p = p and st = ?st and j = 3 and H = H] assms by (auto simp: d)
  obtain st4 where 3: "run_body H st3 = Ok st4" "at_entry p main 4 (rs_core st4)"
    using run_body_alu [OF 2(2) _ entry_code_tail(2) d(4), where j = 4 and H = H] by (auto simp: d)
  have 4: "run_body H st4 = Fault Assert_fail"
    using run_body_Assert [OF 3(2) _ entry_code_tail(3) d(7)] by (simp add: d)
  have e: "m_error s = 0" "m_error (rs_core st3) = 0" "m_error (rs_core st4) = 0"
    using assms 2 3 by (simp_all add: at_entry_def)
  have "run_from H ?st = run_from H st3" using e 2(1) by (subst run_from.simps) simp
  also have "\<dots> = run_from H st4" using e 3(1) by (subst run_from.simps) simp
  also have "\<dots> = Some (Fault Assert_fail)" using e 4 by (subst run_from.simps) simp
  finally show ?thesis by (simp add: altairx_run_def)
qed


text \<open>
  The first step of a hosted program, for every address of \<open>main\<close>: the call and its \<open>MOVEIX\<close> reach the
  31 bits of the word address, the return address is that of the third word, memory and registers
  (the zero register apart) stay as the loader left them.
\<close>
theorem hosted_calls_main:
  assumes "at_entry p main 0 s" and "p \<noteq> ucast (main div 4) AND 0x7FFFFFFF"
  shows "\<exists>s'. vm2_step H (s, w) = Ok (s', w) \<and> r_pc (m_regs s') = ucast (main div 4) AND 0x7FFFFFFF \<and>
    r_lr (m_regs s') = p + 2 \<and> blocks s' = blocks s \<and> (\<forall>i < 63. gpi (m_regs s') ! i = gpi (m_regs s) ! i)"
proof -
  obtain w0 w1 where w: "w0 = entry_code main ! 0" "w1 = entry_code main ! Suc 0" by blast
  have ws: "is_package w0" "is_moveix w1" "ax_unit w0 = 7" "bru2_of w0 = BRU_CALL"
    "bru_imm w0 (moveix_imm24 w1) = ucast (main div 4) AND 0x7FFFFFFF"
    using entry_words [of "ucast (main div 4)"] by (simp_all add: w entry_code_def Let_def)
  have f: "fetch2 s (r_pc (m_regs s) AND 0x7FFFFFFF) = Ok w0" "fetch2 s ((r_pc (m_regs s) AND 0x7FFFFFFF) + 1) = Ok w1"
    using at_entry_fetch [OF assms(1)] by (simp_all add: w)
  have pc: "r_pc (m_regs s) = p" "m_syscall s = 0" using assms(1) by (simp_all add: at_entry_def)
  let ?c = "clear_zero s"
  let ?s1 = "?c\<lparr>m_regs := execute_bru2 BRU_CALL w0 (moveix_imm24 w1) (m_regs ?c)\<rparr>"
  have "execute_unit w0 0 (moveix_imm24 w1) s = Ok ?s1"
    by (simp add: execute_unit_eq Let_def ws(3,4) execute_bru_def)
  then have "altairx_execute s = Ok (step_over 0 ?s1)"
    using f assms(2) pc ws(5)
    by (simp add: altairx_execute_def Let_def ax_execute_moveix [OF ws(1,2)])
  then have "vm2_step H (s, w) = Ok (step_over 0 ?s1, w)"
    using pc by (simp add: vm2_step_def syscall_emul_def step_over_def Let_def)
  then show ?thesis
    by (simp add: ws(1,5) return_pc_def pc step_over_def Let_def clear_zero_def set_gpi_def set_gpf_def REG_ZERO_def)
qed

section \<open>Examples\<close>

text \<open>Four MiB of WRAM, and a program of one section whose first word is \<open>main\<close>.\<close>

definition demo4 :: AxCore where
  "demo4 = demo2\<lparr>blocks := (blocks demo2)(A_WRAM := \<lparr>bsize = 0x400000, bdata = (\<lambda>i. 0)\<rparr>), m_wram_mask := 0x3FFFFF\<rparr>"

definition demo_elf :: AxELFFile where
  "demo_elf = \<lparr>elf_sections = [\<lparr>es_type = 1, es_flags = 6, es_addr = 0x100, es_offset = 0, es_size = 4, es_link = 0,
       es_info = 0, es_addralign = 4, es_entsize = 0, es_content = [0xFE, 0x02, 0x00, 0x00]\<rparr>],
     elf_symbols = [\<lparr>ey_name = str_bytes ''main'', ey_st_name = 1, ey_value = 0x100, ey_size = 4, ey_binding = 1,
       ey_type = 2, ey_visibility = 0, ey_shndx = 1\<rparr>]\<rparr>"

definition demo_section :: AxELFSection where
  "demo_section = hd (elf_sections demo_elf)"

definition demo_main :: AxELFSymbol where
  "demo_main = hd (elf_symbols demo_elf)"

lemma demo_section_simps [simp]:
  "elf_sections demo_elf = [demo_section]" "es_addr demo_section = 0x100" "es_size demo_section = 4"
  "es_content demo_section = [0xFE, 0x02, 0x00, 0x00]" "has_flag demo_section AX_SHF_ALLOC"
  "copied demo_section" "sec_fits demo_section" "ey_value demo_main = 0x100" "ey_size demo_main = 4"
  by (simp_all add: demo_section_def demo_elf_def demo_main_def has_flag_def AX_SHF_ALLOC_def copied_def sec_fits_def)

lemma demo_entry_point: "get_entry_point demo_elf (str_bytes ''main'') = Ok demo_main"
  by (simp add: get_entry_point_def demo_elf_def demo_main_def AX_STT_FUNC_def)

lemma wram_pow_demo4: "wram_pow 22 demo4"
  using wf2_demo2 by (auto simp: wram_pow_def wf2_def demo4_def byte_size_def)

lemma demo_sections: "\<exists>s. load_sections demo_elf demo_main demo4 = Ok ([(0x100, 0x104)], s) \<and> wram_pow 22 s"
proof -
  obtain s' where s': "ax_store demo4 (wram_addr 0x100) [0xFE, 0x02, 0x00, 0x00] = Ok s'" "wram_pow 22 s'"
    by (rule wram_write_ok [OF wram_pow_demo4, where i = "0x100" and bs = "[0xFE, 0x02, 0x00, 0x00]"]) simp_all
  have "wram_bytesize demo4 = 0x400000" by (simp add: wram_bytesize_def byte_size_def demo4_def)
  then have "load_section demo_main demo_section (demo4, False, []) = Ok (s', True, [(0x100, 0x104)])"
    using s'(1) by (simp add: load_section_def Let_def)
  then show ?thesis using s'(2) by (simp add: load_sections_eq_Ok)
qed

lemma demo_hosted: "\<exists>s. load_hosted_program (Some demo_elf) [0x61] [[0x62, 0x63]] demo4 = Ok s"
proof -
  obtain s1 where s1: "load_sections demo_elf demo_main demo4 = Ok ([(0x100, 0x104)], s1)" "wram_pow 22 s1"
    using demo_sections by blast
  have bs: "wram_bytesize s = 0x400000" if "wram_pow 22 s" for s
    using that by (simp add: wram_pow_def wram_bytesize_def byte_size_def)
  have st: "setup_stack [(0x100, 0x104)] s1 = Ok (0x110000, set_reg 0 (wram_addr 0x10FFF8) s1)"
    by (simp add: setup_stack_def total_end_def stack_size_def bs [OF s1(2)])
  let ?s2 = "set_reg 0 (wram_addr 0x10FFF8) s1"
  obtain s3 where s3: "ax_store ?s2 (wram_addr 0x110000) (bytes_of_words (entry_code 0x100)) = Ok s3" "wram_pow 22 s3"
      "m_regs s3 = m_regs ?s2"
    by (rule wram_write_ok [where k = 22 and s = ?s2 and i = "0x110000" and bs = "bytes_of_words (entry_code 0x100)"]) (simp_all add: s1(2))
  have wr: "write_entry_code 0x100 0x110000 ?s2 = Ok (set_pc 0x44000 s3)"
    using s3(1) s1(2) by (simp add: write_entry_code_def bs)
  have "sp (set_pc 0x44000 s3) = wram_addr 0x10FFF8"
    using s3(3) sp_set_reg [OF s1(2)] by (simp add: sp_def)
  then obtain s where "load_host_argv [0x61] [[0x62, 0x63]] (set_pc 0x44000 s3) = Ok s"
    by (rule load_host_argv_ok [where k = 22 and s = "set_pc 0x44000 s3" and i = "0x10FFF8" and name = "[0x61]" and argv = "[[0x62, 0x63]]", rotated])
      (simp_all add: s3(2))
  then have "load_hosted_program (Some demo_elf) [0x61] [[0x62, 0x63]] demo4 = Ok s"
    using s1(1) st wr by (simp add: load_hosted_program_def demo_entry_point)
  then show ?thesis ..
qed

lemma four: "Suc (Suc (Suc (Suc 0))) = 4"
  by simp

theorem load_sections_correct_witness:
  "\<exists>s. load_sections demo_elf demo_main demo4 = Ok ([(0x100, 0x104)], s) \<and>
     ax_load s 0x80000100 4 = Ok [0xFE, 0x02, 0x00, 0x00] \<and> r_pc (m_regs s) = 0x40"
proof -
  obtain s where s: "load_sections demo_elf demo_main demo4 = Ok ([(0x100, 0x104)], s)"
    using demo_sections by blast
  show ?thesis using s load_sections_correct [OF s wram_pow_demo4, of "[]" demo_section "[]"] by (simp add: four)
qed

theorem hosted_program_loaded_witness:
  "\<exists>s. load_hosted_program (Some demo_elf) [0x61] [[0x62, 0x63]] demo4 = Ok s \<and> gpi (m_regs s) ! 1 = 2 \<and>
     ax_load s 0x80000100 4 = Ok [0xFE, 0x02, 0x00, 0x00] \<and>
     fetch2 s (r_pc (m_regs s) + 4) = Ok 0x00000302"
proof -
  obtain s where s: "load_hosted_program (Some demo_elf) [0x61] [[0x62, 0x63]] demo4 = Ok s"
    using demo_hosted by blast
  have "ax_load s 0x80000100 4 = Ok [0xFE, 0x02, 0x00, 0x00] \<and>
      (\<forall>i < 8. fetch2 s (r_pc (m_regs s) + word_of_nat i) = Ok (entry_code 0x100 ! i)) \<and> gpi (m_regs s) ! 1 = 2"
    using hosted_program_loaded [OF s wram_pow_demo4, of "[]" demo_section "[]" demo_main] demo_entry_point by (simp add: four)
  moreover from this have "fetch2 s (r_pc (m_regs s) + word_of_nat 4) = Ok (entry_code 0x100 ! 4)"
    by (elim conjE allE [of _ 4]) simp
  ultimately show ?thesis using s by (simp add: entry_code_tail)
qed

lemma at_entry_demo:
  "i \<le> 7 \<Longrightarrow> at_entry 0 0x100 i ((prog2 (entry_code 0x100))\<lparr>m_regs := regs_zero\<lparr>r_pc := word_of_nat i\<rparr>\<rparr>)"
  by (simp add: at_entry_def fetch2_prog2 unsigned_of_nat take_bit_nat_eq_self)

theorem hosted_exit_asserts_witness:
  "altairx_run demo_host2 ((prog2 (entry_code 0x100))\<lparr>m_regs := regs_zero\<lparr>r_pc := 2\<rparr>\<rparr>, ()) = Some (Fault Assert_fail)"
  by (rule hosted_exit_asserts [of 0 "0x100"]) (use at_entry_demo [of 2] in simp)

theorem hosted_calls_main_witness:
  "\<exists>s'. vm2_step demo_host2 ((prog2 (entry_code 0x100))\<lparr>m_regs := regs_zero\<lparr>r_pc := 0\<rparr>\<rparr>, ()) = Ok (s', ()) \<and>
     r_pc (m_regs s') = 0x40 \<and> r_lr (m_regs s') = 2"
proof -
  have "at_entry 0 0x100 0 ((prog2 (entry_code 0x100))\<lparr>m_regs := regs_zero\<lparr>r_pc := 0\<rparr>\<rparr>)"
    using at_entry_demo [of 0] by simp
  from hosted_calls_main [OF this, of demo_host2 "()"] show ?thesis by auto
qed

end
