(* ===== verification/V2_Main.thy ===== *)
theory V2_Main
  imports V2_Loader
begin

text \<open>
  The command line and \<open>main\<close> of the second version (\<open>main.cpp\<close>). \<open>args\<close> is \<open>argv[1..]\<close>, as strings;
  the file system is a function from a path to the contents of the file, and \<open>llvm\<close> the parser of ELF
  files. An exception, \<open>Panic\<close>, is caught in \<open>main\<close>; the text it carries goes to \<open>std::cerr\<close> and is
  not modelled.
\<close>

record AxParameters =
  core_count :: u64
  wram_size :: u64
  spmt_size :: u64
  spm2_size :: u64
  ax_mode :: u32
  executable :: string
  entry_point :: string
  hosted :: bool
  forwarded_args :: "string list"

definition default_parameters :: AxParameters where
  "default_parameters =
     \<lparr>core_count = 1, wram_size = 16, spmt_size = 256, spm2_size = 512, ax_mode = 0,
      executable = [], entry_point = ''main'', hosted = False, forwarded_args = []\<rparr>"

section \<open>Numbers\<close>

text \<open>
  \<open>std::from_chars\<close> of a decimal \<open>int64_t\<close>: an optional minus sign and at least one digit, up to the
  first character that is none; an error when there is no digit or the value does not fit.
\<close>

definition is_digit :: "char \<Rightarrow> bool" where
  "is_digit c \<longleftrightarrow> 48 \<le> (of_char c :: nat) \<and> (of_char c :: nat) \<le> 57"

fun decimal :: "int \<Rightarrow> string \<Rightarrow> int" where
  "decimal acc [] = acc"
| "decimal acc (c # cs) = (if is_digit c then decimal (10 * acc + (of_char c - 48)) cs else acc)"

definition from_chars :: "string \<Rightarrow> int option" where
  "from_chars s =
     (let (neg, ds) = (case s of c # cs \<Rightarrow> if c = CHR ''-'' then (True, cs) else (False, s) | [] \<Rightarrow> (False, []));
          v = (if neg then - decimal 0 ds else decimal 0 ds)
      in if ds = [] \<or> \<not> is_digit (hd ds) then None
         else if v < - (2 ^ 63) \<or> 2 ^ 63 \<le> v then None
         else Some v)"

definition get_value_for_arg :: "string list \<Rightarrow> u64 res" where
  "get_value_for_arg rest =
     (case rest of
        [] \<Rightarrow> Fault Panic
      | v # _ \<Rightarrow> (case from_chars v of None \<Rightarrow> Fault Panic | Some n \<Rightarrow> Ok (word_of_int n)))"

section \<open>Options\<close>

definition number_option :: "string \<Rightarrow> (u64 \<Rightarrow> AxParameters \<Rightarrow> AxParameters) option" where
  "number_option a =
     (if a = ''-ncore'' then Some (\<lambda>v p. p\<lparr>core_count := v\<rparr>)
      else if a = ''-wram'' then Some (\<lambda>v p. p\<lparr>wram_size := v\<rparr>)
      else if a = ''-spmt'' then Some (\<lambda>v p. p\<lparr>spmt_size := v\<rparr>)
      else if a = ''-spm2'' then Some (\<lambda>v p. p\<lparr>spm2_size := v\<rparr>)
      else if a = ''-mode'' then Some (\<lambda>v p. p\<lparr>ax_mode := ucast v\<rparr>)
      else None)"

text \<open>The loop over the words; \<open>prev\<close> is \<open>args[i - 1]\<close> when \<open>i > 1\<close>.\<close>

fun parse_loop :: "string option \<Rightarrow> string list \<Rightarrow> AxParameters \<Rightarrow> AxParameters res" where
  "parse_loop prev [] p = Ok p"
| "parse_loop prev (a # rest) p =
     (case number_option a of
        Some put \<Rightarrow>
          res_bind (get_value_for_arg rest) (\<lambda>v. parse_loop (Some (hd rest)) (tl rest) (put v p))
      | None \<Rightarrow>
          if a = ''-entry-point'' then
            (case rest of
               [] \<Rightarrow> Fault Panic
             | e # rest' \<Rightarrow> parse_loop (Some e) rest' (p\<lparr>entry_point := e\<rparr>))
          else if a = ''-hosted'' then parse_loop (Some a) rest (p\<lparr>hosted := True\<rparr>)
          else if a = ''--'' then
            Ok ((case prev of None \<Rightarrow> p | Some x \<Rightarrow> p\<lparr>executable := x\<rparr>)\<lparr>forwarded_args := rest\<rparr>)
          else parse_loop (Some a) rest (p\<lparr>executable := a\<rparr>))"

text \<open>\<open>parse_args\<close>; the warning about forwarded arguments goes to \<open>std::cerr\<close>.\<close>

definition parse_args2 :: "string list \<Rightarrow> AxParameters res" where
  "parse_args2 args =
     res_bind (parse_loop None args default_parameters) (\<lambda>p.
       if executable p = [] then Fault Panic else Ok p)"

section \<open>main\<close>





section \<open>Arguments\<close>

lemma number_option_cases:
  "number_option ''--'' = None" "number_option ''-hosted'' = None" "number_option ''-entry-point'' = None"
  by (simp_all add: number_option_def)

lemma get_value_dashes [simp]: "get_value_for_arg (''--'' # ws) = Fault Panic"
  by (simp add: get_value_for_arg_def from_chars_def is_digit_def)

lemma parse_loop_dashes [simp]:
  "parse_loop prev (''--'' # ws) p = Ok ((case prev of None \<Rightarrow> p | Some x \<Rightarrow> p\<lparr>executable := x\<rparr>)\<lparr>forwarded_args := ws\<rparr>)"
  by (simp add: number_option_cases)

lemma parse_loop_last:
  assumes "parse_loop prev (w # ''--'' # ws) p = Ok p'" and "w \<noteq> ''--''" and "w \<noteq> ''-entry-point''"
  shows "executable p' = w \<and> forwarded_args p' = ws"
  using assms(1) unfolding parse_loop.simps(2) [of prev w]
  using assms(2,3) by (auto simp: res_bind_eq_Ok simp del: parse_loop.simps(2) split: option.splits if_splits)

lemma parse_loop_forwarded:
  assumes "parse_loop prev (us @ w # ''--'' # ws) p = Ok p'"
    and "''--'' \<notin> set us" and "w \<noteq> ''--''" and "w \<noteq> ''-entry-point''"
  shows "executable p' = w \<and> forwarded_args p' = ws"
  using assms
proof (induction us arbitrary: prev p rule: induct_list012)
  case 1
  then show ?case using parse_loop_last by fastforce
next
  case (2 u)
  note last = parse_loop_last [OF _ 2(3,4)]
  from 2(1) 2(2) show ?case unfolding append_Cons append_Nil parse_loop.simps(2) [of prev u]
    by (auto simp: res_bind_eq_Ok simp del: parse_loop.simps(2) dest: last split: option.splits if_splits)
next
  case (3 u v us)
  have "''--'' \<notin> set us" "''--'' \<notin> set (v # us)" using 3(4) by simp_all
  note IH = 3(1) [OF _ this(1) 3(5,6)] 3(2) [OF _ this(2) 3(5,6)]
  from 3(3) 3(4) show ?case unfolding append_Cons parse_loop.simps(2) [of prev u]
    by (auto simp: res_bind_eq_Ok simp del: parse_loop.simps(2) dest: IH(1) IH(2) [unfolded append_Cons]
        split: option.splits if_splits)
qed

text \<open>
  The word before \<open>--\<close> is taken for the executable, whatever it is, an option or the value of one
  included, and the words behind \<open>--\<close> are forwarded as they are.
\<close>
theorem parse_forwarded:
  assumes "parse_args2 (us @ w # ''--'' # ws) = Ok p" and "''--'' \<notin> set us"
    and "w \<noteq> ''--''" and "w \<noteq> ''-entry-point''"
  shows "executable p = w \<and> forwarded_args p = ws"
  using assms(1) parse_loop_forwarded [OF _ assms(2-4)]
  by (auto simp: parse_args2_def res_bind_eq_Ok split: if_splits)

theorem parse_forwarded_witness:
  "\<exists>p. parse_args2 [''prog'', ''-hosted'', ''--'', ''x''] = Ok p \<and> hosted p \<and> executable p = ''-hosted'' \<and>
     forwarded_args p = [''x'']"
proof -
  obtain p where p: "parse_args2 ([''prog''] @ ''-hosted'' # ''--'' # [''x'']) = Ok p" "hosted p"
    by (simp add: parse_args2_def number_option_def)
  show ?thesis using parse_forwarded [OF p(1)] p by simp
qed

section \<open>The status of the process\<close>


lemma set_error [simp]: "m_error (set_pc p s) = m_error s" "m_error (set_reg i v s) = m_error s"
  by (simp_all add: set_pc_def set_reg_def)


























end
