(* ===== verification/V2_Debug.thy ===== *)
theory V2_Debug
  imports V2_System
begin

text \<open>
  The disassembler of the second version (\<open>altairx_debug\<close> of \<open>debug.cpp\<close>): for each operation the
  format and the arguments it prints. It is compiled in, and its only call is commented out. The
  arguments depend on the word alone.
\<close>

datatype dbg2_arg =
    D2_A | D2_B | D2_C | D2_Imm24 | D2_Imm18 | D2_NegImm18 | D2_Imm12 | D2_Imm10 | D2_Imm16
  | D2_Size16 | D2_Szf | D2_Immf

type_synonym dbg2_line = "string \<times> dbg2_arg list"

text \<open>\<open>szf\<close> is the letter s and \<open>immf\<close> the number zero, whatever the word.\<close>

fun dbg2_value :: "u32 \<Rightarrow> dbg2_arg \<Rightarrow> parg" where
  "dbg2_value opc D2_A = PInt (word_of_nat (reg_a opc))"
| "dbg2_value opc D2_B = PInt (word_of_nat (reg_b opc))"
| "dbg2_value opc D2_C = PInt (word_of_nat (reg_c opc))"
| "dbg2_value opc D2_Imm24 = PInt (ucast (drop_bit 8 opc AND 0xFFFFFF))"
| "dbg2_value opc D2_Imm18 = PInt (ucast (drop_bit 8 opc AND 0x3FFFF))"
| "dbg2_value opc D2_NegImm18 = PInt (ucast (- (drop_bit 8 opc AND 0x3FFFF)))"
| "dbg2_value opc D2_Imm12 = PInt (ucast (drop_bit 8 opc AND 0xFFF))"
| "dbg2_value opc D2_Imm10 = PInt (ucast (drop_bit 10 opc AND 0x3FF))"
| "dbg2_value opc D2_Imm16 = PInt (ucast (drop_bit 10 opc AND 0xFFFF))"
| "dbg2_value opc D2_Size16 = PInt (word_of_nat (ax_size opc) * 16)"
| "dbg2_value opc D2_Szf = PInt (of_char CHR ''s'')"
| "dbg2_value opc D2_Immf = PDouble 0"

section \<open>Lines\<close>

text \<open>The integer units have no line for five operations, the load/store unit for four.\<close>

fun debug2_alu :: "alu2_op \<Rightarrow> dbg2_line option" where
  "debug2_alu ALU_MOVEIX = Some (''MOVEIX %x'' @ nl, [D2_Imm24])"
| "debug2_alu ALU_COP = Some (''COP %x'' @ nl, [D2_Imm24])"
| "debug2_alu ALU_EXT = Some (''EXT R%d,R%d,%x'' @ nl, [D2_A, D2_B, D2_Imm12])"
| "debug2_alu ALU_INS = Some (''INS R%d,R%d,%x'' @ nl, [D2_A, D2_B, D2_Imm12])"
| "debug2_alu ALU_MOVEI = Some (''MOVEI %d'' @ nl, [D2_Imm18])"
| "debug2_alu ALU_MOVEN = Some (''MOVEN %d'' @ nl, [D2_NegImm18])"
| "debug2_alu ALU_MOVEUP = Some (''SMOVE %d<<%d'' @ nl, [D2_Imm16, D2_Size16])"
| "debug2_alu ALU_CMP = Some (''CMP R%d,R%d'' @ nl, [D2_B, D2_C])"
| "debug2_alu ALU_TEST = Some (''TEST R%d,R%d'' @ nl, [D2_B, D2_C])"
| "debug2_alu ALU_CMPBIT = Some (''CMPBIT R%d,R%d'' @ nl, [D2_B, D2_C])"
| "debug2_alu ALU_TESTFR = Some (''TESTFR R%d,FR'' @ nl, [D2_B])"
| "debug2_alu ALU_SEXT = Some (''SEXT R%d,R%d,R%d'' @ nl, [D2_A, D2_B, D2_C])"
| "debug2_alu ALU_ADD = Some (''ADD R%d,R%d,R%d'' @ nl, [D2_A, D2_B, D2_C])"
| "debug2_alu ALU_SUB = Some (''SUB R%d,R%d,R%d'' @ nl, [D2_A, D2_B, D2_C])"
| "debug2_alu ALU_XOR = Some (''XOR R%d,R%d,R%d'' @ nl, [D2_A, D2_B, D2_C])"
| "debug2_alu ALU_OR = Some (''OR R%d,R%d,R%d'' @ nl, [D2_A, D2_B, D2_C])"
| "debug2_alu ALU_AND = Some (''AND R%d,R%d,R%d'' @ nl, [D2_A, D2_B, D2_C])"
| "debug2_alu ALU_LSL = Some (''LSL R%d,R%d,R%d'' @ nl, [D2_A, D2_B, D2_C])"
| "debug2_alu ALU_ASR = Some (''ASR R%d,R%d,R%d'' @ nl, [D2_A, D2_B, D2_C])"
| "debug2_alu ALU_LSR = Some (''LSR R%d,R%d,R%d'' @ nl, [D2_A, D2_B, D2_C])"
| "debug2_alu ALU_SE = Some (''SE R%d,R%d,R%d'' @ nl, [D2_A, D2_B, D2_C])"
| "debug2_alu ALU_SLTS = Some (''SLTS R%d,R%d,R%d'' @ nl, [D2_A, D2_B, D2_C])"
| "debug2_alu ALU_SLTU = Some (''SLTU R%d,R%d,R%d'' @ nl, [D2_A, D2_B, D2_C])"
| "debug2_alu ALU_SAND = Some (''SAND R%d,R%d,R%d'' @ nl, [D2_A, D2_B, D2_C])"
| "debug2_alu ALU_SBIT = Some (''SBIT R%d,R%d,R%d'' @ nl, [D2_A, D2_B, D2_C])"
| "debug2_alu ALU_SEN = Some (''SEN R%d,R%d,R%d'' @ nl, [D2_A, D2_B, D2_C])"
| "debug2_alu ALU_CMOVEN = Some (''CMOVEN R%d,R%d,R%d'' @ nl, [D2_A, D2_B, D2_C])"
| "debug2_alu ALU_CMOVE = Some (''CMOVE R%d,R%d,R%d'' @ nl, [D2_A, D2_B, D2_C])"
| "debug2_alu _ = None"

fun debug2_lsu :: "lsu2_op \<Rightarrow> dbg2_line option" where
  "debug2_lsu LSU_LD = Some (''LD R%d,R%d[R%d]'' @ nl, [D2_A, D2_B, D2_C])"
| "debug2_lsu LSU_ST = Some (''ST R%d,R%d[R%d]'' @ nl, [D2_A, D2_B, D2_C])"
| "debug2_lsu LSU_FLD = Some (''FLD R%d,R%d[R%d]'' @ nl, [D2_A, D2_B, D2_C])"
| "debug2_lsu LSU_FST = Some (''FST R%d,R%d[R%d]'' @ nl, [D2_A, D2_B, D2_C])"
| "debug2_lsu LSU_LDI = Some (''LDI R%d,%d[R%d]'' @ nl, [D2_A, D2_Imm10, D2_C])"
| "debug2_lsu LSU_STI = Some (''STI R%d,%d[R%d]'' @ nl, [D2_A, D2_Imm10, D2_C])"
| "debug2_lsu LSU_FLDI = Some (''FLDI R%d,%d[R%d]'' @ nl, [D2_A, D2_Imm10, D2_C])"
| "debug2_lsu LSU_FSTI = Some (''FSTI R%d,%d[R%d]'' @ nl, [D2_A, D2_Imm10, D2_C])"
| "debug2_lsu LSU_LDSP = Some (''LDSP R%d,%d[SP]'' @ nl, [D2_A, D2_Imm16])"
| "debug2_lsu LSU_STSP = Some (''STSP R%d,%d[SP]'' @ nl, [D2_A, D2_Imm16])"
| "debug2_lsu LSU_FLDSP = Some (''FLDSP R%d,%d[SP]'' @ nl, [D2_A, D2_Imm16])"
| "debug2_lsu LSU_FSTSP = Some (''FSTSP R%d,%d[SP]'' @ nl, [D2_A, D2_Imm16])"
| "debug2_lsu _ = None"

fun debug2_fpu :: "fpu2_op \<Rightarrow> dbg2_line option" where
  "debug2_fpu FPU_FADD = Some (''FADD.%c V%d,V%d,V%d'' @ nl, [D2_Szf, D2_A, D2_B, D2_C])"
| "debug2_fpu FPU_FSUB = Some (''FSUB.%c V%d,V%d,V%d'' @ nl, [D2_Szf, D2_A, D2_B, D2_C])"
| "debug2_fpu FPU_FMUL = Some (''FMUL.%c V%d,V%d,V%d'' @ nl, [D2_Szf, D2_A, D2_B, D2_C])"
| "debug2_fpu FPU_FNMUL = Some (''FNMUL.%c V%d,V%d,V%d'' @ nl, [D2_Szf, D2_A, D2_B, D2_C])"
| "debug2_fpu FPU_HTOF = Some (''HTOF.%c V%d,V%d'' @ nl, [D2_Szf, D2_A, D2_B])"
| "debug2_fpu FPU_FTOH = Some (''FTOH.%c V%d,V%d'' @ nl, [D2_Szf, D2_A, D2_B])"
| "debug2_fpu FPU_ITOF = Some (''ITOF.%c V%d,V%d'' @ nl, [D2_Szf, D2_A, D2_B])"
| "debug2_fpu FPU_FTOI = Some (''FTOI.%c V%d,V%d'' @ nl, [D2_Szf, D2_A, D2_B])"
| "debug2_fpu FPU_FNEG = Some (''FNEG.%c V%d,V%d'' @ nl, [D2_Szf, D2_A, D2_B])"
| "debug2_fpu FPU_FABS = Some (''FABS.%c V%d,V%d'' @ nl, [D2_Szf, D2_A, D2_B])"
| "debug2_fpu FPU_FMIN = Some (''FMIN.%c V%d,V%d,V%d'' @ nl, [D2_Szf, D2_A, D2_B, D2_C])"
| "debug2_fpu FPU_FMAX = Some (''FMAX.%c V%d,V%d,V%d'' @ nl, [D2_Szf, D2_A, D2_B, D2_C])"
| "debug2_fpu FPU_FMOVE = Some (''FMOVE.%c V%d,V%d,V%d'' @ nl, [D2_Szf, D2_A, D2_B, D2_C])"
| "debug2_fpu FPU_FCMP = Some (''FCMP.%c V%d,V%d'' @ nl, [D2_Szf, D2_B, D2_C])"
| "debug2_fpu FPU_FMOVEI = Some (''FMOVEI.%c V%d,V%d,%f'' @ nl, [D2_Szf, D2_A, D2_B, D2_Immf])"
| "debug2_fpu FPU_FCMPI = Some (''FCMPI.%c V%d,%f'' @ nl, [D2_Szf, D2_A, D2_Immf])"

fun debug2_bru :: "bru2_op \<Rightarrow> dbg2_line option" where
  "debug2_bru BRU_BNE = Some (''BNE %x '' @ nl, [D2_Imm24])"
| "debug2_bru BRU_BEQ = Some (''BEQ %x '' @ nl, [D2_Imm24])"
| "debug2_bru BRU_BL = Some (''BL %x '' @ nl, [D2_Imm24])"
| "debug2_bru BRU_BLE = Some (''BLE %x '' @ nl, [D2_Imm24])"
| "debug2_bru BRU_BG = Some (''BG %x '' @ nl, [D2_Imm24])"
| "debug2_bru BRU_BGE = Some (''BGE %x '' @ nl, [D2_Imm24])"
| "debug2_bru BRU_BLS = Some (''BLS %x '' @ nl, [D2_Imm24])"
| "debug2_bru BRU_BLES = Some (''BLES %x '' @ nl, [D2_Imm24])"
| "debug2_bru BRU_BGS = Some (''BGS %x '' @ nl, [D2_Imm24])"
| "debug2_bru BRU_BGES = Some (''BGES %x '' @ nl, [D2_Imm24])"
| "debug2_bru BRU_BRA = Some (''BRA %x '' @ nl, [D2_Imm24])"
| "debug2_bru BRU_LOOP = Some (''LOOP %x '' @ nl, [D2_Imm24])"
| "debug2_bru BRU_JUMP = Some (''JUMP %x '' @ nl, [D2_Imm24])"
| "debug2_bru BRU_CALL = Some (''CALL %x '' @ nl, [D2_Imm24])"
| "debug2_bru BRU_CALLR = Some (''CALLR %x '' @ nl, [D2_Imm24])"
| "debug2_bru BRU_OTHER = Some (''BRU_OTHER %x '' @ nl, [D2_Imm24])"

section \<open>The disassembler\<close>

text \<open>The units EFU and MDU have cases that print nothing; unit 4 has none.\<close>

definition debug2_line :: "u32 \<Rightarrow> dbg2_line option" where
  "debug2_line opc =
     (let u = ax_unit opc
      in if u = 0 \<or> u = 1 then debug2_alu (alu2_of opc)
         else if u = 2 then debug2_lsu (lsu2_of opc)
         else if u = 3 then debug2_fpu (fpu2_of opc)
         else if u = 7 then debug2_bru (bru2_of opc)
         else None)"

text \<open>The call of \<open>printf\<close> that a word makes.\<close>

definition altairx_debug :: "u32 \<Rightarrow> out_event list res" where
  "altairx_debug opc =
     (case debug2_line opc of
        None \<Rightarrow> Ok []
      | Some (fmt, args) \<Rightarrow>
          (let vs = map (dbg2_value opc) args
           in guard_res (fmt_ok fmt vs) Bad_format [Out_printf fmt vs]))"

end
