(* ===== verification/V2_Half.thy ===== *)
theory V2_Half
  imports AX_Vfpu
begin

text \<open>
  The conversions between half and single precision of \<open>utilities.hpp\<close>, on the bits of the numbers, with
  the proof that one undoes the other.
\<close>

section \<open>The conversions\<close>

definition float_to_half :: "u32 \<Rightarrow> u16" where
  "float_to_half val =
     (let mant = drop_bit 13 val AND 0x03FF;
          sign = drop_bit 16 val AND 0x8000;
          texp = drop_bit 23 val AND 0x00FF;
          ex = push_bit 10 (texp AND 0x0F);
          ex1 = (if texp AND 0x80 \<noteq> 0 then ex OR 0x4000 else ex)
      in ucast (sign + mant + ex1))"

definition half_to_float :: "u32 \<Rightarrow> u32" where
  "half_to_float half =
     (let ex = drop_bit 3 (half AND 0x3C00);
          ex1 = (if half AND 0x4000 \<noteq> 0 then ex OR 0x4000
                 else if ex \<noteq> 0 then ex OR 0x3800 else ex);
          ex2 = push_bit 16 ex1;
          xval = push_bit 16 (half AND 0x8000);
          xval1 = xval + push_bit 13 (half AND 0x03FF)
      in xval1 + ex2)"

text \<open>It is the conversion of the first VM.\<close>

lemma half_to_float_eq: "half_to_float = HalftoFloat"
  by (simp add: fun_eq_iff half_to_float_def HalftoFloat_def)

section \<open>Round trip\<close>

lemma add_disjoint: "x AND y = 0 \<Longrightarrow> x + y = x OR y" for x y :: "'a::len word"
  by (simp add: disjunctive_add_eq_or)

lemma bits_u32: "(\<And>n. n \<in> {0, 1, 2, 3, 4, 5, 6, 7, 8, 9, 10, 11, 12, 13, 14, 15, 16, 17, 18, 19, 20, 21, 22, 23,
    24, 25, 26, 27, 28, 29, 30, 31} \<Longrightarrow> bit x n = bit y n) \<Longrightarrow> x = y" for x y :: u32
  by (rule bit_word_eqI) (auto simp: less_Suc_eq eval_nat_numeral)

lemma test_bit_14: "(half :: u32) AND 0x4000 \<noteq> 0 \<longleftrightarrow> bit half 14"
  using and_exp_eq_0_iff_not_bit [of half 14] by simp

lemma test_bit_7: "(x :: u32) AND 0x80 \<noteq> 0 \<longleftrightarrow> bit x 7"
  using and_exp_eq_0_iff_not_bit [of x 7] by simp

lemma half_parts:
  "push_bit 16 (half AND 0x8000) AND push_bit 13 (half AND 0x03FF) = (0 :: u32)"
  "(push_bit 16 (half AND 0x8000) OR push_bit 13 (half AND 0x03FF)) AND push_bit 16 (drop_bit 3 (half AND 0x3C00)) = (0 :: u32)"
  "(push_bit 16 (half AND 0x8000) OR push_bit 13 (half AND 0x03FF)) AND push_bit 16 (drop_bit 3 (half AND 0x3C00) OR 0x4000) = (0 :: u32)"
  "(push_bit 16 (half AND 0x8000) OR push_bit 13 (half AND 0x03FF)) AND push_bit 16 (drop_bit 3 (half AND 0x3C00) OR 0x3800) = (0 :: u32)"
  by (rule bits_u32; elim insertE emptyE; hypsubst; simp add: bit_simps)+

lemma half_to_float_or:
  "half_to_float half =
     (push_bit 16 (half AND 0x8000) OR push_bit 13 (half AND 0x03FF)) OR
     push_bit 16 (if bit half 14 then drop_bit 3 (half AND 0x3C00) OR 0x4000
       else if drop_bit 3 (half AND 0x3C00) \<noteq> 0 then drop_bit 3 (half AND 0x3C00) OR 0x3800
       else drop_bit 3 (half AND 0x3C00))"
  by (simp only: half_to_float_def Let_def test_bit_14 half_parts add_disjoint split: if_split) (intro conjI impI refl)

lemma exponent_bits:
  fixes x :: u32
  assumes "drop_bit 3 x AND 1920 = 0"
  shows "\<not> bit x 10" "\<not> bit x 11" "\<not> bit x 12" "\<not> bit x 13"
proof -
  have "bit (drop_bit 3 x AND 1920) n = bit (0 :: u32) n" for n using assms by simp
  from this [of 7] this [of 8] this [of 9] this [of 10]
  show "\<not> bit x 10" "\<not> bit x 11" "\<not> bit x 12" "\<not> bit x 13" by (simp_all add: bit_simps)
qed

lemma float_parts:
  "(drop_bit 16 v AND 0x8000) AND (drop_bit 13 v AND 0x03FF) = (0 :: u32)"
  "((drop_bit 16 v AND 0x8000) OR (drop_bit 13 v AND 0x03FF)) AND push_bit 10 ((drop_bit 23 v AND 0x00FF) AND 0x0F) = (0 :: u32)"
  "((drop_bit 16 v AND 0x8000) OR (drop_bit 13 v AND 0x03FF)) AND (push_bit 10 ((drop_bit 23 v AND 0x00FF) AND 0x0F) OR 0x4000) = (0 :: u32)"
  by (rule bits_u32; elim insertE emptyE; hypsubst; simp add: bit_simps)+

lemma float_to_half_or:
  "float_to_half v =
     ucast (((drop_bit 16 v AND 0x8000) OR (drop_bit 13 v AND 0x03FF)) OR
       (if bit v 30 then push_bit 10 ((drop_bit 23 v AND 0x00FF) AND 0x0F) OR 0x4000
        else push_bit 10 ((drop_bit 23 v AND 0x00FF) AND 0x0F)))"
proof -
  have "(drop_bit 23 v AND 0x00FF) AND 0x80 \<noteq> 0 \<longleftrightarrow> bit v 30" by (simp only: test_bit_7) (simp add: bit_simps)
  then show ?thesis
    by (simp only: float_to_half_def Let_def float_parts add_disjoint split: if_split) (intro conjI impI refl)
qed

text \<open>
  C34. Every half float, infinities, NaNs and subnormal ones included, comes back from single precision with
  the same bits.
\<close>
theorem half_float_roundtrip: "float_to_half (half_to_float (ucast h)) = h"
proof (rule bit_word_eqI)
  fix n assume "n < LENGTH(16)"
  then have "n \<in> {0, 1, 2, 3, 4, 5, 6, 7, 8, 9, 10, 11, 12, 13, 14, 15}" by (auto simp: less_Suc_eq eval_nat_numeral)
  moreover obtain v where v: "v = half_to_float (ucast h)" by blast
  moreover have "bit v 30 \<longleftrightarrow> bit h 14" by (simp add: v half_to_float_or bit_simps)
  ultimately show "bit (float_to_half (half_to_float (ucast h))) n = bit h n"
    unfolding float_to_half_or v [symmetric]
    by (elim insertE emptyE; hypsubst; (use exponent_bits [of "ucast h"] in \<open>auto simp: bit_simps v half_to_float_or\<close>))
qed

end
