(* ===== verification/Spec2Isabelle.thy ===== *)
theory Spec2Isabelle
  imports AX_Boot AX_Modes AX_Moves AX_AXS AX_Perf GPU_Execute V2_Hosted V2_Main V2_Debug V2_Half
begin

text \<open>
  A model of the AltairX virtual machines, with the theorems that say what they compute.

  The repository. It holds two interpreters of the AltairX processor, a two-issue machine with explicit
  bundles: \<open>src/VM/altairx\<close> in C and its successor \<open>src/VM/altairx_v2\<close> in C++. Beside them
  stand the compute unit of a GPU (\<open>src/GPU/Aldebaran\<close>), a sketch of an out-of-order front end
  (\<open>src/VM/altairx/src/AX-S\<close>) and performance tests (\<open>src/VM/altairx/test.c\<close>). Each interpreter is
  a loop: fetch a word, take the pending branch or move on, execute by unit number, emulate a system call,
  until the error code is set.

  Undefined behaviour. An access past a block or an array, a shift by the width or more, a zero divisor, a
  read of an uninitialised variable, a failed assertion, a C++ exception and \<open>exit\<close> are faults, values of
  the sum type \<open>res\<close> (\<open>AX_Prelude\<close>); every operation that has such a case returns \<open>res\<close>. Machine
  integers are words of their width. A struct is a record with the fields of the source, shared memory
  is a block of bytes with a size, and a pointer into it is a region (or area) and an offset.

  The first version.
  \<open>AX_Prelude\<close>: \<open>res\<close>, folds over it, little-endian bytes of a word. \<open>AX_Machine\<close>: the structs of
  \<open>vm.h\<close>, register access, what every step keeps (\<open>core_keeps\<close>). \<open>AX_Memory\<close>: blocks, with the locale
  \<open>byte_store\<close> (a read after a write) interpreted on the regions here and on the areas of the second
  version, and \<open>AX_Memory_Map\<close> of \<open>vm.c\<close>. \<open>AX_Lsu\<close>: \<open>io.c\<close> and the load/store cases of
  \<open>decode_execute.c\<close>, both copies of which are folded into one
  table (\<open>lsu_spec\<close>) by a rewrite rule that the proofs share. \<open>AX_Alu\<close>,
  \<open>AX_Branch\<close>, \<open>AX_Vfpu\<close>, \<open>AX_Efu\<close>: the other cases of \<open>decode_execute.c\<close>, by unit. \<open>AX_Float\<close>:
  IEEE arithmetic in software, exact values rounded to nearest even; the sign and payload of a NaN
  and the functions of libm are the parameter \<open>fenv\<close>, whose contract is the locale \<open>fp_env\<close>.
  \<open>AX_Moves\<close>: what shuffles and immediate moves do. \<open>AX_Exec\<close>: the dispatch and \<open>AX_decode_execute\<close>, one step. \<open>AX_Cycle\<close>: \<open>cycle.c\<close>, its two caches
  as interpretations of the locale \<open>direct_mapped\<close>, its scoreboard. \<open>AX_Debug\<close>: \<open>debug.c\<close>.
  \<open>AX_Syscall\<close>: \<open>syscall.c\<close>, over a record of host functions. \<open>AX_Run\<close>: the five loops of \<open>vm.c\<close>,
  interpretations of the locale \<open>core_loop\<close>. \<open>AX_Modes\<close>: the modes compared with one another, two
  interpretations of the locale \<open>loop_sim\<close>. \<open>AX_Boot\<close>: set-up, program file and \<open>main.c\<close>, and
  the scoreboard of a core from its set-up on.
  \<open>AX_AXS\<close> and \<open>AX_Perf\<close>: the front end of AX-S and \<open>test.c\<close>.

  The second version.
  \<open>V2_Opcode\<close>: \<open>opcode.hpp\<close>. \<open>V2_Memory\<close>: \<open>core.hpp\<close> and \<open>memory.cpp\<close>. \<open>V2_Core\<close>: the units of
  \<open>core.cpp\<close>. \<open>V2_System\<close>: \<open>syscall.cpp\<close> and the loop of \<open>altairx.cpp\<close>, with reachable states as an
  inductive relation. \<open>V2_Loader\<close>: \<open>elf.cpp\<close> from the sections that LLVM gives on, and the loaders of
  \<open>altairx.cpp\<close>. \<open>V2_Hosted\<close>: what a hosted program finds in memory and how it starts and ends.
  \<open>V2_Main\<close>: \<open>main.cpp\<close>. \<open>V2_Debug\<close>: \<open>debug.cpp\<close>. \<open>V2_Half\<close>: the conversions of \<open>utilities.hpp\<close>.

  The GPU. \<open>GPU_Aldebaran\<close>: the decoder, delayed branches, transfers and the step of a compute unit.
  \<open>GPU_Execute\<close>: its instructions (\<open>executeInstruction\<close>), which the step does not call.

  What the lemmas show. For each version, that a step keeps the shape of the state; what each unit
  computes, on every branch and with its faults; that a load gives what a store has written and
  nothing else changes, that a transfer faults exactly when it leaves its block, and that an aligned
  one of the second version never does; for each conditional branch, after a comparison, when it is taken, which is
  often not what its name says; what a bundle and a delay slot execute, and what the vector
  loops compute in place; when a run returns, and with what status a process ends, for every panic and
  exit of the loaders and the instructions; that the debugger and the cycle model do not change what a program does; that a working set
  of the data cache is kept and where its index leaves the array; how long the scoreboard makes a
  slot wait, and that the wait for the flags of a first comparison is not bounded, as the set-up leaves
  their counter as \<open>malloc\<close> gave it; what \<open>main\<close> leaves in a core before its first step, and what the
  print call does with a guest string; where the loader of the second version puts a program, its stack,
  its arguments and its entry code, and for which sizes of WRAM every address has a byte of its own;
  what a handler of a system call returns to; round trips of half floats, decimal numbers and instruction pairs;
  and, for the GPU, the way from a decoded word to its result, to the branch after it and to memory.
  Where the code differs from its intention, the theorem states what the code does.

  Loops and bounds. A loop of the processor may run for ever, so the run loops are partial functions with
  the value \<open>None\<close> for a run that does not return. \<open>run_fuel\<close> of \<open>AX_Run\<close> is the same loop with a
  bound, and \<open>run_loop_iff_fuel\<close> says that a run returns exactly when some bound is enough. Every other
  loop is over a list or a range and is total. The clock, the keyboard, files and the time stamp
  counter are parameters. Memory that \<open>malloc\<close> returns has indeterminate contents, an argument.
  The address mask of the second
  version is the size less one for every size: \<open>V2_Hosted\<close> takes WRAM to have \<open>2 ^ k\<close> bytes, at most
  2 GiB, and \<open>wram_addressable\<close> shows that for other sizes two addresses share a byte or an address leaves
  the area.

  Not modelled.
  \<open>decode.c\<close>, \<open>decode.h\<close>, \<open>execute.c\<close> and \<open>decode_x64.c\<close> of the first version: an earlier decoder and
  executor, not in the build, on fields and opcodes that \<open>vm.h\<close> no longer declares.
  \<open>fetch.c\<close> and \<open>decode.c\<close> of AX-S and \<open>xstar_loop.c\<close>: not in the build, likewise or empty.
  \<open>core_execute_fpu.cpp\<close> and \<open>core_execute_efu.cpp\<close>: not in the build, on members that no class has.
  \<open>io.cpp\<close>: two empty functions. \<open>panic.hpp\<close>: the text of an exception; the exception is a fault.
  The cases of \<open>executeInstruction\<close> of the GPU that use names declared nowhere: vector and double
  precision, \<open>INT\<close>, \<open>STDMACL\<close>, \<open>DMAI\<close>. \<open>main.c\<close> and \<open>struct.c\<close> of the GPU: a greeting and an unused declaration. LLVM, libm and the
  C library are parameters where the code calls them. The assembly, Verilog and test programs of the
  repository are not part of the virtual machines.
\<close>

end
